(* ===== verification/Rust_Prelude.thy ===== *)
theory Rust_Prelude
  imports Complex_Main "HOL-Library.Word"
begin

text \<open>
  Shared vocabulary of the development: the machine integers of the Rust sources as words
  of their width, byte buffers, little-endian encodings of the standard library, and the
  generic lemmas the component theories
  rely on.  The collection \<open>rust_simps\<close> holds the rewrite rules that unfold these
  library functions in component proofs.
\<close>

unbundle bit_operations_syntax

named_theorems rust_simps \<open>rewrite rules for the modelled part of the Rust standard library\<close>

section \<open>Machine integers and buffers\<close>

type_synonym u8 = "8 word"
type_synonym u16 = "16 word"
type_synonym u32 = "32 word"
type_synonym u64 = "64 word"
type_synonym u128 = "128 word"
type_synonym usize = "64 word"
type_synonym i32 = "32 word"
type_synonym i64 = "64 word"
type_synonym bytes = "u8 list"

text \<open>
  \<open>io::Error\<close> values carry a kind and a message; only the kinds that the modelled code
  constructs are listed.
\<close>

datatype error_kind = InvalidData | InvalidInput | Other | NotFound
  | PermissionDenied | IsADirectory | NotADirectory | DirectoryNotEmpty | BadDescriptor

type_synonym io_error = "error_kind \<times> string"

text \<open>
  Where a component keeps \<open>i32\<close>, \<open>u64\<close> or \<open>usize\<close> values as \<open>int\<close> or \<open>nat\<close>, its arithmetic goes
  through these functions: addition wraps, as in a release build, and a cast of a negative
  \<open>i32\<close> to \<open>usize\<close> gives a huge number.
\<close>

definition add_i32 :: "int \<Rightarrow> int \<Rightarrow> int" where
  "add_i32 a b = sint (of_int a + of_int b :: i32)"

definition add_u64 :: "nat \<Rightarrow> nat \<Rightarrow> nat" where
  "add_u64 a b = (a + b) mod 2 ^ 64"

definition i32_as_usize :: "int \<Rightarrow> nat" where
  "i32_as_usize i = nat (i mod 2 ^ 64)"

definition usize_as_i32 :: "nat \<Rightarrow> int" where
  "usize_as_i32 n = sint (of_nat n :: i32)"

definition u64_as_i64 :: "nat \<Rightarrow> int" where
  "u64_as_i64 n = sint (of_nat n :: i64)"

lemma add_i32_small: "\<lbrakk>- (2 ^ 31) \<le> a + b; a + b < 2 ^ 31\<rbrakk> \<Longrightarrow> add_i32 a b = a + b"
  unfolding add_i32_def of_int_add [symmetric] signed_of_int
  by (simp add: signed_take_bit_int_eq_self)

lemma i32_as_usize_nat [rust_simps]: "n < 2 ^ 64 \<Longrightarrow> i32_as_usize (int n) = n"
  by (simp add: i32_as_usize_def)

lemma usize_as_i32_small [rust_simps]: "n < 2 ^ 31 \<Longrightarrow> usize_as_i32 n = int n"
proof -
  assume "n < 2 ^ 31"
  then have "sint (of_int (int n) :: i32) = int n"
    unfolding signed_of_int by (simp add: signed_take_bit_int_eq_self)
  then show ?thesis by (simp add: usize_as_i32_def)
qed

lemma add_i32_Suc [rust_simps]: "Suc n < 2 ^ 31 \<Longrightarrow> add_i32 (int n) 1 = int (Suc n)"
  by (simp add: add_i32_small)

lemma u64_as_i64_small [rust_simps]: "n < 2 ^ 63 \<Longrightarrow> u64_as_i64 n = int n"
proof -
  assume "n < 2 ^ 63"
  then have "sint (of_int (int n) :: i64) = int n"
    unfolding signed_of_int by (simp add: signed_take_bit_int_eq_self)
  then show ?thesis by (simp add: u64_as_i64_def)
qed

section \<open>Little-endian byte encodings\<close>

definition put_u8 :: "u8 \<Rightarrow> bytes" where
  "put_u8 w = [w]"

definition put_u16_le :: "u16 \<Rightarrow> bytes" where
  "put_u16_le w = [ucast w, ucast (drop_bit 8 w)]"

definition put_u32_le :: "u32 \<Rightarrow> bytes" where
  "put_u32_le w = [ucast w, ucast (drop_bit 8 w), ucast (drop_bit 16 w), ucast (drop_bit 24 w)]"

text \<open>\<open>to_le_bytes\<close> of an integer of \<open>n\<close> bytes, and \<open>from_le_bytes\<close>.\<close>

definition to_le_bytes :: "nat \<Rightarrow> 'a::len word \<Rightarrow> bytes" where
  "to_le_bytes n w = map (\<lambda>i. ucast (drop_bit (8 * i) w)) [0..<n]"

fun from_le_bytes :: "bytes \<Rightarrow> 'a::len word" where
  "from_le_bytes [] = 0"
| "from_le_bytes (b # bs) = ucast b OR push_bit 8 (from_le_bytes bs)"

lemma length_to_le_bytes [simp]: "length (to_le_bytes n w) = n"
  by (simp add: to_le_bytes_def)

lemma to_le_bytes_Suc:
  "to_le_bytes (Suc n) w = ucast w # to_le_bytes n (drop_bit 8 w)"
proof -
  have "[0..<Suc n] = 0 # map Suc [0..<n]"
    by (simp add: map_Suc_upt upt_conv_Cons)
  then show ?thesis
    by (simp add: to_le_bytes_def algebra_simps del: upt_Suc)
qed

lemma to_le_bytes_0 [simp]: "to_le_bytes 0 w = []"
  by (simp add: to_le_bytes_def)

lemma to_le_bytes_numerals:
  "to_le_bytes (Suc 0) w = [ucast w]"
  "to_le_bytes 2 w = [ucast w, ucast (drop_bit 8 w)]"
  "to_le_bytes 3 w = [ucast w, ucast (drop_bit 8 w), ucast (drop_bit 16 w)]"
  "to_le_bytes 4 w = [ucast w, ucast (drop_bit 8 w), ucast (drop_bit 16 w), ucast (drop_bit 24 w)]"
  by (simp_all add: to_le_bytes_def upt_rec)

lemma from_to_le_bytes_take_bit:
  fixes w :: "'a::len word"
  shows "from_le_bytes (to_le_bytes n w) = take_bit (8 * n) w"
proof (induction n arbitrary: w)
  case 0
  then show ?case by simp
next
  case (Suc n)
  have "from_le_bytes (to_le_bytes (Suc n) w)
      = ucast (ucast w :: u8) OR push_bit 8 (take_bit (8 * n) (drop_bit 8 w))"
    by (simp add: to_le_bytes_Suc Suc)
  also have "\<dots> = take_bit (8 * Suc n) w"
    by (rule bit_word_eqI) (auto simp: bit_simps)
  finally show ?case .
qed

lemma from_to_le_bytes:
  fixes w :: "'a::len word"
  assumes "LENGTH('a) \<le> 8 * n"
  shows "from_le_bytes (to_le_bytes n w) = w"
  using assms by (simp add: from_to_le_bytes_take_bit take_bit_word_eq_self)

lemma take_bit_from_le_bytes:
  "take_bit (8 * length bs) (from_le_bytes bs :: 'a::len word) = from_le_bytes bs"
proof (induction bs)
  case (Cons b bs)
  have "take_bit (8 * length (b # bs)) (from_le_bytes (b # bs) :: 'a word)
      = ucast b OR push_bit 8 (take_bit (8 * length bs) (from_le_bytes bs))"
    by (rule bit_word_eqI) (auto simp: bit_simps dest: bit_imp_le_length)
  then show ?case by (simp add: Cons)
qed simp

lemma unat_from_le_bytes_less:
  "unat (from_le_bytes bs :: 'a::len word) < 2 ^ (8 * length bs)"
  by (metis take_bit_from_le_bytes take_bit_nat_less_exp unsigned_take_bit_eq)

lemma to_from_le_bytes:
  assumes "length bs = n" "8 * n \<le> LENGTH('a)"
  shows "to_le_bytes n (from_le_bytes bs :: 'a::len word) = bs"
  using assms
proof (induction bs arbitrary: n)
  case (Cons b bs)
  then obtain m where n: "n = Suc m" by (cases n) auto
  have "ucast (ucast b OR push_bit 8 (from_le_bytes bs) :: 'a word) = b"
    using Cons.prems n by (intro bit_word_eqI) (auto simp: bit_simps dest: bit_imp_le_length)
  moreover have "drop_bit 8 (ucast b OR push_bit 8 (from_le_bytes bs)) = (from_le_bytes bs :: 'a word)"
  proof -
    have "take_bit (8 * length bs) (from_le_bytes bs :: 'a word) = from_le_bytes bs"
      by (rule take_bit_from_le_bytes)
    then have self: "\<not> bit (from_le_bytes bs :: 'a word) i" if "8 * length bs \<le> i" for i
      using that by (metis bit_take_bit_iff leD)
    show ?thesis
      using Cons.prems n
      by (intro bit_word_eqI) (auto simp: bit_simps self dest: bit_imp_le_length)
  qed
  ultimately show ?case
    using Cons n by (simp add: to_le_bytes_Suc)
qed simp

lemma ucast_diff_down:
  "LENGTH('b) \<le> LENGTH('a) \<Longrightarrow> (ucast (a - b :: 'a::len word) :: 'b::len word) = ucast a - ucast b"
  by transfer (metis min.absorb1 take_bit_diff take_bit_take_bit)

lemma ucast_add_down:
  "LENGTH('b) \<le> LENGTH('a) \<Longrightarrow> (ucast (a + b :: 'a::len word) :: 'b::len word) = ucast a + ucast b"
  by transfer (metis min.absorb1 take_bit_add take_bit_take_bit)

text \<open>Zero bytes at the most significant end do not change the value.\<close>

lemma from_le_bytes_append_zeros [simp]:
  "from_le_bytes (bs @ replicate k 0) = (from_le_bytes bs :: 'a::len word)"
proof (induction bs)
  case Nil
  show ?case by (induction k) simp_all
qed simp

section \<open>Words of bounded value\<close>

lemma take_bit_of_nat_self:
  "n < 2 ^ k \<Longrightarrow> take_bit k (of_nat n :: 'a::len word) = of_nat n"
  by (metis of_nat_take_bit take_bit_nat_eq_self)

lemma unat_of_nat_small:
  "n < 2 ^ LENGTH('a) \<Longrightarrow> unat (of_nat n :: 'a::len word) = n"
  by (simp add: unsigned_of_nat take_bit_nat_eq_self)

text \<open>The bits of the small masks that the wire formats use.\<close>

lemma bit_three_iff [bit_simps]: "bit (3 :: 'a::len word) n \<longleftrightarrow> n < LENGTH('a) \<and> n < 2"
proof -
  have "(3 :: 'a word) = mask 2" by (simp add: mask_eq_exp_minus_1)
  then show ?thesis by (simp only: bit_mask_iff) auto
qed

lemma and_three_eq: "w AND 3 = take_bit 2 (w :: 'a::len word)"
  by (simp add: take_bit_eq_mask mask_eq_exp_minus_1)

lemma and_FFFF_eq: "w AND 0xFFFF = take_bit 16 (w :: 'a::len word)"
  by (simp add: take_bit_eq_mask mask_eq_exp_minus_1)

section \<open>Lists\<close>

lemma take_append_exact [simp]: "take (length xs) (xs @ ys) = xs"
  by simp

lemma drop_append_exact [simp]: "drop (length xs) (xs @ ys) = ys"
  by simp

text \<open>\<open>takeWhile\<close> from the end, as \<open>iter().rev()\<close> loops count it.\<close>

lemma length_takeWhile_rev_le: "length (takeWhile P (rev xs)) \<le> length xs"
  by (metis length_rev length_takeWhile_le)

lemma drop_last_takeWhile:
  "drop (length xs - length (takeWhile P (rev xs))) xs = rev (takeWhile P (rev xs))"
proof -
  have "rev xs = takeWhile P (rev xs) @ dropWhile P (rev xs)" by simp
  then have "xs = rev (dropWhile P (rev xs)) @ rev (takeWhile P (rev xs))"
    by (metis rev_append rev_rev_ident)
  then show ?thesis
    by (metis add_diff_cancel_right' append_eq_conv_conj length_append length_rev)
qed

end
