(* ===== verification/Packet_Transport.thy ===== *)
theory Packet_Transport
  imports Rust_Prelude
begin

text \<open>
  The contract a framing layer offers to the stream above it: whatever way the bytes of a
  sequence of packed messages are cut into chunks on the wire, unpacking the chunks gives
  the messages back.  \<open>Bytes_Codec\<close> provides it, \<open>Secure_Stream\<close> relies on it.
\<close>

locale packet_transport =
  fixes pack :: "bytes \<Rightarrow> bytes"
    and fits :: "bytes \<Rightarrow> bool"
    and unpack :: "bytes list \<Rightarrow> bytes list"
  assumes unpack_pack:
    "\<lbrakk>\<forall>m\<in>set ms. fits m; concat chunks = concat (map pack ms)\<rbrakk> \<Longrightarrow> unpack chunks = ms"
begin

lemma unpack_single: "fits m \<Longrightarrow> unpack [pack m] = [m]"
  by (rule unpack_pack) simp_all

lemma pack_inj: "\<lbrakk>fits a; fits b; pack a = pack b\<rbrakk> \<Longrightarrow> a = b"
  using unpack_single [of a] unpack_single [of b] by (metis list.inject)

text \<open>Two message sequences with the same wire image are the same sequence.\<close>

lemma wire_inj:
  assumes "\<forall>m\<in>set ms. fits m" "\<forall>m\<in>set ms'. fits m" "concat (map pack ms) = concat (map pack ms')"
  shows "ms = ms'"
proof -
  have "unpack [concat (map pack ms)] = ms" by (rule unpack_pack) (use assms in simp_all)
  moreover have "unpack [concat (map pack ms)] = ms'" by (rule unpack_pack) (use assms in simp_all)
  ultimately show ?thesis by simp
qed

end

end
