(* ===== verification/Bytes_Codec.thy ===== *)
theory Bytes_Codec
  imports Packet_Transport
begin

text \<open>
  The framing codec of \<open>libs/hbb_common/src/bytes_codec.rs\<close>.  A packet is a header of one
  to four bytes followed by the payload; the two low bits of the first header byte give the
  header's length minus one, the remaining bits (little endian) the payload's length.  The
  decoder is a two-state machine that is fed a growing buffer.
\<close>

section \<open>Codec state and operations\<close>

datatype DecodeState = Head | Data usize

record BytesCodec =
  state :: DecodeState
  raw :: bool
  max_packet_length :: usize

definition BytesCodec_new :: BytesCodec where
  "BytesCodec_new = \<lparr>state = Head, raw = False, max_packet_length = - 1\<rparr>"

definition set_raw :: "BytesCodec \<Rightarrow> BytesCodec" where
  "set_raw c = c\<lparr>raw := True\<rparr>"

definition set_max_packet_length :: "usize \<Rightarrow> BytesCodec \<Rightarrow> BytesCodec" where
  "set_max_packet_length n c = c\<lparr>max_packet_length := n\<rparr>"

text \<open>The operations return the buffer they mutate and the result of the Rust function.\<close>

definition decode_head :: "BytesCodec \<Rightarrow> bytes \<Rightarrow> bytes \<times> (io_error + usize option)" where
  "decode_head c src =
     (if src = [] then (src, Inr None)
      else
        let head_len = unat ((src ! 0 AND 3) + 1) in
        if length src < head_len then (src, Inr None)
        else
          let n = ucast (src ! 0) :: usize;
              n = (if head_len > 1 then n OR push_bit 8 (ucast (src ! 1)) else n);
              n = (if head_len > 2 then n OR push_bit 16 (ucast (src ! 2)) else n);
              n = (if head_len > 3 then n OR push_bit 24 (ucast (src ! 3)) else n);
              n = drop_bit 2 n
          in if n > max_packet_length c then (src, Inl (InvalidData, ''Too big packet''))
             else (drop head_len src, Inr (Some n)))"

definition decode_data :: "usize \<Rightarrow> bytes \<Rightarrow> bytes \<times> (io_error + bytes option)" where
  "decode_data n src =
     (if length src < unat n then (src, Inr None)
      else (drop (unat n) src, Inr (Some (take (unat n) src))))"

definition decode_payload ::
    "BytesCodec \<Rightarrow> usize \<Rightarrow> bytes \<Rightarrow> BytesCodec \<times> bytes \<times> (io_error + bytes option)" where
  "decode_payload c n src =
     (case decode_data n src of
        (src', Inl e) \<Rightarrow> (c, src', Inl e)
      | (src', Inr (Some d)) \<Rightarrow> (c\<lparr>state := Head\<rparr>, src', Inr (Some d))
      | (src', Inr None) \<Rightarrow> (c, src', Inr None))"

definition decode :: "BytesCodec \<Rightarrow> bytes \<Rightarrow> BytesCodec \<times> bytes \<times> (io_error + bytes option)" where
  "decode c src =
     (if raw c then
        (if src \<noteq> [] then (c, [], Inr (Some src)) else (c, src, Inr None))
      else case state c of
        Head \<Rightarrow>
          (case decode_head c src of
             (src', Inl e) \<Rightarrow> (c, src', Inl e)
           | (src', Inr None) \<Rightarrow> (c, src', Inr None)
           | (src', Inr (Some n)) \<Rightarrow> decode_payload (c\<lparr>state := Data n\<rparr>) n src')
      | Data n \<Rightarrow> decode_payload c n src)"

definition encode :: "BytesCodec \<Rightarrow> bytes \<Rightarrow> bytes \<Rightarrow> bytes \<times> (io_error + unit)" where
  "encode c data buf =
     (if raw c then (buf @ data, Inr ())
      else
        let len = of_nat (length data) :: usize in
        if length data \<le> 0x3F then
          (buf @ put_u8 (ucast (push_bit 2 len)) @ data, Inr ())
        else if length data \<le> 0x3FFF then
          (buf @ put_u16_le (ucast (push_bit 2 len) OR 1) @ data, Inr ())
        else if length data \<le> 0x3FFFFF then
          let h = (ucast (push_bit 2 len) OR 2 :: u32) in
          (buf @ put_u16_le (ucast (h AND 0xFFFF)) @ put_u8 (ucast (drop_bit 16 h)) @ data, Inr ())
        else if length data \<le> 0x3FFFFFFF then
          (buf @ put_u32_le (ucast (push_bit 2 len) OR 3) @ data, Inr ())
        else (buf, Inl (InvalidInput, ''Overflow'')))"

section \<open>The header\<close>

text \<open>The header \<open>encode\<close> writes for a payload of \<open>n\<close> bytes, as a function of its own.\<close>

definition header :: "nat \<Rightarrow> bytes" where
  "header n =
     (let len = of_nat n :: usize in
      if n \<le> 0x3F then put_u8 (ucast (push_bit 2 len))
      else if n \<le> 0x3FFF then put_u16_le (ucast (push_bit 2 len) OR 1)
      else if n \<le> 0x3FFFFF then
        (let h = (ucast (push_bit 2 len) OR 2 :: u32) in
         put_u16_le (ucast (h AND 0xFFFF)) @ put_u8 (ucast (drop_bit 16 h)))
      else put_u32_le (ucast (push_bit 2 len) OR 3))"

definition header_len :: "nat \<Rightarrow> nat" where
  "header_len n = (if n \<le> 0x3F then 1 else if n \<le> 0x3FFF then 2 else if n \<le> 0x3FFFFF then 3 else 4)"

lemma length_header [simp]: "length (header n) = header_len n"
  by (simp add: header_def header_len_def Let_def put_u8_def put_u16_le_def put_u32_le_def)

lemma header_len_bounds: "1 \<le> header_len n" "header_len n \<le> 4"
  by (auto simp: header_len_def)

lemma header_nonempty [simp]: "header n \<noteq> []"
  by (metis length_header header_len_bounds(1) list.size(3) not_one_le_zero)

lemma encode_header:
  assumes "\<not> raw c" "length data \<le> 0x3FFFFFFF"
  shows "encode c data buf = (buf @ header (length data) @ data, Inr ())"
  using assms by (simp add: encode_def header_def Let_def)

text \<open>
  The header is the little-endian encoding of \<open>4 * n + tag\<close>, where the tag is the
  header's length minus one; \<open>decode_head\<close> reads the same number back.
\<close>

definition header_value :: "nat \<Rightarrow> usize" where
  "header_value n = push_bit 2 (of_nat n) OR of_nat (header_len n - 1)"

lemma header_le: "header n = to_le_bytes (header_len n) (header_value n)"
proof -
  consider "n \<le> 0x3F" | "0x3F < n" "n \<le> 0x3FFF" | "0x3FFF < n" "n \<le> 0x3FFFFF" | "0x3FFFFF < n"
    by linarith
  then show ?thesis
  proof cases
    case 1
    then show ?thesis
      by (simp add: header_def header_len_def header_value_def put_u8_def to_le_bytes_numerals)
  next
    case 2
    then show ?thesis
      by (auto simp: header_def header_len_def header_value_def put_u16_le_def to_le_bytes_numerals
          Let_def bit_simps intro!: bit_word_eqI)
  next
    case 3
    then show ?thesis
      by (auto simp: header_def header_len_def header_value_def put_u8_def put_u16_le_def to_le_bytes_numerals
          Let_def and_FFFF_eq bit_simps intro!: bit_word_eqI)
  next
    case 4
    then show ?thesis
      by (auto simp: header_def header_len_def header_value_def put_u32_le_def to_le_bytes_numerals
          Let_def bit_simps intro!: bit_word_eqI)
  qed
qed

lemma header_value_small:
  assumes "n \<le> 0x3FFFFFFF"
  shows "drop_bit 2 (take_bit (8 * header_len n) (header_value n)) = of_nat n"
    and "take_bit 2 (header_value n) = of_nat (header_len n - 1)"
proof -
  have lt: "n < 2 ^ (8 * header_len n - 2)"
    using assms by (auto simp: header_len_def)
  have self: "of_nat n = take_bit (8 * header_len n - 2) (of_nat n :: usize)"
    by (rule take_bit_of_nat_self [OF lt, symmetric])
  have tag: "of_nat (header_len n - 1) = take_bit 2 (of_nat (header_len n - 1) :: usize)"
    by (rule take_bit_of_nat_self [symmetric]) (auto simp: header_len_def)
  have "drop_bit 2 (take_bit (8 * header_len n) (header_value n))
      = take_bit (8 * header_len n - 2) (of_nat n)"
    unfolding header_value_def using header_len_bounds(2) [of n]
    by (subst tag) (rule bit_word_eqI, auto simp: bit_simps)
  then show "drop_bit 2 (take_bit (8 * header_len n) (header_value n)) = of_nat n"
    using self by simp
  show "take_bit 2 (header_value n) = of_nat (header_len n - 1)"
    unfolding header_value_def
    by (subst (2) tag) (rule bit_word_eqI, auto simp: bit_simps)
qed

abbreviation head_tag :: "u8 \<Rightarrow> nat" where
  "head_tag b \<equiv> unat ((b AND 3) + 1)"

lemma head_tag_eq: "head_tag b = take_bit 2 (unat b) + 1"
proof -
  have "unat (take_bit 2 b) < 4"
    by (simp only: unsigned_take_bit_eq) (simp add: take_bit_eq_mod)
  then have "unat (take_bit 2 b + 1) = unat (take_bit 2 b) + 1"
    by (subst unat_add_lem [THEN iffD1]) simp_all
  then show ?thesis by (simp add: and_three_eq unsigned_take_bit_eq)
qed

lemma head_tag_range: "head_tag b = 1 \<or> head_tag b = 2 \<or> head_tag b = 3 \<or> head_tag b = 4"
  unfolding head_tag_eq take_bit_eq_mod by (simp, presburger)

lemma header_first: 
  assumes "n \<le> 0x3FFFFFFF"
  shows "head_tag (header n ! 0) = header_len n"
proof -
  have "header n ! 0 = ucast (header_value n)"
    using header_len_bounds(1) [of n] by (simp add: header_le to_le_bytes_def)
  then have "take_bit 2 (unat (header n ! 0)) = unat (take_bit 2 (header_value n))"
    by (simp add: unsigned_ucast_eq unsigned_take_bit_eq)
  also have "\<dots> = header_len n - 1"
    unfolding header_value_small(2) [OF assms]
    by (rule unat_of_nat_small) (auto simp: header_len_def)
  finally show ?thesis
    using header_len_bounds(1) [of n] by (simp add: head_tag_eq)
qed

text \<open>The number \<open>decode_head\<close> assembles from the header bytes is their little-endian value.\<close>

lemma decode_head_le:
  assumes "src \<noteq> []" "head_tag (src ! 0) \<le> length src"
  shows "decode_head c src =
    (let n = drop_bit 2 (from_le_bytes (take (head_tag (src ! 0)) src)) in
     if n > max_packet_length c then (src, Inl (InvalidData, ''Too big packet''))
     else (drop (head_tag (src ! 0)) src, Inr (Some n)))"
proof -
  obtain a s where s: "src = a # s" using assms(1) by (cases src) auto
  from head_tag_range [of a] show ?thesis
  proof (elim disjE)
    assume "head_tag a = 1"
    then show ?thesis using s by (simp add: decode_head_def Let_def)
  next
    assume t: "head_tag a = 2"
    then obtain b s' where "s = b # s'" using assms s by (cases s) auto
    then show ?thesis using s t by (simp add: decode_head_def Let_def numeral_2_eq_2)
  next
    assume t: "head_tag a = 3"
    then obtain b c s' where "s = b # c # s'"
      using assms s by (cases s; cases "tl s") auto
    then show ?thesis using s t by (simp add: decode_head_def Let_def numeral_3_eq_3 or.assoc)
  next
    assume t: "head_tag a = 4"
    then obtain b c d s' where "s = b # c # d # s'"
      using assms s by (cases s; cases "tl s"; cases "tl (tl s)") auto
    then show ?thesis
      using s t by (simp add: decode_head_def Let_def numeral_eq_Suc or.assoc)
  qed
qed

lemma decode_head_header:
  assumes "n \<le> 0x3FFFFFFF"
  shows "decode_head c (header n @ rest) =
    (if of_nat n > max_packet_length c
     then (header n @ rest, Inl (InvalidData, ''Too big packet''))
     else (rest, Inr (Some (of_nat n))))"
proof -
  let ?src = "header n @ rest"
  have tag: "head_tag (?src ! 0) = header_len n"
    using header_first [OF assms] by (simp add: nth_append header_len_def)
  have val: "drop_bit 2 (from_le_bytes (header n)) = (of_nat n :: usize)"
    using header_value_small(1) [OF assms]
    by (simp add: header_le from_to_le_bytes_take_bit)
  have len: "head_tag (?src ! 0) \<le> length ?src"
    by (simp add: tag)
  have "?src \<noteq> []" by simp
  from decode_head_le [OF this len] show ?thesis
    by (simp add: tag val Let_def)
qed

text \<open>Too short an input changes nothing; the header never promises more than 30 bits.\<close>

lemma decode_head_None_iff:
  "snd (decode_head c src) = Inr None \<longleftrightarrow> src = [] \<or> length src < head_tag (src ! 0)"
  by (simp add: decode_head_def Let_def)

lemma decode_head_None_src: "decode_head c src = (src', Inr None) \<Longrightarrow> src' = src"
  by (auto simp: decode_head_def Let_def split: if_splits)

lemma decode_head_Some:
  assumes "decode_head c src = (src', Inr (Some n))"
  shows "src \<noteq> []" "head_tag (src ! 0) \<le> length src"
    "src' = drop (head_tag (src ! 0)) src"
    "n = drop_bit 2 (from_le_bytes (take (head_tag (src ! 0)) src))"
    "n \<le> max_packet_length c"
proof -
  show ne: "src \<noteq> []" and le: "head_tag (src ! 0) \<le> length src"
    using assms decode_head_None_iff [of c src] by (auto simp: not_less)
  from assms show "src' = drop (head_tag (src ! 0)) src"
    "n = drop_bit 2 (from_le_bytes (take (head_tag (src ! 0)) src))"
    "n \<le> max_packet_length c"
    unfolding decode_head_le [OF ne le] by (auto simp: Let_def split: if_splits)
qed

lemma decode_head_append:
  assumes "snd (decode_head c src) \<noteq> Inr None"
  shows "decode_head c (src @ x) = map_prod (\<lambda>s. s @ x) id (decode_head c src)"
proof -
  from assms have ne: "src \<noteq> []" and le: "head_tag (src ! 0) \<le> length src"
    by (auto simp: decode_head_None_iff not_less)
  then have nth: "(src @ x) ! 0 = src ! 0" and le': "head_tag ((src @ x) ! 0) \<le> length (src @ x)"
    by (auto simp: nth_append)
  have "src @ x \<noteq> []" using ne by simp
  from decode_head_le [OF this le'] decode_head_le [OF ne le] nth le show ?thesis
    by (simp add: Let_def)
qed

section \<open>Decoding a growing buffer\<close>

lemma decode_payload_append:
  assumes "decode_payload c n src = (c', src', Inr (Some d))"
  shows "decode_payload c n (src @ x) = (c', src' @ x, Inr (Some d))"
  using assms by (auto simp: decode_payload_def decode_data_def split: if_splits)

lemma decode_payload_None:
  assumes "decode_payload c n src = (c', src', Inr None)"
  shows "c' = c" "src' = src"
  using assms by (auto simp: decode_payload_def decode_data_def split: if_splits)

lemma decode_raw_kept: "decode c src = (c', src', r) \<Longrightarrow> raw c' = raw c"
  by (auto simp: decode_def decode_payload_def decode_data_def
      split: DecodeState.splits if_splits prod.splits sum.splits option.splits)

text \<open>
  Bytes that arrive later never change what was decoded from the bytes before them, and a
  \<open>None\<close> answer loses nothing: decoding resumes from the recorded state.
\<close>

lemma decode_append_Some:
  assumes "\<not> raw c" "decode c src = (c', src', Inr (Some d))"
  shows "decode c (src @ x) = (c', src' @ x, Inr (Some d))"
proof (cases "state c")
  case Head
  with assms obtain s n where h: "decode_head c src = (s, Inr (Some n))"
    and p: "decode_payload (c\<lparr>state := Data n\<rparr>) n s = (c', src', Inr (Some d))"
    by (auto simp: decode_def split: prod.splits sum.splits option.splits)
  from h have "decode_head c (src @ x) = (s @ x, Inr (Some n))"
    using decode_head_append [of c src x] by simp
  with Head assms(1) decode_payload_append [OF p] show ?thesis
    by (simp add: decode_def)
next
  case (Data n)
  with assms show ?thesis
    by (simp add: decode_def decode_payload_append)
qed

lemma decode_append_None:
  assumes "\<not> raw c" "decode c src = (c', src', Inr None)"
  shows "decode c (src @ x) = decode c' (src' @ x)"
proof (cases "state c")
  case Head
  show ?thesis
  proof (cases "snd (decode_head c src) = Inr None")
    case True
    then obtain s where "decode_head c src = (s, Inr None)" by (metis prod.collapse)
    with decode_head_None_src [OF this] Head assms have "c' = c" "src' = src"
      by (auto simp: decode_def)
    then show ?thesis by simp
  next
    case False
    with Head assms obtain s n where h: "decode_head c src = (s, Inr (Some n))"
      and p: "decode_payload (c\<lparr>state := Data n\<rparr>) n s = (c', src', Inr None)"
      by (auto simp: decode_def split: prod.splits sum.splits option.splits)
    from h have "decode_head c (src @ x) = (s @ x, Inr (Some n))"
      using decode_head_append [of c src x] by simp
    with Head assms(1) decode_payload_None [OF p] show ?thesis
      by (simp add: decode_def)
  qed
next
  case (Data n)
  with assms decode_payload_None [of c n src] show ?thesis
    by (auto simp: decode_def)
qed

lemma decode_append_Err:
  assumes "\<not> raw c" "decode c src = (c', src', Inl e)"
  shows "decode c (src @ x) = (c', src' @ x, Inl e)"
proof (cases "state c")
  case Head
  with assms have h: "decode_head c src = (src', Inl e)" and "c' = c"
    by (auto simp: decode_def decode_payload_def decode_data_def
        split: prod.splits sum.splits option.splits if_splits)
  then have "decode_head c (src @ x) = (src' @ x, Inl e)"
    using decode_head_append [of c src x] by simp
  with Head assms(1) \<open>c' = c\<close> show ?thesis by (simp add: decode_def)
next
  case (Data n)
  with assms show ?thesis
    by (auto simp: decode_def decode_payload_def decode_data_def split: if_splits)
qed

text \<open>A successful \<open>decode\<close> consumes input or leaves the \<open>Data\<close> state.\<close>

definition decode_measure :: "BytesCodec \<Rightarrow> bytes \<Rightarrow> nat" where
  "decode_measure c src = 2 * length src + (case state c of Head \<Rightarrow> 0 | Data _ \<Rightarrow> 1)"

lemma decode_measure_decreases:
  assumes "decode c src = (c', src', Inr (Some d))"
  shows "decode_measure c' src' < decode_measure c src"
proof (cases "raw c")
  case True
  with assms show ?thesis
    by (auto simp: decode_def decode_measure_def split: if_splits)
next
  case False
  show ?thesis
  proof (cases "state c")
    case Head
    with assms False obtain s n where h: "decode_head c src = (s, Inr (Some n))"
      and p: "decode_payload (c\<lparr>state := Data n\<rparr>) n s = (c', src', Inr (Some d))"
      by (auto simp: decode_def split: prod.splits sum.splits option.splits)
    from decode_head_Some [OF h] have "length s < length src"
      by (auto simp: head_tag_eq)
    with p Head show ?thesis
      by (auto simp: decode_payload_def decode_data_def decode_measure_def split: if_splits)
  next
    case (Data n)
    with assms False show ?thesis
      by (auto simp: decode_def decode_payload_def decode_data_def decode_measure_def split: if_splits)
  qed
qed

text \<open>
  The reader's loop: \<open>tokio_util::codec::Framed\<close> calls \<open>decode\<close> on its buffer until the
  answer is \<open>None\<close> or an error, then appends the next chunk read from the socket.
\<close>

function drain :: "BytesCodec \<Rightarrow> bytes \<Rightarrow> BytesCodec \<times> bytes \<times> bytes list \<times> io_error option" where
  "drain c src =
     (case decode c src of
        (c', src', Inl e) \<Rightarrow> (c', src', [], Some e)
      | (c', src', Inr None) \<Rightarrow> (c', src', [], None)
      | (c', src', Inr (Some d)) \<Rightarrow>
          (case drain c' src' of (c'', src'', ds, e) \<Rightarrow> (c'', src'', d # ds, e)))"
  by pat_completeness auto
termination
  by (relation "measure (\<lambda>(c, src). decode_measure c src)") (auto dest: decode_measure_decreases sym)

declare drain.simps [simp del]

fun feed :: "BytesCodec \<Rightarrow> bytes \<Rightarrow> bytes list \<Rightarrow> BytesCodec \<times> bytes \<times> bytes list \<times> io_error option" where
  "feed c buf [] = (c, buf, [], None)"
| "feed c buf (x # xs) =
     (case drain c (buf @ x) of
        (c', buf', ds, Some e) \<Rightarrow> (c', buf', ds, Some e)
      | (c', buf', ds, None) \<Rightarrow>
          (case feed c' buf' xs of (c'', buf'', ds', e) \<Rightarrow> (c'', buf'', ds @ ds', e)))"

lemma drain_None:
  "decode c src = (c', src', Inr None) \<Longrightarrow> drain c src = (c', src', [], None)"
  by (subst drain.simps) simp

lemma drain_Err:
  "decode c src = (c', src', Inl e) \<Longrightarrow> drain c src = (c', src', [], Some e)"
  by (subst drain.simps) simp

lemma drain_Some:
  "decode c src = (c', src', Inr (Some d)) \<Longrightarrow>
   drain c src = (case drain c' src' of (c'', src'', ds, e) \<Rightarrow> (c'', src'', d # ds, e))"
  by (subst drain.simps) simp

lemma drain_cong: "decode c s = decode c' s' \<Longrightarrow> drain c s = drain c' s'"
  by (subst (1 2) drain.simps) simp

lemma drain_raw_kept: "drain c src = (c', src', ds, e) \<Longrightarrow> raw c' = raw c"
proof (induction c src arbitrary: c' src' ds e rule: drain.induct)
  case (1 c src)
  obtain c1 s1 r where d: "decode c src = (c1, s1, r)" by (cases "decode c src")
  have r1: "raw c1 = raw c" by (rule decode_raw_kept [OF d])
  consider x where "r = Inl x" | "r = Inr None" | p where "r = Inr (Some p)"
    by (metis obj_sumE option.exhaust)
  then show ?case
  proof cases
    case 1
    with d r1 "1.prems" show ?thesis by (simp add: drain_Err)
  next
    case 2
    with d r1 "1.prems" show ?thesis by (simp add: drain_None)
  next
    case 3
    with d "1.prems" obtain ds1 where "drain c1 s1 = (c', src', ds1, e)"
      by (auto simp: drain_Some split: prod.splits)
    with "1.IH" [OF d [symmetric] refl 3 refl] r1 show ?thesis by simp
  qed
qed

lemma drain_append:
  assumes "\<not> raw c" "drain c src = (c', src', ds, None)"
  shows "drain c (src @ x) = (case drain c' (src' @ x) of (c'', s'', ds', e) \<Rightarrow> (c'', s'', ds @ ds', e))"
  using assms
proof (induction c src arbitrary: c' src' ds rule: drain.induct)
  case (1 c src)
  obtain c1 s1 r where d: "decode c src = (c1, s1, r)" by (cases "decode c src")
  consider e where "r = Inl e" | "r = Inr None" | p where "r = Inr (Some p)"
    by (metis obj_sumE option.exhaust)
  then show ?case
  proof cases
    case 1
    with d "1.prems"(2) show ?thesis by (simp add: drain_Err)
  next
    case 2
    with d "1.prems"(2) have "c' = c1" "src' = s1" "ds = []" by (simp_all add: drain_None)
    moreover have "drain c (src @ x) = drain c1 (s1 @ x)"
      using decode_append_None [of c src c1 s1 x] 2 d "1.prems"(1)
      by (intro drain_cong) simp
    ultimately show ?thesis by (simp split: prod.splits)
  next
    case 3
    with d "1.prems"(2) obtain ds1 where rec: "drain c1 s1 = (c', src', ds1, None)" and ds: "ds = p # ds1"
      by (auto simp: drain_Some split: prod.splits)
    have nr: "\<not> raw c1" using decode_raw_kept [OF d] "1.prems"(1) by simp
    from "1.IH" [OF d [symmetric] refl 3 refl nr rec]
    have "drain c1 (s1 @ x) = (case drain c' (src' @ x) of (c'', s'', ds', e) \<Rightarrow> (c'', s'', ds1 @ ds', e))" .
    moreover have "decode c (src @ x) = (c1, s1 @ x, Inr (Some p))"
      using decode_append_Some "1.prems"(1) d 3 by blast
    ultimately show ?thesis
      by (simp add: drain_Some ds split: prod.splits)
  qed
qed

lemma drain_append_Err:
  assumes "\<not> raw c" "drain c src = (c', src', ds, Some e)"
  shows "drain c (src @ x) = (c', src' @ x, ds, Some e)"
  using assms
proof (induction c src arbitrary: c' src' ds rule: drain.induct)
  case (1 c src)
  obtain c1 s1 r where d: "decode c src = (c1, s1, r)" by (cases "decode c src")
  consider y where "r = Inl y" | "r = Inr None" | p where "r = Inr (Some p)"
    by (metis obj_sumE option.exhaust)
  then show ?case
  proof cases
    case 1
    with d "1.prems" show ?thesis
      by (simp add: drain_Err decode_append_Err)
  next
    case 2
    with d "1.prems"(2) show ?thesis by (simp add: drain_None)
  next
    case 3
    with d "1.prems"(2) obtain ds1 where rec: "drain c1 s1 = (c', src', ds1, Some e)" and ds: "ds = p # ds1"
      by (auto simp: drain_Some split: prod.splits)
    have nr: "\<not> raw c1" using decode_raw_kept [OF d] "1.prems"(1) by simp
    from "1.IH" [OF d [symmetric] refl 3 refl nr rec]
    have "drain c1 (s1 @ x) = (c', src' @ x, ds1, Some e)" .
    with decode_append_Some [of c src c1 s1 p x] "1.prems"(1) d 3 show ?thesis
      by (simp add: drain_Some ds)
  qed
qed

text \<open>Cutting the input into chunks does not change the outcome.\<close>

abbreviation drained :: "BytesCodec \<Rightarrow> bytes \<Rightarrow> bool" where
  "drained c buf \<equiv> drain c buf = (c, buf, [], None)"

lemma drain_drained:
  assumes "\<not> raw c" "drain c src = (c', src', ds, None)"
  shows "drained c' src'"
  using drain_append [OF assms, of "[]"] assms(2) by (auto split: prod.splits)

lemma feed_drain:
  assumes "\<not> raw c" "drained c buf" "drain c (buf @ concat chunks) = (c', buf', ds, None)"
  shows "feed c buf chunks = (c', buf', ds, None)"
  using assms
proof (induction chunks arbitrary: c buf ds)
  case Nil
  then show ?case by simp
next
  case (Cons x xs)
  obtain c1 b1 ds1 e1 where d: "drain c (buf @ x) = (c1, b1, ds1, e1)"
    by (cases "drain c (buf @ x)") auto
  have "e1 = None"
  proof (rule ccontr)
    assume "e1 \<noteq> None"
    then obtain e where "e1 = Some e" by auto
    with drain_append_Err [OF Cons.prems(1), of "buf @ x" c1 b1 ds1 e "concat xs"] d Cons.prems(3)
    show False by simp
  qed
  note d = d [unfolded this]
  have nr: "\<not> raw c1" using drain_raw_kept [OF d] Cons.prems(1) by simp
  from drain_append [OF Cons.prems(1) d, of "concat xs"] Cons.prems(3)
  obtain ds2 where rest: "drain c1 (b1 @ concat xs) = (c', buf', ds2, None)" and "ds = ds1 @ ds2"
    by (auto split: prod.splits)
  with Cons.IH [OF nr drain_drained [OF Cons.prems(1) d] rest] d show ?case by simp
qed

section \<open>Delivery\<close>

definition fits :: "BytesCodec \<Rightarrow> bytes \<Rightarrow> bool" where
  "fits c m \<longleftrightarrow> length m \<le> 0x3FFFFFFF \<and> of_nat (length m) \<le> max_packet_length c"

lemma decode_packet:
  assumes "\<not> raw c" "state c = Head" "fits c m"
  shows "decode c (header (length m) @ m @ rest) = (c, rest, Inr (Some m))"
proof -
  have "unat (of_nat (length m) :: usize) = length m"
    using assms(3) by (intro unat_of_nat_small) (simp add: fits_def)
  moreover have "decode_head c (header (length m) @ m @ rest) = (m @ rest, Inr (Some (of_nat (length m))))"
    using assms(3) by (simp add: decode_head_header fits_def not_less)
  ultimately show ?thesis
    using assms by (simp add: decode_def decode_payload_def decode_data_def)
qed

lemma decode_Head_Nil: "\<lbrakk>\<not> raw c; state c = Head\<rbrakk> \<Longrightarrow> decode c [] = (c, [], Inr None)"
  by (simp add: decode_def decode_head_def)

lemma drain_packets:
  assumes "\<not> raw c" "state c = Head" "\<forall>m\<in>set ms. fits c m"
  shows "drain c (concat (map (\<lambda>m. header (length m) @ m) ms)) = (c, [], ms, None)"
  using assms(3)
proof (induction ms)
  case Nil
  then show ?case using decode_Head_Nil [OF assms(1,2)] by (simp add: drain_None)
next
  case (Cons m ms)
  then show ?case
    using decode_packet [OF assms(1,2), of m] by (simp add: drain_Some)
qed

lemma feed_packets:
  assumes "\<not> raw c" "state c = Head" "\<forall>m\<in>set ms. fits c m"
    and "concat chunks = concat (map (\<lambda>m. header (length m) @ m) ms)"
  shows "feed c [] chunks = (c, [], ms, None)"
proof (rule feed_drain [OF assms(1)])
  show "drained c []"
    using decode_Head_Nil [OF assms(1,2)] by (simp add: drain_None)
  show "drain c ([] @ concat chunks) = (c, [], ms, None)"
    using drain_packets [OF assms(1-3)] assms(4) by simp
qed

text \<open>The bytes \<open>encode\<close> appends for a message, and the messages a fresh decoder reads.\<close>

definition pack :: "BytesCodec \<Rightarrow> bytes \<Rightarrow> bytes" where
  "pack c m = fst (encode c m [])"

definition unpack :: "BytesCodec \<Rightarrow> bytes list \<Rightarrow> bytes list" where
  "unpack c chunks = (case feed c [] chunks of (_, _, ds, _) \<Rightarrow> ds)"

lemma pack_header: "\<lbrakk>\<not> raw c; fits c m\<rbrakk> \<Longrightarrow> pack c m = header (length m) @ m"
  by (simp add: pack_def encode_header fits_def)

lemma concat_map_pack:
  "\<lbrakk>\<not> raw c; \<forall>m\<in>set ms. fits c m\<rbrakk> \<Longrightarrow>
   concat (map (pack c) ms) = concat (map (\<lambda>m. header (length m) @ m) ms)"
  by (induction ms) (simp_all add: pack_header)

interpretation codec: packet_transport "pack BytesCodec_new" "fits BytesCodec_new" "unpack BytesCodec_new"
proof
  fix ms chunks
  assume fit: "\<forall>m\<in>set ms. fits BytesCodec_new m"
    and wire: "concat chunks = concat (map (pack BytesCodec_new) ms)"
  have "feed BytesCodec_new [] chunks = (BytesCodec_new, [], ms, None)"
    by (rule feed_packets) (use fit wire concat_map_pack in \<open>simp_all add: BytesCodec_new_def\<close>)
  then show "unpack BytesCodec_new chunks = ms"
    by (simp add: unpack_def)
qed

lemma encode_append: "encode c m buf = (buf @ pack c m, Inr ())" if "raw c \<or> length m \<le> 0x3FFFFFFF"
  using that by (auto simp: pack_def encode_def Let_def)

section \<open>Properties\<close>

text \<open>
  C6. Framing round trip under arbitrary fragmentation: if the messages \<open>ms\<close> are encoded one
  after the other into a buffer and the buffer's bytes reach the decoder in chunks cut at any
  positions, then the decoder returns exactly \<open>ms\<close>, in order, with no error, is back in its
  header state and leaves no byte behind.
\<close>

theorem framing_roundtrip:
  assumes "\<not> raw c" "state c = Head" "\<forall>m\<in>set ms. fits c m"
    and "concat chunks = foldl (\<lambda>buf m. fst (encode c m buf)) [] ms"
  shows "feed c [] chunks = (c, [], ms, None)"
proof -
  have "foldl (\<lambda>buf m. fst (encode c m buf)) b ms = b @ concat (map (pack c) ms)" for b
    using assms(3) by (induction ms arbitrary: b) (simp_all add: encode_append fits_def)
  with assms show ?thesis
    by (intro feed_packets) (simp_all add: concat_map_pack)
qed

theorem framing_roundtrip_witness:
  "feed BytesCodec_new [] [[8, 1], [], [2, 4], [9]] = (BytesCodec_new, [], [[1, 2], [9]], None)"
proof (rule framing_roundtrip)
  show "concat [[8, 1], [], [2, 4], [9]] = foldl (\<lambda>buf m. fst (encode BytesCodec_new m buf)) [] [[1, 2], [9]]"
    by (simp add: encode_def BytesCodec_new_def put_u8_def)
qed (simp_all add: BytesCodec_new_def fits_def)

text \<open>
  C25. Safety of the decoder on hostile input: whatever bytes arrive, a returned packet is an
  exact slice of the input after a header of at most four bytes, never exceeds the configured
  maximum nor 30 bits of length, and the state invariant (a pending length is within the same
  bounds) is kept; an error is the \<open>Too big packet\<close> error and leaves codec and buffer
  untouched.
\<close>

definition codec_ok :: "BytesCodec \<Rightarrow> bool" where
  "codec_ok c \<longleftrightarrow> (case state c of Head \<Rightarrow> True | Data n \<Rightarrow> n \<le> max_packet_length c \<and> unat n < 2 ^ 30)"

lemma decode_head_bound:
  assumes "decode_head c src = (src', Inr (Some n))"
  shows "unat n < 2 ^ 30"
proof -
  let ?bs = "take (head_tag (src ! 0)) src"
  have "8 * length ?bs \<le> 32"
    using head_tag_range [of "src ! 0"] by auto
  then have "(2::nat) ^ (8 * length ?bs) \<le> 2 ^ 32"
    by (rule power_increasing) simp
  then have "unat (from_le_bytes ?bs :: usize) < 2 ^ 32"
    using unat_from_le_bytes_less [of ?bs] by (rule order_less_le_trans [rotated])
  then show ?thesis
    unfolding decode_head_Some(4) [OF assms] unsigned_drop_bit_eq
    by (simp add: drop_bit_eq_div take_bit_nat_eq_self)
qed

lemma decode_Some_Data:
  assumes "\<not> raw c" "state c = Data n" "decode c src = (c', src', Inr (Some d))"
  shows "length d = unat n" "src = d @ src'" "c' = c\<lparr>state := Head\<rparr>"
  using assms by (auto simp: decode_def decode_payload_def decode_data_def split: if_splits)

lemma decode_Some_Head:
  assumes "\<not> raw c" "state c = Head" "decode c src = (c', src', Inr (Some d))"
  obtains n h where "decode_head c src = (d @ src', Inr (Some n))" "length d = unat n"
    "src = h @ d @ src'" "length h \<le> 4" "c' = c"
proof -
  from assms obtain s n where h: "decode_head c src = (s, Inr (Some n))"
    and p: "decode_payload (c\<lparr>state := Data n\<rparr>) n s = (c', src', Inr (Some d))"
    by (auto simp: decode_def split: prod.splits sum.splits option.splits)
  let ?h = "take (head_tag (src ! 0)) src"
  have "s = d @ src'" "length d = unat n" "c' = c"
    using p assms(2) by (auto simp: decode_payload_def decode_data_def split: if_splits)
  moreover have "src = ?h @ s" "length ?h \<le> 4"
    using decode_head_Some [OF h] head_tag_range [of "src ! 0"] by auto
  ultimately show thesis
    using that [of n ?h] h by simp
qed

lemma decode_not_Some:
  assumes "\<not> raw c" "codec_ok c" "decode c src = (c', src', r)" "\<forall>d. r \<noteq> Inr (Some d)"
  shows "codec_ok c'" "\<forall>e. r = Inl e \<longrightarrow> c' = c \<and> src' = src \<and> e = (InvalidData, ''Too big packet'')"
proof -
  have "codec_ok c' \<and> (\<forall>e. r = Inl e \<longrightarrow> c' = c \<and> src' = src \<and> e = (InvalidData, ''Too big packet''))"
  proof (cases "state c")
    case (Data n)
    with assms show ?thesis
      by (auto simp: decode_def decode_payload_def decode_data_def split: if_splits)
  next
    case Head
    obtain s q where h: "decode_head c src = (s, q)" by (cases "decode_head c src")
    show ?thesis
    proof (cases "\<exists>n. q = Inr (Some n)")
      case True
      then obtain n where "q = Inr (Some n)" ..
      with decode_head_bound [of c src s n] decode_head_Some(5) [of c src s n] h Head assms show ?thesis
        by (auto simp: decode_def decode_payload_def decode_data_def codec_ok_def split: if_splits)
    next
      case False
      with h Head assms show ?thesis
        by (auto simp: decode_def decode_head_def Let_def codec_ok_def
            split: sum.splits option.splits if_splits)
    qed
  qed
  then show "codec_ok c'" "\<forall>e. r = Inl e \<longrightarrow> c' = c \<and> src' = src \<and> e = (InvalidData, ''Too big packet'')"
    by auto
qed



text \<open>
  C29. An announced length over the maximum is refused as soon as the header is complete, before
  any payload byte is buffered or consumed, and the refusal repeats on every later call.
\<close>

theorem oversize_refused_early:
  assumes "\<not> raw c" "state c = Head" "length m \<le> 0x3FFFFFFF"
    and "max_packet_length c < of_nat (length m)" "header_len (length m) \<le> k"
  shows "decode c (take k (fst (encode c m []))) =
    (c, take k (fst (encode c m [])), Inl (InvalidData, ''Too big packet''))"
proof -
  have "fst (encode c m []) = header (length m) @ m"
    using assms(1,3) by (simp add: encode_header)
  then have "take k (fst (encode c m [])) = header (length m) @ take (k - header_len (length m)) m"
    using assms(5) by simp
  with assms show ?thesis
    by (simp add: decode_def decode_head_header)
qed

theorem oversize_refused_early_witness:
  "decode (set_max_packet_length 1 BytesCodec_new) [8] =
     (set_max_packet_length 1 BytesCodec_new, [8], Inl (InvalidData, ''Too big packet''))"
proof -
  let ?c = "set_max_packet_length 1 BytesCodec_new"
  have "decode ?c (take 1 (fst (encode ?c [7, 7] []))) =
      (?c, take 1 (fst (encode ?c [7, 7] [])), Inl (InvalidData, ''Too big packet''))"
    by (rule oversize_refused_early)
       (simp_all add: set_max_packet_length_def BytesCodec_new_def header_len_def)
  moreover have "take 1 (fst (encode ?c [7, 7] [])) = [8]"
    by (simp add: encode_def set_max_packet_length_def BytesCodec_new_def put_u8_def)
  ultimately show ?thesis by simp
qed

end
