(* ===== verification/Rust_Strings.thy ===== *)
theory Rust_Strings
  imports Rust_Prelude
begin

text \<open>
  The string operations of the Rust standard library that the modelled code uses: decimal
  formatting and \<open>str::parse\<close> of integers, \<open>str::split\<close> on a character or a pattern,
  \<open>starts_with\<close>, \<open>contains\<close>, \<open>replace\<close>.  Strings are lists of characters; the
  modelled code only inspects ASCII characters.
\<close>

section \<open>Decimal formatting and parsing\<close>

definition digit_char :: "nat \<Rightarrow> char" where
  "digit_char d = char_of (48 + d)"

definition is_digit :: "char \<Rightarrow> bool" where
  "is_digit c \<longleftrightarrow> 48 \<le> (of_char c :: nat) \<and> (of_char c :: nat) \<le> 57"

definition digit_value :: "char \<Rightarrow> nat" where
  "digit_value c = of_char c - 48"

fun nat_to_string :: "nat \<Rightarrow> string" where
  "nat_to_string n =
     (if n < 10 then [digit_char n] else nat_to_string (n div 10) @ [digit_char (n mod 10)])"

declare nat_to_string.simps [simp del]

definition int_to_string :: "int \<Rightarrow> string" where
  "int_to_string i = (if i < 0 then CHR ''-'' # nat_to_string (nat (- i)) else nat_to_string (nat i))"

definition digits_value :: "string \<Rightarrow> nat" where
  "digits_value s = foldl (\<lambda>n c. 10 * n + digit_value c) 0 s"

text \<open>
  \<open>parse\<close> of a signed integer type with the given range: an optional sign, at least one
  digit, nothing else, and the value in range; anything else is an error.
\<close>

definition parse_int :: "int \<Rightarrow> int \<Rightarrow> string \<Rightarrow> int option" where
  "parse_int lo hi s =
     (let neg = (case s of c # _ \<Rightarrow> c = CHR ''-'' | [] \<Rightarrow> False);
          ds = (case s of c # r \<Rightarrow> if c = CHR ''-'' \<or> c = CHR ''+'' then r else s | [] \<Rightarrow> []);
          v = (if neg then - int (digits_value ds) else int (digits_value ds))
      in if ds \<noteq> [] \<and> list_all is_digit ds \<and> lo \<le> v \<and> v \<le> hi then Some v else None)"

definition parse_i32 :: "string \<Rightarrow> int option" where
  "parse_i32 = parse_int (- (2 ^ 31)) (2 ^ 31 - 1)"

definition parse_i64 :: "string \<Rightarrow> int option" where
  "parse_i64 = parse_int (- (2 ^ 63)) (2 ^ 63 - 1)"

lemma digit_char_simps [simp]:
  assumes "d < 10"
  shows "is_digit (digit_char d)" "digit_value (digit_char d) = d"
  using assms by (simp_all add: is_digit_def digit_char_def digit_value_def)

lemma digit_neq:
  assumes "is_digit c"
  shows "c \<noteq> CHR ''-''" "c \<noteq> CHR ''+''" "c \<noteq> CHR '':''" "c \<noteq> CHR ''.''" "c \<noteq> CHR '']''" "c \<noteq> CHR ''[''"
  using assms by (auto simp: is_digit_def)

lemma nat_to_string_digits: "list_all is_digit (nat_to_string n)"
proof (induction n rule: nat_to_string.induct)
  case (1 n)
  then show ?case by (subst nat_to_string.simps) simp
qed

lemma nat_to_string_chars:
  assumes "\<not> is_digit c"
  shows "c \<notin> set (nat_to_string n)"
  using assms nat_to_string_digits [of n] by (auto simp: list_all_iff)

lemma nat_to_string_nonempty [simp]: "nat_to_string n \<noteq> []"
  by (subst nat_to_string.simps) simp

lemma digits_value_snoc [simp]: "digits_value (s @ [c]) = 10 * digits_value s + digit_value c"
  by (simp add: digits_value_def)

lemma digits_value_nat_to_string [simp]: "digits_value (nat_to_string n) = n"
proof (induction n rule: nat_to_string.induct)
  case (1 n)
  show ?case
  proof (cases "n < 10")
    case True
    then show ?thesis by (subst nat_to_string.simps) (simp add: digits_value_def)
  next
    case False
    with 1 show ?thesis by (subst nat_to_string.simps) simp
  qed
qed

lemma parse_int_nat_to_string:
  assumes "lo \<le> int n" "int n \<le> hi"
  shows "parse_int lo hi (nat_to_string n) = Some (int n)"
proof -
  obtain c r where s: "nat_to_string n = c # r"
    by (cases "nat_to_string n") auto
  then have "is_digit c" using nat_to_string_digits [of n] by simp
  with digit_neq(1,2) [OF this] s nat_to_string_digits [of n] digits_value_nat_to_string [of n] assms
  show ?thesis by (simp add: parse_int_def Let_def)
qed

lemma parse_int_range: "parse_int lo hi s = Some v \<Longrightarrow> lo \<le> v \<and> v \<le> hi"
  by (auto simp: parse_int_def Let_def split: if_splits)

text \<open>Formatting a number and parsing it back, for every value of the type.\<close>

lemma parse_int_to_string:
  assumes "lo \<le> i" "i \<le> hi"
  shows "parse_int lo hi (int_to_string i) = Some i"
proof (cases "i < 0")
  case True
  then show ?thesis
    using assms nat_to_string_digits [of "nat (- i)"] digits_value_nat_to_string [of "nat (- i)"]
    by (simp add: int_to_string_def parse_int_def Let_def)
next
  case False
  then show ?thesis
    using assms parse_int_nat_to_string [of lo "nat i" hi] by (simp add: int_to_string_def)
qed

section \<open>Splitting and searching\<close>

text \<open>\<open>s.split(c)\<close>: the pieces between the separators, one more than there are separators.\<close>

fun split_char :: "char \<Rightarrow> string \<Rightarrow> string list" where
  "split_char c [] = [[]]"
| "split_char c (x # xs) =
     (if x = c then [] # split_char c xs
      else (case split_char c xs of p # ps \<Rightarrow> (x # p) # ps | [] \<Rightarrow> [[x]]))"

definition starts_with :: "string \<Rightarrow> string \<Rightarrow> bool" where
  "starts_with s p \<longleftrightarrow> take (length p) s = p"

text \<open>\<open>s.split(p)\<close> for a non-empty pattern \<open>p\<close>: leftmost, non-overlapping matches.\<close>

function split_str :: "string \<Rightarrow> string \<Rightarrow> string list" where
  "split_str p s =
     (if p = [] then [s]
      else case s of
        [] \<Rightarrow> [[]]
      | x # xs \<Rightarrow>
          if starts_with s p then [] # split_str p (drop (length p) s)
          else (case split_str p xs of q # qs \<Rightarrow> (x # q) # qs | [] \<Rightarrow> [[x]]))"
  by pat_completeness auto
termination
  by (relation "measure (\<lambda>(p, s). length s)") auto

declare split_str.simps [simp del]

lemma split_char_nonempty [simp]: "split_char c s \<noteq> []"
  by (induction s) (auto split: list.splits)

lemma split_char_absent: "c \<notin> set s \<Longrightarrow> split_char c s = [s]"
  by (induction s) auto

lemma split_char_one:
  "\<lbrakk>c \<notin> set a; c \<notin> set b\<rbrakk> \<Longrightarrow> split_char c (a @ c # b) = [a, b]"
  by (induction a) (auto simp: split_char_absent)

lemma split_char_append:
  "c \<notin> set a \<Longrightarrow> split_char c (a @ c # b) = a # split_char c b"
  by (induction a) auto

text \<open>Splitting is inverse to joining with the separator.\<close>

fun join_char :: "char \<Rightarrow> string list \<Rightarrow> string" where
  "join_char c [] = []"
| "join_char c [p] = p"
| "join_char c (p # ps) = p @ c # join_char c ps"

lemma join_split_char: "join_char c (split_char c s) = s"
proof (induction s)
  case (Cons x xs)
  obtain p ps where "split_char c xs = p # ps" by (cases "split_char c xs") auto
  with Cons show ?case by (cases ps) auto
qed simp

lemma split_char_pieces: "p \<in> set (split_char c s) \<Longrightarrow> c \<notin> set p"
proof (induction s arbitrary: p)
  case (Cons x xs)
  obtain q qs where "split_char c xs = q # qs" by (cases "split_char c xs") auto
  with Cons show ?case by (auto split: if_splits)
qed simp

lemma split_str_Nil [simp]: "p \<noteq> [] \<Longrightarrow> split_str p [] = [[]]"
  by (subst split_str.simps) simp

lemma split_str_absent:
  assumes "c \<in> set p" "c \<notin> set s"
  shows "split_str p s = [s]"
  using assms
proof (induction s)
  case Nil
  then show ?case by (cases p) auto
next
  case (Cons x xs)
  have "\<not> starts_with (x # xs) p"
    using Cons.prems by (metis in_set_takeD starts_with_def)
  with Cons show ?case by (subst split_str.simps) auto
qed

lemma split_str_one:
  assumes "hd p \<notin> set a" "c \<in> set p" "c \<notin> set b" "p \<noteq> []"
  shows "split_str p (a @ p @ b) = [a, b]"
  using assms(1)
proof (induction a)
  case Nil
  obtain x xs where "p @ b = x # xs" using assms(4) by (cases p) auto
  then show ?case
    using split_str_absent [OF assms(2,3)] assms(4)
    by (subst split_str.simps) (simp add: starts_with_def split: list.splits, metis append_eq_conv_conj)
next
  case (Cons x xs)
  have "\<not> starts_with (x # xs @ p @ b) p"
    using Cons.prems assms(4) by (cases p) (auto simp: starts_with_def)
  with Cons assms(4) show ?case by (subst split_str.simps) simp
qed

fun join_str :: "string \<Rightarrow> string list \<Rightarrow> string" where
  "join_str c [] = []"
| "join_str c [p] = p"
| "join_str c (p # ps) = p @ c @ join_str c ps"

lemma split_str_nonempty: "split_str p s \<noteq> []"
  by (subst split_str.simps) (auto split: list.splits)

lemma join_split_str: "join_str p (split_str p s) = s"
proof (induction p s rule: split_str.induct)
  case (1 p s)
  show ?case
  proof (cases "p = [] \<or> s = []")
    case True
    then show ?thesis by (subst split_str.simps) auto
  next
    case False
    then obtain x xs where s: "s = x # xs" by (cases s) auto
    show ?thesis
    proof (cases "starts_with s p")
      case True
      obtain q qs where q: "split_str p (drop (length p) s) = q # qs"
        by (cases "split_str p (drop (length p) s)") (use split_str_nonempty in blast)+
      with "1.IH"(1) False s True have "join_str p (q # qs) = drop (length p) s" by auto
      with q s False True show ?thesis
        by (subst split_str.simps) (auto simp: starts_with_def, metis append_take_drop_id)
    next
      case nsw: False
      obtain q qs where q: "split_str p xs = q # qs"
        by (cases "split_str p xs") (use split_str_nonempty in blast)+
      with "1.IH"(2) False s nsw have "join_str p (q # qs) = xs" by auto
      with q s False nsw show ?thesis
        by (subst split_str.simps) (cases qs; simp)
    qed
  qed
qed

end
