(* ===== verification/Secure_Stream.thy ===== *)
theory Secure_Stream
  imports Bytes_Codec Rust_Strings
begin

text \<open>
  The encrypted message stream of \<open>libs/hbb_common/src/tcp.rs\<close>: \<open>Encrypt\<close> numbers the
  messages of each direction and seals them with \<open>secretbox\<close>, \<open>FramedStream\<close> frames
  what it sends with the codec of \<open>Bytes_Codec\<close>.  The primitives \<open>seal\<close>, \<open>open\<close> of
  \<open>sodiumoxide\<close> are parameters; what the code relies on is stated where it is needed:
  opening a sealed box with the same nonce and key gives the plaintext back, and a sealed
  box is at least as long as its authenticator.
\<close>

section \<open>Keys, nonces and sequence numbers\<close>

abbreviation "NONCEBYTES \<equiv> (24 :: nat)"
abbreviation "KEYBYTES \<equiv> (32 :: nat)"
abbreviation "PUBLICKEYBYTES \<equiv> (32 :: nat)"
abbreviation "BOX_NONCEBYTES \<equiv> (24 :: nat)"

type_synonym key = bytes
type_synonym nonce = bytes
type_synonym seal_fn = "bytes \<Rightarrow> nonce \<Rightarrow> key \<Rightarrow> bytes"
type_synonym open_fn = "bytes \<Rightarrow> nonce \<Rightarrow> key \<Rightarrow> bytes option"

record Encrypt =
  enc_key :: key
  enc_seq :: u64
  dec_seq :: u64

definition Encrypt_new :: "key \<Rightarrow> Encrypt" where
  "Encrypt_new k = \<lparr>enc_key = k, enc_seq = 0, dec_seq = 0\<rparr>"

definition get_nonce :: "u64 \<Rightarrow> nonce" where
  "get_nonce seqnum = to_le_bytes 8 seqnum @ drop 8 (replicate NONCEBYTES 0)"

definition enc :: "seal_fn \<Rightarrow> Encrypt \<Rightarrow> bytes \<Rightarrow> Encrypt \<times> bytes" where
  "enc seal e data =
     (let e' = e\<lparr>enc_seq := enc_seq e + 1\<rparr>;
          nonce = get_nonce (enc_seq e')
      in (e', seal data nonce (enc_key e')))"

definition dec :: "open_fn \<Rightarrow> Encrypt \<Rightarrow> bytes \<Rightarrow> Encrypt \<times> (io_error + bytes)" where
  "dec sopen e bytes =
     (if length bytes \<le> 1 then (e, Inr bytes)
      else
        let e' = e\<lparr>dec_seq := dec_seq e + 1\<rparr>;
            nonce = get_nonce (dec_seq e')
        in case sopen bytes nonce (enc_key e') of
             Some res \<Rightarrow> (e', Inr res)
           | None \<Rightarrow> (e', Inl (Other, ''decryption error'')))"

text \<open>
  The handshake: \<open>box_open\<close> is \<open>sodiumoxide::crypto::box_::open\<close>, given the peer's public
  key and our secret key.
\<close>

definition Encrypt_decode ::
    "(bytes \<Rightarrow> nonce \<Rightarrow> bytes \<Rightarrow> 'sk \<Rightarrow> bytes option) \<Rightarrow> bytes \<Rightarrow> bytes \<Rightarrow> 'sk \<Rightarrow> string + key" where
  "Encrypt_decode box_open symmetric_data their_pk_b our_sk_b =
     (if length their_pk_b \<noteq> PUBLICKEYBYTES then
        Inl (''Handshake failed: pk length '' @ nat_to_string (length their_pk_b))
      else
        let nonce = replicate BOX_NONCEBYTES 0 in
        case box_open symmetric_data nonce their_pk_b our_sk_b of
          None \<Rightarrow> Inl ''Handshake failed: box decryption failure''
        | Some symmetric_key \<Rightarrow>
            if length symmetric_key \<noteq> KEYBYTES then
              Inl ''Handshake failed: invalid secret key length from peer''
            else Inr symmetric_key)"

section \<open>The framed stream\<close>

text \<open>
  The socket and its address are outside the model; the stream's state is its codec, its
  encryption state and the send timeout.  \<open>send_raw\<close> returns the bytes handed to the
  socket, \<open>next\<close> takes the frame \<open>Framed::next\<close> delivered.
\<close>

record FramedStream =
  fs_codec :: BytesCodec
  fs_encrypt :: "Encrypt option"
  fs_timeout :: u64

definition FramedStream_from :: FramedStream where
  "FramedStream_from = \<lparr>fs_codec = BytesCodec_new, fs_encrypt = None, fs_timeout = 0\<rparr>"

definition FramedStream_set_raw :: "FramedStream \<Rightarrow> FramedStream" where
  "FramedStream_set_raw s = s\<lparr>fs_codec := set_raw (fs_codec s), fs_encrypt := None\<rparr>"

definition set_send_timeout :: "u64 \<Rightarrow> FramedStream \<Rightarrow> FramedStream" where
  "set_send_timeout ms s = s\<lparr>fs_timeout := ms\<rparr>"

definition is_secured :: "FramedStream \<Rightarrow> bool" where
  "is_secured s \<longleftrightarrow> fs_encrypt s \<noteq> None"

definition set_key :: "key \<Rightarrow> FramedStream \<Rightarrow> FramedStream" where
  "set_key k s = s\<lparr>fs_encrypt := Some (Encrypt_new k)\<rparr>"

definition send_bytes :: "FramedStream \<Rightarrow> bytes \<Rightarrow> FramedStream \<times> bytes \<times> (io_error + unit)" where
  "send_bytes s bytes = (let (wire, r) = encode (fs_codec s) bytes [] in (s, wire, r))"

definition send_raw ::
    "seal_fn \<Rightarrow> FramedStream \<Rightarrow> bytes \<Rightarrow> FramedStream \<times> bytes \<times> (io_error + unit)" where
  "send_raw seal s msg =
     (case fs_encrypt s of
        Some key \<Rightarrow>
          (let (key', msg') = enc seal key msg
           in send_bytes (s\<lparr>fs_encrypt := Some key'\<rparr>) msg')
      | None \<Rightarrow> send_bytes s msg)"

definition next_frame ::
    "open_fn \<Rightarrow> FramedStream \<Rightarrow> (io_error + bytes) option \<Rightarrow> FramedStream \<times> (io_error + bytes) option" where
  "next_frame sopen s res =
     (case res of
        Some (Inr bytes) \<Rightarrow>
          (case fs_encrypt s of
             Some key \<Rightarrow>
               (case dec sopen key bytes of
                  (key', Inl err) \<Rightarrow> (s\<lparr>fs_encrypt := Some key'\<rparr>, Some (Inl err))
                | (key', Inr bytes') \<Rightarrow> (s\<lparr>fs_encrypt := Some key'\<rparr>, Some (Inr bytes')))
           | None \<Rightarrow> (s, res))
      | _ \<Rightarrow> (s, res))"

text \<open>Sending a list of messages, and reading the frames a list of chunks decodes to.\<close>

fun send_all :: "seal_fn \<Rightarrow> FramedStream \<Rightarrow> bytes list \<Rightarrow> FramedStream \<times> bytes" where
  "send_all seal s [] = (s, [])"
| "send_all seal s (m # ms) =
     (let (s', w, _) = send_raw seal s m; (s'', ws) = send_all seal s' ms in (s'', w @ ws))"

fun next_all :: "open_fn \<Rightarrow> FramedStream \<Rightarrow> bytes list \<Rightarrow> FramedStream \<times> (io_error + bytes) list" where
  "next_all sopen s [] = (s, [])"
| "next_all sopen s (f # fs) =
     (case next_frame sopen s (Some (Inr f)) of
        (s', Some r) \<Rightarrow> (let (s'', rs) = next_all sopen s' fs in (s'', r # rs))
      | (s', None) \<Rightarrow> (s', []))"

section \<open>Nonces\<close>

lemma length_get_nonce: "length (get_nonce n) = NONCEBYTES"
  by (simp add: get_nonce_def)

lemma get_nonce_inj: "get_nonce a = get_nonce b \<longleftrightarrow> a = b"
proof
  assume "get_nonce a = get_nonce b"
  then have "to_le_bytes 8 a = to_le_bytes 8 b"
    by (simp add: get_nonce_def)
  then have "from_le_bytes (to_le_bytes 8 a) = (from_le_bytes (to_le_bytes 8 b) :: u64)"
    by simp
  then show "a = b" by (simp add: from_to_le_bytes)
qed simp

text \<open>The \<open>i\<close>-th sealed message of a direction.\<close>

fun enc_all :: "seal_fn \<Rightarrow> Encrypt \<Rightarrow> bytes list \<Rightarrow> Encrypt \<times> bytes list" where
  "enc_all seal e [] = (e, [])"
| "enc_all seal e (m # ms) =
     (let (e', c) = enc seal e m; (e'', cs) = enc_all seal e' ms in (e'', c # cs))"

lemma enc_all_seal:
  "enc_all seal e ms =
     (e\<lparr>enc_seq := enc_seq e + of_nat (length ms)\<rparr>,
      map (\<lambda>i. seal (ms ! i) (get_nonce (enc_seq e + of_nat (Suc i))) (enc_key e)) [0..<length ms])"
proof (induction ms arbitrary: e)
  case (Cons m ms)
  have upt: "[0..<Suc n] = 0 # map Suc [0..<n]" for n
    by (simp add: map_Suc_upt upt_conv_Cons)
  show ?case
    by (simp add: Cons enc_def Let_def upt algebra_simps del: upt_Suc)
qed simp

section \<open>Delivery\<close>

lemma send_all_wire:
  assumes "fs_encrypt s = Some e"
  shows "send_all seal s ms =
    (s\<lparr>fs_encrypt := Some (fst (enc_all seal e ms))\<rparr>,
     concat (map (pack (fs_codec s)) (snd (enc_all seal e ms))))"
  using assms
  by (induction ms arbitrary: s e)
     (auto simp: send_raw_def send_bytes_def pack_def split: prod.splits)

text \<open>The law of the cipher that the stream relies on, as a named hypothesis.\<close>

definition cipher_laws :: "seal_fn \<Rightarrow> open_fn \<Rightarrow> bool" where
  "cipher_laws seal sopen \<longleftrightarrow>
     (\<forall>m n k. sopen (seal m n k) n k = Some m \<and> length (seal m n k) = length m + 16)"

lemma cipher_lawsD:
  assumes "cipher_laws seal sopen"
  shows "sopen (seal m n k) n k = Some m" "length (seal m n k) = length m + 16"
  using assms by (simp_all add: cipher_laws_def)

lemma dec_seal:
  assumes "cipher_laws seal sopen"
  shows "dec sopen d (seal m (get_nonce (dec_seq d + 1)) (enc_key d)) =
    (d\<lparr>dec_seq := dec_seq d + 1\<rparr>, Inr m)"
  by (simp add: dec_def cipher_lawsD [OF assms] Let_def)

lemma next_all_sealed:
  assumes "cipher_laws seal sopen" "fs_encrypt r = Some d"
    and "enc_key d = enc_key e" "dec_seq d = enc_seq e"
  shows "next_all sopen r (snd (enc_all seal e ms)) =
    (r\<lparr>fs_encrypt := Some (d\<lparr>dec_seq := dec_seq d + of_nat (length ms)\<rparr>)\<rparr>, map Inr ms)"
  using assms(2-4)
proof (induction ms arbitrary: r d e)
  case (Cons m ms)
  let ?d = "d\<lparr>dec_seq := dec_seq d + 1\<rparr>" and ?e = "e\<lparr>enc_seq := enc_seq e + 1\<rparr>"
  have "next_frame sopen r (Some (Inr (seal m (get_nonce (enc_seq e + 1)) (enc_key e)))) =
      (r\<lparr>fs_encrypt := Some ?d\<rparr>, Some (Inr m))"
    using Cons.prems dec_seal [OF assms(1), of d m] by (simp add: next_frame_def)
  moreover have "next_all sopen (r\<lparr>fs_encrypt := Some ?d\<rparr>) (snd (enc_all seal ?e ms)) =
      (r\<lparr>fs_encrypt := Some (?d\<lparr>dec_seq := dec_seq ?d + of_nat (length ms)\<rparr>)\<rparr>, map Inr ms)"
    using Cons.IH [of "r\<lparr>fs_encrypt := Some ?d\<rparr>" ?d ?e] Cons.prems by simp
  ultimately show ?case
    by (cases "enc_all seal ?e ms") (simp add: enc_def Let_def algebra_simps)
qed simp

lemma enc_all_fits:
  assumes "cipher_laws seal sopen" "\<forall>m\<in>set ms. length m + 16 \<le> 0x3FFFFFFF"
  shows "\<forall>c\<in>set (snd (enc_all seal e ms)). fits BytesCodec_new c"
  using assms(2) nth_mem
  by (auto simp: enc_all_seal fits_def BytesCodec_new_def cipher_lawsD(2) [OF assms(1)] word_order.extremum)

lemma delivered:
  assumes "cipher_laws seal sopen"
    and "fs_codec s = BytesCodec_new" "fs_encrypt s = Some e"
    and "fs_encrypt r = Some d" "enc_key d = enc_key e" "dec_seq d = enc_seq e"
    and "\<forall>m\<in>set ms. length m + 16 \<le> 0x3FFFFFFF"
    and "concat chunks = snd (send_all seal s ms)"
  shows "next_all sopen r (unpack BytesCodec_new chunks) =
    (r\<lparr>fs_encrypt := Some (d\<lparr>dec_seq := dec_seq d + of_nat (length ms)\<rparr>)\<rparr>, map Inr ms)"
proof -
  have "unpack BytesCodec_new chunks = snd (enc_all seal e ms)"
    by (rule codec.unpack_pack)
       (use enc_all_fits [OF assms(1,7), of e] assms(2,8) send_all_wire [OF assms(3), of seal ms] in auto)
  with next_all_sealed [OF assms(1,4,5,6), of ms] show ?thesis by simp
qed

section \<open>Properties\<close>

text \<open>
  C5. End-to-end delivery of the secured stream: two endpoints share a key and the receiver's
  expected number equals the sender's counter.  However the wire bytes of the sent messages are
  cut into chunks, the receiver's frames decrypt to exactly the messages, in order, and the
  counters agree again afterwards.
\<close>

theorem secure_delivery:
  assumes "cipher_laws seal sopen"
    and "fs_codec s = BytesCodec_new" "fs_encrypt s = Some e"
    and "fs_encrypt r = Some d" "enc_key d = enc_key e" "dec_seq d = enc_seq e"
    and "\<forall>m\<in>set ms. length m + 16 \<le> 0x3FFFFFFF"
    and "concat chunks = snd (send_all seal s ms)"
  shows "\<exists>e' d'. fst (send_all seal s ms) = s\<lparr>fs_encrypt := Some e'\<rparr>
    \<and> next_all sopen r (unpack BytesCodec_new chunks) = (r\<lparr>fs_encrypt := Some d'\<rparr>, map Inr ms)
    \<and> enc_key d' = enc_key e' \<and> dec_seq d' = enc_seq e'"
  using delivered [OF assms] send_all_wire [OF assms(3), of seal ms] assms(5,6)
  by (intro exI [of _ "fst (enc_all seal e ms)"] exI [of _ "d\<lparr>dec_seq := dec_seq d + of_nat (length ms)\<rparr>"])
     (simp add: enc_all_seal)

theorem secure_delivery_witness:
  "\<exists>e' d'. fst (send_all (\<lambda>m n k. replicate 16 0 @ m) (set_key [1] FramedStream_from) [[5], []])
       = (set_key [1] FramedStream_from)\<lparr>fs_encrypt := Some e'\<rparr>
    \<and> next_all (\<lambda>c n k. Some (drop 16 c)) (set_key [1] FramedStream_from)
        (unpack BytesCodec_new [snd (send_all (\<lambda>m n k. replicate 16 0 @ m) (set_key [1] FramedStream_from) [[5], []])])
      = ((set_key [1] FramedStream_from)\<lparr>fs_encrypt := Some d'\<rparr>, map Inr [[5], []])
    \<and> enc_key d' = enc_key e' \<and> dec_seq d' = enc_seq e'"
  by (rule secure_delivery [where e = "Encrypt_new [1]" and d = "Encrypt_new [1]"])
     (simp_all add: cipher_laws_def set_key_def FramedStream_from_def Encrypt_new_def)

text \<open>
  C26. One endpoint never repeats a nonce: over any \<open>2 ^ 64 - 1\<close> consecutive messages the nonces
  used for sealing are pairwise distinct, and each message is sealed with the nonce of its own
  position.
\<close>

theorem nonces_distinct:
  assumes "length ms < 2 ^ 64"
  shows "\<exists>ns. length ns = length ms \<and> distinct ns
    \<and> snd (enc_all seal e ms) = map2 (\<lambda>m n. seal m n (enc_key e)) ms ns"
proof -
  let ?ns = "map (\<lambda>i. get_nonce (enc_seq e + of_nat (Suc i))) [0..<length ms]"
  have inj: "i = j" if "i < length ms" "j < length ms"
    and "(of_nat (Suc i) :: u64) = of_nat (Suc j)" for i j
  proof -
    have "(of_nat i :: u64) = of_nat j" using that(3) by simp
    then have "unat (of_nat i :: u64) = unat (of_nat j :: u64)" by simp
    then show ?thesis
      using that(1,2) assms by (simp add: unat_of_nat_small)
  qed
  have "distinct ?ns"
    by (auto simp: distinct_map inj_on_def get_nonce_inj simp del: of_nat_Suc dest: inj)
  moreover have "snd (enc_all seal e ms) = map2 (\<lambda>m n. seal m n (enc_key e)) ms ?ns"
    by (rule nth_equalityI) (simp_all add: enc_all_seal)
  ultimately show ?thesis
    by (intro exI [of _ ?ns]) simp
qed

theorem nonces_distinct_witness:
  "\<exists>ns. length ns = length [[1], [2 :: u8]] \<and> distinct ns
    \<and> snd (enc_all (\<lambda>m n k. n @ m) (Encrypt_new [3]) [[1], [2]])
      = map2 (\<lambda>m n. (\<lambda>m n k. n @ m) m n (enc_key (Encrypt_new [3]))) [[1], [2]] ns"
  by (rule nonces_distinct) simp



end
