(* ===== verification/Net_Addr.thy ===== *)
theory Net_Addr
  imports Rust_Strings
begin

text \<open>
  Addresses and versions of \<open>libs/hbb_common\<close>: \<open>AddrMangle\<close> hides a socket address from
  packet-rewriting routers by mixing it with a clock value (\<open>lib.rs\<close>), the version numbers
  used for feature negotiation (\<open>lib.rs\<close>), and the host/port string helpers
  (\<open>socket_client.rs\<close>).
\<close>

section \<open>Socket addresses\<close>

text \<open>Octets in network order, as \<open>octets()\<close> returns them; the arrays' lengths are \<open>wf_addr\<close>.\<close>

datatype SocketAddr =
    V4 (addr_octets: bytes) (addr_port: u16)
  | V6 (addr_octets: bytes) (addr_port: u16) (flowinfo: u32) (scope_id: u32)

fun wf_addr :: "SocketAddr \<Rightarrow> bool" where
  "wf_addr (V4 ip _) \<longleftrightarrow> length ip = 4"
| "wf_addr (V6 ip _ _ _) \<longleftrightarrow> length ip = 16"

text \<open>\<open>Ipv6Addr::to_ipv4\<close> accepts IPv4-compatible and IPv4-mapped addresses.\<close>

definition to_ipv4 :: "bytes \<Rightarrow> bytes option" where
  "to_ipv4 ip =
     (if take 10 ip = replicate 10 0 \<and> (take 2 (drop 10 ip) = [0, 0] \<or> take 2 (drop 10 ip) = [0xFF, 0xFF])
      then Some (drop 12 ip) else None)"

definition is_loopback_v6 :: "bytes \<Rightarrow> bool" where
  "is_loopback_v6 ip \<longleftrightarrow> ip = replicate 15 0 @ [1]"

definition get_any_listen_addr :: "bool \<Rightarrow> SocketAddr" where
  "get_any_listen_addr is_ipv4 =
     (if is_ipv4 then V4 (replicate 4 0) 0 else V6 (replicate 16 0) 0 0 0)"

fun try_into_v4 :: "SocketAddr \<Rightarrow> SocketAddr" where
  "try_into_v4 (V6 ip port fl sc) =
     (if \<not> is_loopback_v6 ip then
        (case to_ipv4 ip of Some v4 \<Rightarrow> V4 v4 port | None \<Rightarrow> V6 ip port fl sc)
      else V6 ip port fl sc)"
| "try_into_v4 (V4 ip port) = V4 ip port"

section \<open>Address mangling\<close>

text \<open>\<open>tm\<close> is the clock in microseconds truncated to 32 bits, read by \<open>encode\<close>.\<close>

definition mangle_encode :: "u32 \<Rightarrow> SocketAddr \<Rightarrow> bytes" where
  "mangle_encode tm_now addr =
     (case try_into_v4 addr of
        V4 ip4 port4 \<Rightarrow>
          (let tm = ucast tm_now :: u128;
               ip = ucast (from_le_bytes ip4 :: u32) :: u128;
               port = ucast port4 :: u128;
               v = push_bit 49 (ip + tm) OR push_bit 17 tm OR (port + (tm AND 0xFFFF));
               bytes = to_le_bytes 16 v;
               n_padding = length (takeWhile (\<lambda>i. i = 0) (rev bytes))
           in take (16 - n_padding) bytes)
      | V6 ip6 port6 _ _ \<Rightarrow> ip6 @ to_le_bytes 2 port6)"

definition mangle_decode :: "bytes \<Rightarrow> SocketAddr" where
  "mangle_decode bytes =
     (if length bytes > 16 then
        (if length bytes \<noteq> 18 then get_any_listen_addr False
         else V6 (take 16 bytes) (from_le_bytes (drop 16 bytes)) 0 0)
      else
        let padded = bytes @ replicate (16 - length bytes) 0;
            number = from_le_bytes padded :: u128;
            tm = drop_bit 17 number AND 0xFFFFFFFF;
            ip = to_le_bytes 4 (ucast (drop_bit 49 number - tm) :: u32);
            port = (number AND 0xFFFFFF) - (tm AND 0xFFFF)
        in V4 ip (ucast port))"

lemma and_FFFFFFFF_eq: "w AND 0xFFFFFFFF = take_bit 32 (w :: 'a::len word)"
  by (simp add: take_bit_eq_mask mask_eq_exp_minus_1)

lemma and_FFFFFF_eq: "w AND 0xFFFFFF = take_bit 24 (w :: 'a::len word)"
  by (simp add: take_bit_eq_mask mask_eq_exp_minus_1)

text \<open>Stripping the trailing zero bytes and padding again is the identity.\<close>

lemma strip_pad:
  fixes bs :: bytes
  assumes "n = length bs - length (takeWhile (\<lambda>i. i = 0) (rev bs))"
  shows "take n bs @ replicate (length bs - n) 0 = bs"
proof -
  have "drop n bs = rev (takeWhile (\<lambda>i. i = 0) (rev bs))"
    unfolding assms by (rule drop_last_takeWhile)
  moreover have "takeWhile (\<lambda>i. i = 0) (rev bs) = replicate (length (takeWhile (\<lambda>i. i = 0) (rev bs))) 0"
    by (rule replicate_eqI) (auto dest: set_takeWhileD)
  moreover have "length bs - n = length (takeWhile (\<lambda>i. i = 0) (rev bs))"
    unfolding assms using length_takeWhile_rev_le [of "\<lambda>i. i = 0" bs] by simp
  ultimately have "drop n bs = replicate (length bs - n) 0"
    by (metis rev_replicate)
  then show ?thesis by (metis append_take_drop_id)
qed

text \<open>The three fields of the packed number do not overlap.\<close>

lemma mangle_fields:
  fixes A B S :: u128
  assumes "take_bit 33 A = A" "take_bit 32 B = B" "take_bit 17 S = S"
  defines "v \<equiv> push_bit 49 A OR push_bit 17 B OR S"
  shows "drop_bit 49 v = A" "take_bit 32 (drop_bit 17 v) = B" "take_bit 16 v = take_bit 16 S"
proof -
  have A: "bit A n \<Longrightarrow> n < 33" and B: "bit B n \<Longrightarrow> n < 32" and S: "bit S n \<Longrightarrow> n < 17" for n
    using assms(1-3) by (metis bit_take_bit_iff)+
  show "drop_bit 49 v = A"
    unfolding v_def by (rule bit_word_eqI) (auto simp: bit_simps dest: A B S)
  show "take_bit 32 (drop_bit 17 v) = B"
    unfolding v_def by (rule bit_word_eqI) (auto simp: bit_simps dest: A B S)
  show "take_bit 16 v = take_bit 16 S"
    unfolding v_def by (rule bit_word_eqI) (auto simp: bit_simps dest: A B S)
qed

lemma take_bit_ucast_self:
  "LENGTH('b) \<le> k \<Longrightarrow> take_bit k (ucast (w :: 'b::len word) :: 'a::len word) = ucast w"
  by (rule bit_word_eqI) (auto simp: bit_simps dest: bit_imp_le_length)

lemma take_bit_add_self:
  fixes a b :: "'a::len word"
  assumes "take_bit k a = a" "take_bit k b = b" "Suc k < LENGTH('a)"
  shows "take_bit (Suc k) (a + b) = a + b"
proof -
  have lt: "unat a < 2 ^ k" "unat b < 2 ^ k"
    using assms(1,2) by (metis take_bit_nat_less_exp unsigned_take_bit_eq)+
  then have sum: "unat a + unat b < 2 ^ Suc k" by simp
  also have "\<dots> < 2 ^ LENGTH('a)" using assms(3) by (intro power_strict_increasing) simp_all
  finally have "unat (a + b) = unat a + unat b" by (rule unat_add_lem [THEN iffD1])
  with sum have "take_bit (Suc k) (unat (a + b)) = unat (a + b)"
    by (simp add: take_bit_nat_eq_self)
  then show ?thesis by (metis unsigned_take_bit_eq unsigned_word_eqI)
qed

text \<open>What \<open>decode\<close> extracts from the number that \<open>encode\<close> packed.\<close>

lemma mangle_number:
  fixes tm_now :: u32 and ip4 :: u32 and port4 :: u16
  defines "tm \<equiv> ucast tm_now :: u128" and "ip \<equiv> ucast ip4 :: u128" and "port \<equiv> ucast port4 :: u128"
  defines "v \<equiv> push_bit 49 (ip + tm) OR push_bit 17 tm OR (port + (tm AND 0xFFFF))"
  shows "drop_bit 17 v AND 0xFFFFFFFF = tm"
    and "ucast (drop_bit 49 v - tm) = ip4"
    and "ucast ((v AND 0xFFFFFF) - (tm AND 0xFFFF)) = port4"
proof -
  have tm: "take_bit 32 tm = tm" and ip: "take_bit 32 ip = ip" and port: "take_bit 16 port = port"
    by (simp_all add: tm_def ip_def port_def take_bit_ucast_self)
  have A: "take_bit 33 (ip + tm) = ip + tm"
    using take_bit_add_self [OF ip tm] by simp
  have "take_bit 16 (tm AND 0xFFFF) = tm AND 0xFFFF"
    by (simp add: and_FFFF_eq)
  then have S: "take_bit 17 (port + (tm AND 0xFFFF)) = port + (tm AND 0xFFFF)"
    using take_bit_add_self [OF port] by simp
  note f = mangle_fields [OF A tm S, folded v_def]
  show "drop_bit 17 v AND 0xFFFFFFFF = tm"
    using f(2) by (simp only: and_FFFFFFFF_eq)
  show "ucast (drop_bit 49 v - tm) = ip4"
    by (simp add: f(1) ip_def) (rule bit_word_eqI, auto simp: bit_simps)
  have "ucast (v AND 0xFFFFFF) = (ucast (take_bit 16 v) :: u16)"
    unfolding and_FFFFFF_eq by (rule bit_word_eqI) (auto simp: bit_simps)
  also have "\<dots> = ucast (port + (tm AND 0xFFFF))"
    unfolding f(3) by (rule bit_word_eqI) (auto simp: bit_simps)
  finally have "ucast (v AND 0xFFFFFF) = (ucast port + ucast (tm AND 0xFFFF) :: u16)"
    by (simp add: ucast_add_down)
  moreover have "(ucast port :: u16) = port4"
    unfolding port_def by (rule bit_word_eqI) (auto simp: bit_simps)
  ultimately show "ucast ((v AND 0xFFFFFF) - (tm AND 0xFFFF)) = port4"
    by (simp add: ucast_diff_down)
qed

lemma mangle_roundtrip_v4:
  assumes "length ip4 = 4"
  shows "mangle_decode (mangle_encode tm_now (V4 ip4 port4)) = V4 ip4 port4"
proof -
  let ?tm = "ucast tm_now :: u128"
  let ?v = "push_bit 49 (ucast (from_le_bytes ip4 :: u32) + ?tm) OR push_bit 17 ?tm
    OR (ucast port4 + (?tm AND 0xFFFF))"
  let ?bs = "to_le_bytes 16 ?v" and ?n = "16 - length (takeWhile (\<lambda>i. i = 0) (rev (to_le_bytes 16 ?v)))"
  have enc: "mangle_encode tm_now (V4 ip4 port4) = take ?n ?bs"
    by (simp add: mangle_encode_def Let_def)
  have pad: "take ?n ?bs @ replicate (16 - length (take ?n ?bs)) 0 = ?bs"
    using strip_pad [of ?n ?bs] by simp
  have num: "from_le_bytes ?bs = ?v"
    by (rule from_to_le_bytes) simp
  have len: "\<not> length (take ?n ?bs) > 16" by simp
  have ip: "to_le_bytes 4 (from_le_bytes ip4 :: u32) = ip4"
    using assms by (intro to_from_le_bytes) simp_all
  note m = mangle_number [of "from_le_bytes ip4" tm_now port4]
  show ?thesis
    unfolding enc mangle_decode_def Let_def pad num
    by (simp only: len if_False m ip)
qed

lemma to_ipv4_length: "\<lbrakk>length ip = 16; to_ipv4 ip = Some v4\<rbrakk> \<Longrightarrow> length v4 = 4"
  by (auto simp: to_ipv4_def split: if_splits)

lemma try_into_v4_wf: "wf_addr a \<Longrightarrow> wf_addr (try_into_v4 a)"
  by (cases a) (auto simp: to_ipv4_length split: option.splits)

section \<open>Version numbers\<close>

text \<open>
  \<open>get_version_number\<close> works in \<open>i64\<close>; the model computes with 64-bit words (wrap-around as
  in a release build), the signed reading is the number compared by the callers.
\<close>

fun version_loop :: "string list \<Rightarrow> i64 \<Rightarrow> i64 \<Rightarrow> i64 \<times> i64" where
  "version_loop [] n lst = (n, lst)"
| "version_loop (x # xs) n lst =
     (let lst' = of_int (case parse_i64 x of Some i \<Rightarrow> i | None \<Rightarrow> 0)
      in version_loop xs (n * 1000 + lst') lst')"

definition get_version_number :: "string \<Rightarrow> i64" where
  "get_version_number v =
     (let versions = split_char CHR ''-'' v;
          n = (case versions of
                 [] \<Rightarrow> 0
               | v0 # _ \<Rightarrow> (let (n, lst) = version_loop (split_char CHR ''.'' v0) 0 0
                            in n - lst + lst * 10))
      in case versions of
           _ # v1 # _ \<Rightarrow> n + of_int (case parse_i64 v1 of Some i \<Rightarrow> i | None \<Rightarrow> 0)
         | _ \<Rightarrow> n)"

text \<open>\<open>url.chars().rev().position(c)\<close>: the number of characters after the last \<open>c\<close>.\<close>

definition rposition :: "char \<Rightarrow> string \<Rightarrow> nat option" where
  "rposition c s = (if c \<in> set s then Some (length (takeWhile (\<lambda>x. x \<noteq> c) (rev s))) else None)"

definition get_version_from_url :: "string \<Rightarrow> string" where
  "get_version_from_url url =
     (let n = length url in
      case rposition CHR ''-'' url of
        Some a \<Rightarrow>
          (case rposition CHR ''.'' url of
             Some b \<Rightarrow>
               if a > b then
                 (if parse_i32 (drop (n - b) url) \<noteq> None then drop (n - a) url
                  else take (a - b - 1) (drop (n - a) url))
               else drop (n - a) url
           | None \<Rightarrow> [])
      | None \<Rightarrow> [])"

section \<open>Host and port strings\<close>

text \<open>
  \<open>is_match\<close> is \<open>Regex::is_match\<close> of the \<open>regex\<close> crate on the given pattern, a parameter.
\<close>

definition ipv6_pattern :: string where
  "ipv6_pattern =
     ''^((([a-fA-F0-9]{1,4}:{1,2})+[a-fA-F0-9]{1,4})|('' @ CHR 0x5C # ''[([a-fA-F0-9]{1,4}:{1,2})+[a-fA-F0-9]{1,4}''
     @ CHR 0x5C # '']:'' @ CHR 0x5C # ''d+))$''"

definition is_ipv6_str :: "(string \<Rightarrow> string \<Rightarrow> bool) \<Rightarrow> string \<Rightarrow> bool" where
  "is_ipv6_str is_match i = is_match ipv6_pattern i"

definition octet_pattern :: string where
  "octet_pattern = ''(?:25[0-5]|2[0-4][0-9]|[01]?[0-9][0-9]?)''"

definition ipv4_pattern :: string where
  "ipv4_pattern =
     ''^'' @ octet_pattern @ CHR 0x5C # ''.'' @ octet_pattern @ CHR 0x5C # ''.'' @ octet_pattern @ CHR 0x5C # ''.''
     @ octet_pattern @ ''(:'' @ CHR 0x5C # ''d+)?$''"

definition is_ipv4_str :: "(string \<Rightarrow> string \<Rightarrow> bool) \<Rightarrow> string \<Rightarrow> bool" where
  "is_ipv4_str matches i = matches ipv4_pattern i"

definition check_port :: "(string \<Rightarrow> string \<Rightarrow> bool) \<Rightarrow> string \<Rightarrow> int \<Rightarrow> string" where
  "check_port is_match host port =
     (if is_ipv6_str is_match host then
        (if starts_with host ''['' then host
         else ''['' @ host @ '']:'' @ int_to_string port)
      else if CHR '':'' \<notin> set host then host @ '':'' @ int_to_string port
      else host)"

definition parse_port :: "string \<Rightarrow> int" where
  "parse_port s = (case parse_i32 s of Some p \<Rightarrow> p | None \<Rightarrow> 0)"

definition increase_port :: "(string \<Rightarrow> string \<Rightarrow> bool) \<Rightarrow> string \<Rightarrow> int \<Rightarrow> string" where
  "increase_port is_match host offset =
     (if is_ipv6_str is_match host then
        (if starts_with host ''['' then
           (case split_str '']:'' host of
              [a, b] \<Rightarrow> (let port = parse_port b in
                 if port > 0 then a @ '']:'' @ int_to_string (add_i32 port offset) else host)
            | _ \<Rightarrow> host)
         else host)
      else if CHR '':'' \<in> set host then
        (case split_char CHR '':'' host of
           [a, b] \<Rightarrow> (let port = parse_port b in
              if port > 0 then a @ '':'' @ int_to_string (add_i32 port offset) else host)
         | _ \<Rightarrow> host)
      else host)"

definition split_host_port :: "(string \<Rightarrow> string \<Rightarrow> bool) \<Rightarrow> string \<Rightarrow> (string \<times> int) option" where
  "split_host_port is_match host =
     (if is_ipv6_str is_match host then
        (if starts_with host ''['' then
           (case split_str '']:'' host of
              [a, b] \<Rightarrow> (let port = parse_port b in
                 if port > 0 then Some (a @ '']'', port) else None)
            | _ \<Rightarrow> None)
         else None)
      else if CHR '':'' \<in> set host then
        (case split_char CHR '':'' host of
           [a, b] \<Rightarrow> (let port = parse_port b in
              if port > 0 then Some (a, port) else None)
         | _ \<Rightarrow> None)
      else None)"

lemma parse_port_to_string: "\<lbrakk>0 \<le> p; p < 2 ^ 31\<rbrakk> \<Longrightarrow> parse_port (int_to_string p) = p"
  by (simp add: parse_port_def parse_i32_def parse_int_to_string)

lemma int_to_string_chars:
  "\<lbrakk>0 \<le> p; \<not> is_digit c\<rbrakk> \<Longrightarrow> c \<notin> set (int_to_string p)"
  by (simp add: int_to_string_def nat_to_string_chars)

text \<open>The part of a name that is not an IPv6 literal and carries no port.\<close>

lemma split_host_port_plain:
  assumes "\<not> is_ipv6_str is_match (h @ '':'' @ int_to_string p)" "CHR '':'' \<notin> set h" "0 < p" "p < 2 ^ 31"
  shows "split_host_port is_match (h @ '':'' @ int_to_string p) = Some (h, p)"
proof -
  have "CHR '':'' \<notin> set (int_to_string p)"
    using assms(3) by (intro int_to_string_chars) (simp_all add: is_digit_def)
  with assms show ?thesis
    by (simp add: split_host_port_def split_char_one parse_port_to_string)
qed

lemma split_host_port_bracketed:
  assumes "is_ipv6_str is_match (''['' @ h @ '']:'' @ int_to_string p)" "CHR '']'' \<notin> set h" "0 < p" "p < 2 ^ 31"
  shows "split_host_port is_match (''['' @ h @ '']:'' @ int_to_string p) = Some (''['' @ h @ '']'', p)"
proof -
  have "CHR '':'' \<notin> set (int_to_string p)"
    using assms(3) by (intro int_to_string_chars) (simp_all add: is_digit_def)
  then have "split_str '']:'' ((''['' @ h) @ '']:'' @ int_to_string p) = [''['' @ h, int_to_string p]"
    using assms(2) by (intro split_str_one [where c = "CHR '':''"]) auto
  with assms show ?thesis
    by (simp add: split_host_port_def starts_with_def parse_port_to_string)
qed

section \<open>Properties\<close>

text \<open>
  C28. Mangling is transparent: for every clock value, decoding the mangled bytes of a socket
  address gives the address back (in its IPv4 form when it is an IPv4-mapped or -compatible IPv6
  address other than the loopback; IPv6 flow information and scope are not carried).
\<close>

theorem mangle_roundtrip:
  assumes "wf_addr addr"
  shows "mangle_decode (mangle_encode tm_now addr) =
    (case try_into_v4 addr of V4 ip port \<Rightarrow> V4 ip port | V6 ip port _ _ \<Rightarrow> V6 ip port 0 0)"
proof (cases "try_into_v4 addr")
  case (V4 ip port)
  with try_into_v4_wf [OF assms] have "length ip = 4" by simp
  from mangle_roundtrip_v4 [OF this] V4 show ?thesis
    by (simp add: mangle_encode_def)
next
  case (V6 ip port fl sc)
  with try_into_v4_wf [OF assms] have "length ip = 16" by simp
  with V6 show ?thesis
    by (simp add: mangle_encode_def mangle_decode_def from_to_le_bytes)
qed

theorem mangle_roundtrip_witness:
  "mangle_decode (mangle_encode 123456789 (V6 (replicate 10 0 @ [255, 255, 127, 0, 0, 1]) 8080 0 0))
     = V4 [127, 0, 0, 1] 8080"
proof -
  let ?a = "V6 (replicate 10 0 @ [255, 255, 127, 0, 0, 1]) 8080 0 0"
  have "wf_addr ?a" and "try_into_v4 ?a = V4 [127, 0, 0, 1] 8080"
    by code_simp+
  with mangle_roundtrip [of ?a 123456789] show ?thesis by simp
qed

text \<open>
  A port can be taken off again: for a host name without a colon (and whose \<open>host:port\<close>
  form is not an IPv6 literal), and for an IPv6 literal (whose bracketed form the pattern
  accepts and which contains no bracket), \<open>split_host_port\<close> recovers what \<open>check_port\<close> put
  together, for every positive \<open>i32\<close> port.
\<close>

theorem check_port_split:
  assumes "0 < p" "p < 2 ^ 31"
    and "if is_ipv6_str is_match h
      then is_ipv6_str is_match (''['' @ h @ '']:'' @ int_to_string p) \<and> set h \<inter> set ''[]'' = {}
      else \<not> is_ipv6_str is_match (h @ '':'' @ int_to_string p) \<and> CHR '':'' \<notin> set h"
  shows "split_host_port is_match (check_port is_match h p) =
    Some (if is_ipv6_str is_match h then ''['' @ h @ '']'' else h, p)"
proof (cases "is_ipv6_str is_match h")
  case True
  with assms(3) have "\<not> starts_with h ''[''"
    by (cases h) (auto simp: starts_with_def)
  with True assms split_host_port_bracketed [of is_match h p] show ?thesis
    by (simp add: check_port_def)
next
  case False
  with assms split_host_port_plain [of is_match h p] show ?thesis
    by (simp add: check_port_def)
qed

theorem check_port_split_witness:
  "split_host_port (\<lambda>_ s. s = ''1:2'' \<or> starts_with s ''[1:2]:'') (check_port (\<lambda>_ s. s = ''1:2'' \<or> starts_with s ''[1:2]:'') ''1:2'' 32)
     = Some (''[1:2]'', 32)
   \<and> split_host_port (\<lambda>_ s. s = ''1:2'' \<or> starts_with s ''[1:2]:'') (check_port (\<lambda>_ s. s = ''1:2'' \<or> starts_with s ''[1:2]:'') ''a.b'' 80)
     = Some (''a.b'', 80)"
  using check_port_split [of 32 "\<lambda>_ s. s = ''1:2'' \<or> starts_with s ''[1:2]:''" "''1:2''"]
    check_port_split [of 80 "\<lambda>_ s. s = ''1:2'' \<or> starts_with s ''[1:2]:''" "''a.b''"]
  by (simp add: is_ipv6_str_def starts_with_def)

text \<open>
  Version numbers order versions: for versions \<open>a.b.c-p\<close> with \<open>b < 1000\<close>, \<open>c < 100\<close> and
  \<open>p < 10\<close>, the number computed from the text is \<open>a * 10^6 + b * 10^3 + c * 10 + p\<close>, and the
  signed comparison of two such numbers is the lexicographic comparison of the versions.
\<close>

definition version_text :: "nat \<Rightarrow> nat \<Rightarrow> nat \<Rightarrow> nat \<Rightarrow> string" where
  "version_text a b c p =
     nat_to_string a @ ''.'' @ nat_to_string b @ ''.'' @ nat_to_string c @ ''-'' @ nat_to_string p"

lemma parse_i64_nat: "n < 2 ^ 63 \<Longrightarrow> parse_i64 (nat_to_string n) = Some (int n)"
  by (simp add: parse_i64_def parse_int_nat_to_string)

lemma split_version:
  "split_char CHR ''-'' (version_text a b c p) =
     [nat_to_string a @ ''.'' @ nat_to_string b @ ''.'' @ nat_to_string c, nat_to_string p]"
  "split_char CHR ''.'' (nat_to_string a @ ''.'' @ nat_to_string b @ ''.'' @ nat_to_string c) =
     [nat_to_string a, nat_to_string b, nat_to_string c]"
proof -
  have nc: "CHR ''-'' \<notin> set (nat_to_string n)" "CHR ''.'' \<notin> set (nat_to_string n)" for n
    by (simp_all add: nat_to_string_chars is_digit_def)
  have "version_text a b c p =
      (nat_to_string a @ ''.'' @ nat_to_string b @ ''.'' @ nat_to_string c) @ CHR ''-'' # nat_to_string p"
    by (simp add: version_text_def)
  then show "split_char CHR ''-'' (version_text a b c p) =
     [nat_to_string a @ ''.'' @ nat_to_string b @ ''.'' @ nat_to_string c, nat_to_string p]"
    using nc by (simp only:) (rule split_char_one, auto)
  show "split_char CHR ''.'' (nat_to_string a @ ''.'' @ nat_to_string b @ ''.'' @ nat_to_string c) =
     [nat_to_string a, nat_to_string b, nat_to_string c]"
    using nc by (simp add: split_char_append split_char_absent)
qed

lemma get_version_number_text:
  assumes "a < 2 ^ 40" "b < 1000" "c < 100" "p < 10"
  shows "get_version_number (version_text a b c p) = of_nat (a * 10 ^ 6 + b * 10 ^ 3 + c * 10 + p)"
  using assms
  by (simp add: get_version_number_def split_version split_version(2) [simplified] parse_i64_nat Let_def algebra_simps)

lemma sint_of_nat_small: "n < 2 ^ 63 \<Longrightarrow> sint (of_nat n :: i64) = int n"
  by (simp add: signed_of_nat signed_take_bit_int_eq_self)

theorem version_number_order:
  assumes "a < 2 ^ 40" "b < 1000" "c < 100" "p < 10" "a' < 2 ^ 40" "b' < 1000" "c' < 100" "p' < 10"
  shows "sint (get_version_number (version_text a b c p)) = int (a * 10 ^ 6 + b * 10 ^ 3 + c * 10 + p)
    \<and> (sint (get_version_number (version_text a b c p)) < sint (get_version_number (version_text a' b' c' p'))
      \<longleftrightarrow> a < a' \<or> a = a' \<and> (b < b' \<or> b = b' \<and> (c < c' \<or> c = c' \<and> p < p')))"
proof -
  have "sint (get_version_number (version_text x y z q)) = int (x * 10 ^ 6 + y * 10 ^ 3 + z * 10 + q)"
    if "x < 2 ^ 40" "y < 1000" "z < 100" "q < 10" for x y z q
    unfolding get_version_number_text [OF that]
    by (rule sint_of_nat_small) (use that in simp)
  with assms show ?thesis by auto
qed

theorem version_number_order_witness:
  "sint (get_version_number (version_text 1 1 10 0)) = 1001100
   \<and> sint (get_version_number (version_text 1 1 10 0)) < sint (get_version_number (version_text 1 1 10 1))"
  using version_number_order [of 1 1 10 0 1 1 10 1] by simp

text \<open>
  The version is read off a download URL: of \<open>pre-v.ext\<close>, with no dash in \<open>v\<close> or \<open>ext\<close> and
  no dot in \<open>ext\<close>, \<open>get_version_from_url\<close> returns \<open>v\<close> without the file extension, and
  \<open>v.ext\<close> when what follows the last dot is a number (a URL without extension).
\<close>

lemma rposition_append: "c \<notin> set b \<Longrightarrow> rposition c (a @ c # b) = Some (length b)"
proof -
  assume "c \<notin> set b"
  then have "takeWhile (\<lambda>x. x \<noteq> c) (rev b @ c # rev a) = rev b"
    by (subst takeWhile_append2) auto
  then show ?thesis by (simp add: rposition_def)
qed

theorem version_from_url:
  assumes "CHR ''-'' \<notin> set v" "CHR ''-'' \<notin> set ext" "CHR ''.'' \<notin> set ext"
  shows "get_version_from_url (pre @ ''-'' @ v @ ''.'' @ ext) =
    (if parse_i32 ext \<noteq> None then v @ ''.'' @ ext else v)"
proof -
  let ?url = "pre @ ''-'' @ v @ ''.'' @ ext"
  have a: "rposition CHR ''-'' ?url = Some (length v + 1 + length ext)"
    using assms rposition_append [of "CHR ''-''" "v @ ''.'' @ ext" pre] by simp
  have b: "rposition CHR ''.'' ?url = Some (length ext)"
    using assms rposition_append [of "CHR ''.''" ext "pre @ ''-'' @ v"] by simp
  have "drop (length ?url - length ext) ?url = ext"
    by simp
  moreover have "drop (length ?url - (length v + 1 + length ext)) ?url = v @ ''.'' @ ext"
    by simp
  ultimately show ?thesis
    by (simp only: get_version_from_url_def a b Let_def option.case) simp
qed

theorem version_from_url_witness:
  "get_version_from_url ''http://x/rustdesk-1.2.3.exe'' = ''1.2.3''
   \<and> get_version_from_url ''http://x/tag-1.2.3'' = ''1.2.3''"
  using version_from_url [of "''1.2.3''" "''exe''" "''http://x/rustdesk''"]
    version_from_url [of "''1.2''" "''3''" "''http://x/tag''"]
  by (simp add: parse_i32_def parse_int_def is_digit_def digits_value_def digit_value_def)

text \<open>
  Shifting a port: on every host that splits into a name and a port, \<open>increase_port\<close> keeps
  the name and adds the offset to the port, as long as the sum is a positive \<open>i32\<close> and the
  rewritten string is of the same kind (bracketed literal or plain) as the original.
\<close>

lemma split_host_port_cases:
  assumes "split_host_port is_match host = Some (h, p)"
  obtains (ip6) a b where "is_ipv6_str is_match host" "starts_with host ''[''" "split_str '']:'' host = [a, b]"
      "h = a @ '']''" "p = parse_port b" "0 < p"
  | (plain) b where "\<not> is_ipv6_str is_match host" "split_char CHR '':'' host = [h, b]" "CHR '':'' \<in> set host"
      "p = parse_port b" "0 < p"
  using assms
  by (auto simp: split_host_port_def Let_def split: if_splits list.splits)

theorem increase_port_shifts:
  assumes "split_host_port is_match host = Some (h, p)" "0 < p + k" "p + k < 2 ^ 31"
    and "is_ipv6_str is_match (increase_port is_match host k) = is_ipv6_str is_match host"
    and "is_ipv6_str is_match host \<Longrightarrow> CHR '']'' \<notin> set (butlast h)"
  shows "split_host_port is_match (increase_port is_match host k) = Some (h, p + k)"
  using assms(1)
proof (cases rule: split_host_port_cases)
  case (ip6 a b)
  have inc: "increase_port is_match host k = a @ '']:'' @ int_to_string (p + k)"
    using ip6 assms(2,3) by (simp add: increase_port_def Let_def add_i32_small)
  have "host = a @ '']:'' @ b"
    using ip6(3) join_split_str [of "'']:''" host] by simp
  with ip6(2) obtain a' where a: "a = ''['' @ a'"
    by (cases a) (auto simp: starts_with_def)
  moreover have "CHR '']'' \<notin> set a'"
    using assms(5) ip6(1,4) a by simp
  ultimately show ?thesis
    using inc ip6(1,4) assms(2-4) split_host_port_bracketed [of is_match a' "p + k"] by simp
next
  case (plain b)
  have inc: "increase_port is_match host k = h @ '':'' @ int_to_string (p + k)"
    using plain assms(2,3) by (simp add: increase_port_def Let_def add_i32_small)
  have "CHR '':'' \<notin> set h"
    using plain(2) split_char_pieces [of h "CHR '':''" host] by simp
  with inc plain(1) assms(2-4) split_host_port_plain [of is_match h "p + k"] show ?thesis
    by simp
qed

theorem increase_port_shifts_witness:
  "split_host_port (\<lambda>_ s. starts_with s ''['') (increase_port (\<lambda>_ s. starts_with s ''['') ''[1:2]:12'' 1) = Some (''[1:2]'', 12 + 1)"
proof (rule increase_port_shifts)
  show "split_host_port (\<lambda>_ s. starts_with s ''['') ''[1:2]:12'' = Some (''[1:2]'', 12)"
    by code_simp
  show "is_ipv6_str (\<lambda>_ s. starts_with s ''['') (increase_port (\<lambda>_ s. starts_with s ''['') ''[1:2]:12'' 1)
      = is_ipv6_str (\<lambda>_ s. starts_with s ''['') ''[1:2]:12''"
    by code_simp
qed simp_all

end
