(* ===== verification/Rust_Maps.thy ===== *)
theory Rust_Maps
  imports Main "HOL-Library.AList"
begin

text \<open>
  \<open>HashMap\<close> as an association list with distinct keys: the list's order stands for the
  unspecified iteration order, so every result proved for all well-formed lists holds for
  every order.  The interface is the locale \<open>rust_map\<close>; its laws are what the component
  proofs use.
\<close>

type_synonym ('k, 'v) hashmap = "('k \<times> 'v) list"

section \<open>The interface\<close>

locale rust_map =
  fixes hm_empty :: "'m"
    and hm_get :: "'m \<Rightarrow> 'k \<Rightarrow> 'v option"
    and hm_insert :: "'k \<Rightarrow> 'v \<Rightarrow> 'm \<Rightarrow> 'm"
    and hm_remove :: "'k \<Rightarrow> 'm \<Rightarrow> 'm"
    and hm_ok :: "'m \<Rightarrow> bool"
  assumes get_empty: "hm_get hm_empty k = None"
    and get_insert: "hm_get (hm_insert k v m) k' = (if k' = k then Some v else hm_get m k')"
    and get_remove: "hm_get (hm_remove k m) k' = (if k' = k then None else hm_get m k')"
    and ok_empty: "hm_ok hm_empty"
    and ok_insert: "hm_ok m \<Longrightarrow> hm_ok (hm_insert k v m)"
    and ok_remove: "hm_ok m \<Longrightarrow> hm_ok (hm_remove k m)"
begin

lemma get_insert_same: "hm_get (hm_insert k v m) k = Some v"
  by (simp add: get_insert)

lemma get_insert_insert: "hm_get (hm_insert k v (hm_insert k v' m)) = hm_get (hm_insert k v m)"
  by (rule ext) (simp add: get_insert)

lemma get_remove_insert: "hm_get m k = None \<Longrightarrow> hm_get (hm_remove k (hm_insert k v m)) = hm_get m"
  by (rule ext) (simp add: get_insert get_remove)

text \<open>A batch of insertions: the last value of a key wins, other keys are untouched.\<close>

lemma get_fold_insert:
  "hm_get (fold (\<lambda>(k, v). hm_insert k v) kvs m) k =
     (case map_of (rev kvs) k of Some v \<Rightarrow> Some v | None \<Rightarrow> hm_get m k)"
proof (induction kvs arbitrary: m)
  case (Cons kv kvs)
  obtain k' v' where "kv = (k', v')" by (cases kv)
  with Cons show ?case
    by (auto simp: get_insert map_add_def split: option.splits)
qed simp

end

section \<open>The implementation\<close>

definition hm_get :: "('k, 'v) hashmap \<Rightarrow> 'k \<Rightarrow> 'v option" where
  "hm_get m k = map_of m k"

definition hm_insert :: "'k \<Rightarrow> 'v \<Rightarrow> ('k, 'v) hashmap \<Rightarrow> ('k, 'v) hashmap" where
  "hm_insert k v m = AList.update k v m"

definition hm_remove :: "'k \<Rightarrow> ('k, 'v) hashmap \<Rightarrow> ('k, 'v) hashmap" where
  "hm_remove k m = AList.delete k m"

definition hm_keys :: "('k, 'v) hashmap \<Rightarrow> 'k list" where
  "hm_keys m = map fst m"

definition hm_values :: "('k, 'v) hashmap \<Rightarrow> 'v list" where
  "hm_values m = map snd m"

definition hm_ok :: "('k, 'v) hashmap \<Rightarrow> bool" where
  "hm_ok m \<longleftrightarrow> distinct (map fst m)"

interpretation hm: rust_map "[]" hm_get hm_insert hm_remove hm_ok
  by unfold_locales
     (auto simp: hm_get_def hm_insert_def hm_remove_def hm_ok_def update_conv' delete_conv'
       distinct_update distinct_delete)

lemmas hm_simps [simp] =
  hm.get_empty hm.get_insert hm.get_remove hm.ok_empty hm.ok_insert hm.ok_remove

text \<open>\<open>get_mut\<close> followed by an update of the value in place.\<close>

definition hm_adjust :: "'k \<Rightarrow> ('v \<Rightarrow> 'v) \<Rightarrow> ('k, 'v) hashmap \<Rightarrow> ('k, 'v) hashmap" where
  "hm_adjust k f m = (case hm_get m k of Some v \<Rightarrow> hm_insert k (f v) m | None \<Rightarrow> m)"

lemma get_adjust: "hm_get (hm_adjust k f m) k' = (if k' = k then map_option f (hm_get m k) else hm_get m k')"
  by (simp add: hm_adjust_def split: option.splits)

lemma ok_adjust: "hm_ok m \<Longrightarrow> hm_ok (hm_adjust k f m)"
  by (simp add: hm_adjust_def split: option.splits)

lemma ok_map_values: "hm_ok (map (\<lambda>(k, v). (k, f v)) m) \<longleftrightarrow> hm_ok m"
proof -
  have "map fst (map (\<lambda>(k, v). (k, f v)) m) = map fst m" by (induction m) auto
  then show ?thesis by (simp only: hm_ok_def)
qed

lemma values_insert: "set (hm_values (hm_insert k v m)) \<subseteq> insert v (set (hm_values m))"
  by (induction m) (auto simp: hm_insert_def hm_values_def split: if_splits)

lemma values_remove: "set (hm_values (hm_remove k m)) \<subseteq> set (hm_values m)"
  by (auto simp: hm_remove_def hm_values_def AList.delete_eq)

lemma hm_get_value: "hm_get m k = Some v \<Longrightarrow> v \<in> set (hm_values m)"
  by (metis hm_get_def hm_values_def map_of_SomeD image_eqI set_map snd_conv)

lemma values_adjust:
  "v \<in> set (hm_values (hm_adjust k f m)) \<Longrightarrow>
   v \<in> set (hm_values m) \<or> (\<exists>u. hm_get m k = Some u \<and> v = f u)"
  using values_insert [of k _ m] by (auto simp: hm_adjust_def split: option.splits)

text \<open>Membership of a value, through the keys.\<close>

lemma values_iff_get: "hm_ok m \<Longrightarrow> v \<in> set (hm_values m) \<longleftrightarrow> (\<exists>k. hm_get m k = Some v)"
  by (force simp: hm_ok_def hm_get_def hm_values_def)

lemma keys_iff_get: "k \<in> set (hm_keys m) \<longleftrightarrow> hm_get m k \<noteq> None"
  by (auto simp: hm_keys_def hm_get_def map_of_eq_None_iff)

end
