(* ===== verification/File_System.thy ===== *)
theory File_System
  imports Rust_Strings Rust_Maps "HOL-Library.Sublist"
begin

text \<open>
  The part of \<open>std::path\<close>, \<open>std::fs\<close> and \<open>tokio::fs\<close> that the file-transfer code uses, for a
  POSIX target.  A path is its string; \<open>path_key\<close> is the directory entry it denotes, the
  resolved list of its components.  Directory entries point to inodes, so that an open file
  keeps its contents when its name is renamed or removed.  Symbolic links are followed at the
  last component.  The entries in \<open>denied\<close> are those the process may not open, create or
  remove; the clock is a field of the state, in nanoseconds since the epoch.
\<close>

section \<open>Paths\<close>

type_synonym key = "bool \<times> string list"

definition path_comps :: "string \<Rightarrow> string list" where
  "path_comps p = filter (\<lambda>c. c \<noteq> '''' \<and> c \<noteq> ''.'') (split_char CHR ''/'' p)"

definition resolve_step :: "bool \<Rightarrow> string list \<Rightarrow> string \<Rightarrow> string list" where
  "resolve_step absolute acc c =
     (if c \<noteq> ''..'' then acc @ [c]
      else if acc \<noteq> [] \<and> last acc \<noteq> ''..'' then butlast acc
      else if absolute then acc
      else acc @ [c])"

definition path_key :: "string \<Rightarrow> key" where
  "path_key p = (let a = starts_with p ''/'' in (a, foldl (resolve_step a) [] (path_comps p)))"

definition path_join :: "string \<Rightarrow> string \<Rightarrow> string" where
  "path_join p n =
     (if starts_with n ''/'' then n
      else if p = [] \<or> last p = CHR ''/'' then p @ n
      else p @ CHR ''/'' # n)"

definition path_file_name :: "string \<Rightarrow> string option" where
  "path_file_name p =
     (case rev (path_comps p) of c # _ \<Rightarrow> if c = ''..'' then None else Some c | [] \<Rightarrow> None)"

text \<open>\<open>Path::parent\<close>: \<open>None\<close> for the root and the empty path.\<close>

definition path_parent :: "string \<Rightarrow> string option" where
  "path_parent p =
     (if path_comps p = [] then None
      else Some ((if starts_with p ''/'' then ''/'' else '''') @ join_char CHR ''/'' (butlast (path_comps p))))"

definition key_parent :: "key \<Rightarrow> key" where
  "key_parent k = (fst k, butlast (snd k))"

text \<open>The entries at or below an entry.\<close>

definition under :: "key \<Rightarrow> key \<Rightarrow> bool" where
  "under k k' \<longleftrightarrow> fst k = fst k' \<and> prefix (snd k) (snd k')"

section \<open>State\<close>

datatype node = RegFile nat | Directory int | Symlink key int

record inode =
  content :: bytes
  mtime :: int

record file_sys =
  names :: "(key, node) hashmap"
  inodes :: "(nat, inode) hashmap"
  next_ino :: nat
  denied :: "key list"
  clock :: int
  dir_size :: nat

record file_handle =
  h_ino :: "nat option"
  h_pos :: nat
  h_read :: bool
  h_write :: bool

definition node_of :: "file_sys \<Rightarrow> key \<Rightarrow> node option" where
  "node_of fs k = (if snd k = [] then Some (Directory 0) else hm_get (names fs) k)"

fun follow :: "nat \<Rightarrow> file_sys \<Rightarrow> key \<Rightarrow> key option" where
  "follow 0 fs k = None"
| "follow (Suc n) fs k = (case node_of fs k of Some (Symlink t _) \<Rightarrow> follow n fs t | _ \<Rightarrow> Some k)"

definition fs_resolve :: "file_sys \<Rightarrow> string \<Rightarrow> key option" where
  "fs_resolve fs p = follow 40 fs (path_key p)"

definition fs_stat :: "file_sys \<Rightarrow> string \<Rightarrow> node option" where
  "fs_stat fs p = (case fs_resolve fs p of Some k \<Rightarrow> node_of fs k | None \<Rightarrow> None)"

definition fs_exists :: "file_sys \<Rightarrow> string \<Rightarrow> bool" where
  "fs_exists fs p \<longleftrightarrow> fs_stat fs p \<noteq> None"

definition fs_is_dir :: "file_sys \<Rightarrow> string \<Rightarrow> bool" where
  "fs_is_dir fs p \<longleftrightarrow> (case fs_stat fs p of Some (Directory _) \<Rightarrow> True | _ \<Rightarrow> False)"

definition fs_is_file :: "file_sys \<Rightarrow> string \<Rightarrow> bool" where
  "fs_is_file fs p \<longleftrightarrow> (case fs_stat fs p of Some (RegFile _) \<Rightarrow> True | _ \<Rightarrow> False)"

definition ino_content :: "file_sys \<Rightarrow> nat \<Rightarrow> bytes" where
  "ino_content fs i = (case hm_get (inodes fs) i of Some n \<Rightarrow> content n | None \<Rightarrow> [])"

definition ino_mtime :: "file_sys \<Rightarrow> nat \<Rightarrow> int" where
  "ino_mtime fs i = (case hm_get (inodes fs) i of Some n \<Rightarrow> mtime n | None \<Rightarrow> 0)"

definition meta_len :: "file_sys \<Rightarrow> node \<Rightarrow> nat" where
  "meta_len fs n = (case n of RegFile i \<Rightarrow> length (ino_content fs i) | Directory _ \<Rightarrow> dir_size fs
     | Symlink t _ \<Rightarrow> length (concat (snd t)))"

definition meta_modified :: "file_sys \<Rightarrow> node \<Rightarrow> int" where
  "meta_modified fs n = (case n of RegFile i \<Rightarrow> ino_mtime fs i | Directory t \<Rightarrow> t | Symlink _ t \<Rightarrow> t)"

text \<open>\<open>duration_since(UNIX_EPOCH)\<close> fails before the epoch.\<close>

definition since_epoch :: "int \<Rightarrow> nat option" where
  "since_epoch t = (if 0 \<le> t then Some (nat t) else None)"

definition as_secs :: "nat \<Rightarrow> nat" where
  "as_secs d = d div 10 ^ 9"

text \<open>The regular file an entry denotes, and the contents of the one a path denotes.\<close>

definition key_file :: "file_sys \<Rightarrow> key \<Rightarrow> inode option" where
  "key_file fs k =
     (case node_of fs k of Some (RegFile i) \<Rightarrow> Some \<lparr>content = ino_content fs i, mtime = ino_mtime fs i\<rparr> | _ \<Rightarrow> None)"

definition fs_content :: "file_sys \<Rightarrow> string \<Rightarrow> bytes option" where
  "fs_content fs p = (case fs_stat fs p of Some (RegFile i) \<Rightarrow> Some (ino_content fs i) | _ \<Rightarrow> None)"

section \<open>Operations\<close>

definition is_directory :: "file_sys \<Rightarrow> key \<Rightarrow> bool" where
  "is_directory fs k \<longleftrightarrow> (case node_of fs k of Some (Directory _) \<Rightarrow> True | _ \<Rightarrow> False)"

definition file_open :: "string \<Rightarrow> file_sys \<Rightarrow> error_kind + file_handle" where
  "file_open p fs =
     (case fs_resolve fs p of
        None \<Rightarrow> Inl Other
      | Some k \<Rightarrow>
          if k \<in> set (denied fs) then Inl PermissionDenied
          else (case node_of fs k of
            Some (RegFile i) \<Rightarrow> Inr \<lparr>h_ino = Some i, h_pos = 0, h_read = True, h_write = False\<rparr>
          | Some (Directory _) \<Rightarrow> Inr \<lparr>h_ino = None, h_pos = 0, h_read = True, h_write = False\<rparr>
          | _ \<Rightarrow> Inl NotFound))"

text \<open>Opening for writing, with or without truncation; a missing file is created.\<close>

definition file_open_write :: "bool \<Rightarrow> string \<Rightarrow> file_sys \<Rightarrow> (error_kind + file_handle) \<times> file_sys" where
  "file_open_write trunc p fs =
     (case fs_resolve fs p of
        None \<Rightarrow> (Inl Other, fs)
      | Some k \<Rightarrow>
          if k \<in> set (denied fs) then (Inl PermissionDenied, fs)
          else (case node_of fs k of
            Some (RegFile i) \<Rightarrow>
              (Inr \<lparr>h_ino = Some i, h_pos = 0, h_read = False, h_write = True\<rparr>,
               if trunc then fs\<lparr>inodes := hm_insert i \<lparr>content = [], mtime = clock fs\<rparr> (inodes fs)\<rparr> else fs)
          | Some (Directory _) \<Rightarrow> (Inl IsADirectory, fs)
          | Some (Symlink _ _) \<Rightarrow> (Inl Other, fs)
          | None \<Rightarrow>
              if is_directory fs (key_parent k) then
                (Inr \<lparr>h_ino = Some (next_ino fs), h_pos = 0, h_read = False, h_write = True\<rparr>,
                 fs\<lparr>names := hm_insert k (RegFile (next_ino fs)) (names fs),
                    inodes := hm_insert (next_ino fs) \<lparr>content = [], mtime = clock fs\<rparr> (inodes fs),
                    next_ino := next_ino fs + 1\<rparr>)
              else (Inl NotFound, fs)))"

definition file_create :: "string \<Rightarrow> file_sys \<Rightarrow> (error_kind + file_handle) \<times> file_sys" where
  "file_create = file_open_write True"

text \<open>Bytes at a position: a gap beyond the end is filled with zeros.\<close>

definition splice :: "nat \<Rightarrow> bytes \<Rightarrow> bytes \<Rightarrow> bytes" where
  "splice pos data c =
     take pos (c @ replicate (pos - length c) 0) @ data @ drop (pos + length data) c"

definition file_write_all :: "bytes \<Rightarrow> file_handle \<Rightarrow> file_sys \<Rightarrow> (error_kind + file_handle) \<times> file_sys" where
  "file_write_all data h fs =
     (case h_ino h of
        Some i \<Rightarrow>
          if data = [] then (Inr h, fs)
          else if h_write h then
            (Inr (h\<lparr>h_pos := h_pos h + length data\<rparr>),
             fs\<lparr>inodes := hm_insert i \<lparr>content = splice (h_pos h) data (ino_content fs i), mtime = clock fs\<rparr> (inodes fs)\<rparr>)
          else (Inl BadDescriptor, fs)
      | None \<Rightarrow> (Inl BadDescriptor, fs))"

text \<open>One \<open>read\<close> of at most \<open>n\<close> bytes; \<open>limit\<close> is what the system returns at most.\<close>

definition file_read :: "nat \<Rightarrow> nat \<Rightarrow> file_handle \<Rightarrow> file_sys \<Rightarrow> error_kind + bytes \<times> file_handle" where
  "file_read limit n h fs =
     (case h_ino h of
        Some i \<Rightarrow>
          if h_read h then
            (let d = take (min limit n) (drop (h_pos h) (ino_content fs i))
             in Inr (d, h\<lparr>h_pos := h_pos h + length d\<rparr>))
          else Inl BadDescriptor
      | None \<Rightarrow> Inl IsADirectory)"

definition file_seek :: "nat \<Rightarrow> file_handle \<Rightarrow> file_handle option" where
  "file_seek off h = (if off < 2 ^ 63 then Some (h\<lparr>h_pos := off\<rparr>) else None)"

definition fs_remove_file :: "string \<Rightarrow> file_sys \<Rightarrow> (error_kind + unit) \<times> file_sys" where
  "fs_remove_file p fs =
     (let k = path_key p in
      if k \<in> set (denied fs) then (Inl PermissionDenied, fs)
      else case node_of fs k of
        None \<Rightarrow> (Inl NotFound, fs)
      | Some (Directory _) \<Rightarrow> (Inl IsADirectory, fs)
      | Some _ \<Rightarrow> (Inr (), fs\<lparr>names := hm_remove k (names fs)\<rparr>))"

definition children :: "file_sys \<Rightarrow> key \<Rightarrow> (string \<times> node) list" where
  "children fs k =
     List.map_filter (\<lambda>(k', n). if snd k' \<noteq> [] \<and> key_parent k' = k then Some (last (snd k'), n) else None) (names fs)"

definition fs_remove_dir :: "string \<Rightarrow> file_sys \<Rightarrow> (error_kind + unit) \<times> file_sys" where
  "fs_remove_dir p fs =
     (let k = path_key p in
      if k \<in> set (denied fs) \<or> snd k = [] then (Inl PermissionDenied, fs)
      else case node_of fs k of
        None \<Rightarrow> (Inl NotFound, fs)
      | Some (Directory _) \<Rightarrow>
          if children fs k = [] then (Inr (), fs\<lparr>names := hm_remove k (names fs)\<rparr>)
          else (Inl DirectoryNotEmpty, fs)
      | Some _ \<Rightarrow> (Inl NotADirectory, fs))"

text \<open>
  \<open>rename\<close> replaces the target: a file or link may replace a file or link, a directory an
  empty directory; a directory takes what is below it along.
\<close>

definition move_key :: "key \<Rightarrow> key \<Rightarrow> key \<Rightarrow> key" where
  "move_key a b k = (if under a k then (fst b, snd b @ drop (length (snd a)) (snd k)) else k)"

definition fs_rename :: "string \<Rightarrow> string \<Rightarrow> file_sys \<Rightarrow> (error_kind + unit) \<times> file_sys" where
  "fs_rename p q fs =
     (let a = path_key p; b = path_key q in
      if a \<in> set (denied fs) \<or> b \<in> set (denied fs) \<or> snd a = [] \<or> snd b = [] then (Inl PermissionDenied, fs)
      else case node_of fs a of
        None \<Rightarrow> (Inl NotFound, fs)
      | Some (Directory t) \<Rightarrow>
          if a = b then (Inr (), fs)
          else if under a b then (Inl InvalidInput, fs)
          else if \<not> is_directory fs (key_parent b) then (Inl NotFound, fs)
          else (case node_of fs b of
              Some (Directory _) \<Rightarrow>
                if children fs b = [] then
                  (Inr (), fs\<lparr>names := map (\<lambda>(k, n). (move_key a b k, n)) (hm_remove b (names fs))\<rparr>)
                else (Inl DirectoryNotEmpty, fs)
            | Some _ \<Rightarrow> (Inl NotADirectory, fs)
            | None \<Rightarrow> (Inr (), fs\<lparr>names := map (\<lambda>(k, n). (move_key a b k, n)) (names fs)\<rparr>))
      | Some n \<Rightarrow>
          if a = b then (Inr (), fs)
          else if is_directory fs b then (Inl IsADirectory, fs)
          else if \<not> is_directory fs (key_parent b) then (Inl NotFound, fs)
          else (Inr (), fs\<lparr>names := hm_insert b n (hm_remove a (names fs))\<rparr>))"

definition fs_set_mtime :: "string \<Rightarrow> int \<Rightarrow> file_sys \<Rightarrow> file_sys" where
  "fs_set_mtime p t fs =
     (case fs_resolve fs p of
        None \<Rightarrow> fs
      | Some k \<Rightarrow>
          (case node_of fs k of
             Some (RegFile i) \<Rightarrow> fs\<lparr>inodes := hm_insert i \<lparr>content = ino_content fs i, mtime = t\<rparr> (inodes fs)\<rparr>
           | Some (Directory _) \<Rightarrow> if snd k = [] then fs else fs\<lparr>names := hm_insert k (Directory t) (names fs)\<rparr>
           | _ \<Rightarrow> fs))"

text \<open>\<open>create_dir_all\<close>: every missing ancestor from the top; stops where a file is in the way.\<close>

fun make_dirs :: "bool \<Rightarrow> string list \<Rightarrow> string list \<Rightarrow> file_sys \<Rightarrow> (error_kind + unit) \<times> file_sys" where
  "make_dirs a acc [] fs = (Inr (), fs)"
| "make_dirs a acc (c # cs) fs =
     (let k = (a, acc @ [c]) in
      case node_of fs k of
        Some (Directory _) \<Rightarrow> make_dirs a (acc @ [c]) cs fs
      | Some _ \<Rightarrow> (Inl NotADirectory, fs)
      | None \<Rightarrow>
          if k \<in> set (denied fs) then (Inl PermissionDenied, fs)
          else make_dirs a (acc @ [c]) cs (fs\<lparr>names := hm_insert k (Directory (clock fs)) (names fs)\<rparr>))"

definition fs_create_dir_all :: "string \<Rightarrow> file_sys \<Rightarrow> (error_kind + unit) \<times> file_sys" where
  "fs_create_dir_all p fs = make_dirs (fst (path_key p)) [] (snd (path_key p)) fs"

text \<open>\<open>fs::write\<close> and \<open>read_to_string\<close> as bytes.\<close>

definition fs_write :: "string \<Rightarrow> bytes \<Rightarrow> file_sys \<Rightarrow> (error_kind + unit) \<times> file_sys" where
  "fs_write p data fs =
     (case file_create p fs of
        (Inl e, fs) \<Rightarrow> (Inl e, fs)
      | (Inr h, fs) \<Rightarrow> (case file_write_all data h fs of (Inl e, fs) \<Rightarrow> (Inl e, fs) | (Inr _, fs) \<Rightarrow> (Inr (), fs)))"

definition fs_read :: "string \<Rightarrow> file_sys \<Rightarrow> bytes option" where
  "fs_read p fs =
     (case file_open p fs of
        Inr h \<Rightarrow> map_option (ino_content fs) (h_ino h)
      | Inl _ \<Rightarrow> None)"

section \<open>Keys of paths\<close>

definition simple_name :: "string \<Rightarrow> bool" where
  "simple_name c \<longleftrightarrow> c \<noteq> '''' \<and> c \<noteq> ''.'' \<and> c \<noteq> ''..'' \<and> CHR ''/'' \<notin> set c"

lemma split_char_snoc: "c \<notin> set b \<Longrightarrow> split_char c (a @ c # b) = split_char c a @ [b]"
proof (induction a)
  case (Cons x xs)
  then show ?case by (cases "split_char c xs") auto
qed (simp add: split_char_absent)

lemma path_comps_snoc: "simple_name c \<Longrightarrow> path_comps (d @ CHR ''/'' # c) = path_comps d @ [c]"
  by (auto simp: path_comps_def split_char_snoc simple_name_def)

lemma path_comps_single: "simple_name c \<Longrightarrow> path_comps c = [c]"
  by (auto simp: path_comps_def split_char_absent simple_name_def)

lemma starts_with_slash [simp]: "starts_with s ''/'' \<longleftrightarrow> s \<noteq> [] \<and> hd s = CHR ''/''"
  by (cases s) (auto simp: starts_with_def)

lemma path_key_snoc:
  assumes "simple_name c"
  shows "path_key (d @ CHR ''/'' # c) = (fst (path_key (d @ ''/'')), snd (path_key (d @ ''/'')) @ [c])"
proof -
  have "path_comps (d @ ''/'') = path_comps d"
    by (simp add: path_comps_def split_char_snoc)
  moreover have "c \<noteq> ''..''" using assms by (simp add: simple_name_def)
  moreover have "starts_with (d @ CHR ''/'' # c) ''/'' = starts_with (d @ ''/'') ''/''" by (cases d) simp_all
  ultimately show ?thesis
    by (simp only: path_key_def Let_def path_comps_snoc [OF assms] foldl_append foldl.simps fst_conv snd_conv)
       (simp add: resolve_step_def)
qed

lemma path_comps_slash: "path_comps (''/'' @ p) = path_comps p"
  by (simp add: path_comps_def)

lemma path_comps_slashes: "c \<in> set (path_comps p) \<Longrightarrow> CHR ''/'' \<notin> set c \<and> c \<noteq> '''' \<and> c \<noteq> ''.''"
  by (auto simp: path_comps_def dest: split_char_pieces)

lemma path_comps_join:
  "\<forall>c \<in> set cs. CHR ''/'' \<notin> set c \<and> c \<noteq> '''' \<and> c \<noteq> ''.'' \<Longrightarrow> path_comps (join_char CHR ''/'' cs) = cs"
proof (induction cs)
  case Nil
  then show ?case by (simp add: path_comps_def)
next
  case (Cons c cs)
  show ?case
  proof (cases cs)
    case Nil
    with Cons.prems show ?thesis by (simp add: path_comps_def split_char_absent)
  next
    case (Cons d ds)
    then have "join_char CHR ''/'' (c # cs) = c @ CHR ''/'' # join_char CHR ''/'' cs" by simp
    with Cons.IH Cons.prems show ?thesis by (simp add: path_comps_def split_char_append)
  qed
qed

lemma path_parent_snoc:
  assumes "simple_name c"
  shows "\<exists>pp. path_parent (d @ CHR ''/'' # c) = Some pp \<and> path_key pp = path_key (d @ ''/'')"
proof -
  let ?cs = "path_comps d" and ?a = "starts_with (d @ ''/'') ''/''"
  let ?pp = "(if ?a then ''/'' else '''') @ join_char CHR ''/'' ?cs"
  have abs: "starts_with (d @ CHR ''/'' # c) ''/'' = ?a" by (cases d) simp_all
  have comps: "path_comps (join_char CHR ''/'' ?cs) = ?cs"
    by (rule path_comps_join) (use path_comps_slashes in blast)
  have pc: "path_comps ?pp = ?cs"
    using comps by (cases ?a) (simp_all only: path_comps_slash if_True if_False append_Nil)
  have "\<not> starts_with (join_char CHR ''/'' ?cs) ''/''"
  proof (cases ?cs)
    case (Cons e es)
    then have "e \<in> set ?cs" by simp
    then have "e \<noteq> []" "CHR ''/'' \<notin> set e" using path_comps_slashes [of e d] by simp_all
    then show ?thesis using Cons by (cases es; cases e) auto
  qed simp
  then have "starts_with ?pp ''/'' = ?a" by simp
  moreover have "path_comps (d @ ''/'') = ?cs"
    by (simp add: path_comps_def split_char_snoc)
  ultimately have "path_key ?pp = path_key (d @ ''/'')"
    by (simp only: path_key_def Let_def pc)
  moreover have "path_parent (d @ CHR ''/'' # c) = Some ?pp"
    unfolding path_parent_def path_comps_snoc [OF assms] abs by simp
  ultimately show ?thesis by blast
qed

lemma simple_name_suffix:
  "\<lbrakk>simple_name c; CHR ''/'' \<notin> set s\<rbrakk> \<Longrightarrow> simple_name (c @ s)"
  unfolding simple_name_def by (cases s; cases c) (auto simp: append_eq_Cons_conv)

section \<open>The abstract view of a set of entries\<close>

text \<open>
  \<open>key_content\<close> is the abstraction: which entries are regular files and what they contain.
  \<open>tidy K fs\<close> says that the entries \<open>K\<close> can be used as files: no two entries share an inode, no
  member of \<open>K\<close> is a directory, a link or denied, nothing but directories is above them, and
  those that exist are in a directory.
\<close>

definition inodes_ok :: "file_sys \<Rightarrow> bool" where
  "inodes_ok fs \<longleftrightarrow>
     (\<forall>k i. node_of fs k = Some (RegFile i) \<longrightarrow> i < next_ino fs) \<and>
     (\<forall>k k' i. node_of fs k = Some (RegFile i) \<longrightarrow> node_of fs k' = Some (RegFile i) \<longrightarrow> k = k')"

definition file_or_absent :: "node option \<Rightarrow> bool" where
  "file_or_absent n \<longleftrightarrow> (case n of None \<Rightarrow> True | Some (RegFile _) \<Rightarrow> True | _ \<Rightarrow> False)"

definition dir_or_absent :: "node option \<Rightarrow> bool" where
  "dir_or_absent n \<longleftrightarrow> (case n of None \<Rightarrow> True | Some (Directory _) \<Rightarrow> True | _ \<Rightarrow> False)"

definition above :: "key \<Rightarrow> key \<Rightarrow> bool" where
  "above k k' \<longleftrightarrow> fst k = fst k' \<and> strict_prefix (snd k) (snd k')"

definition antichain :: "key set \<Rightarrow> bool" where
  "antichain K \<longleftrightarrow> (\<forall>k \<in> K. \<forall>k' \<in> K. \<not> above k k')"

definition tidy :: "key set \<Rightarrow> file_sys \<Rightarrow> bool" where
  "tidy K fs \<longleftrightarrow> inodes_ok fs \<and>
     (\<forall>k \<in> K. snd k \<noteq> [] \<and> k \<notin> set (denied fs) \<and> file_or_absent (node_of fs k)) \<and>
     (\<forall>k \<in> K. \<forall>a. above a k \<longrightarrow> a \<notin> set (denied fs) \<and> dir_or_absent (node_of fs a)) \<and>
     (\<forall>k \<in> K. node_of fs k \<noteq> None \<longrightarrow> is_directory fs (key_parent k))"

lemma inodes_okD:
  "\<lbrakk>inodes_ok fs; node_of fs k = Some (RegFile i)\<rbrakk> \<Longrightarrow> i < next_ino fs"
  "\<lbrakk>inodes_ok fs; node_of fs k = Some (RegFile i); node_of fs k' = Some (RegFile i)\<rbrakk> \<Longrightarrow> k = k'"
  unfolding inodes_ok_def by blast+

lemma inodes_okI:
  assumes "\<And>k i. node_of fs k = Some (RegFile i) \<Longrightarrow> i < next_ino fs"
    "\<And>k k' i. \<lbrakk>node_of fs k = Some (RegFile i); node_of fs k' = Some (RegFile i)\<rbrakk> \<Longrightarrow> k = k'"
  shows "inodes_ok fs"
  unfolding inodes_ok_def using assms by blast

text \<open>Changing the node of one entry.\<close>

lemma inodes_ok_upd:
  assumes "inodes_ok fs" "\<And>k'. node_of fs' k' = (if k' = k then n else node_of fs k')" "next_ino fs \<le> next_ino fs'"
    "\<And>i. n = Some (RegFile i) \<Longrightarrow> i < next_ino fs' \<and> (\<forall>k'. k' \<noteq> k \<longrightarrow> node_of fs k' \<noteq> Some (RegFile i))"
  shows "inodes_ok fs'"
proof (rule inodes_okI)
  fix k1 i assume "node_of fs' k1 = Some (RegFile i)"
  then show "i < next_ino fs'"
    using assms(2) [of k1] assms(3) assms(4) [of i] inodes_okD(1) [OF assms(1), of k1 i] by (cases "k1 = k") simp_all
next
  fix k1 k2 i assume *: "node_of fs' k1 = Some (RegFile i)" "node_of fs' k2 = Some (RegFile i)"
  show "k1 = k2"
  proof (cases "k1 = k \<or> k2 = k")
    case True
    with * assms(2) [of k1] assms(2) [of k2] have "n = Some (RegFile i)" by (auto split: if_splits)
    with assms(4) * assms(2) [of k1] assms(2) [of k2] True show ?thesis by (metis (full_types))
  next
    case False
    with * show ?thesis using assms(2) [of k1] assms(2) [of k2] inodes_okD(2) [OF assms(1)] by simp
  qed
qed

lemma tidyD:
  "\<lbrakk>tidy K fs; k \<in> K\<rbrakk> \<Longrightarrow> snd k \<noteq> []" "\<lbrakk>tidy K fs; k \<in> K\<rbrakk> \<Longrightarrow> k \<notin> set (denied fs)"
  "\<lbrakk>tidy K fs; k \<in> K\<rbrakk> \<Longrightarrow> file_or_absent (node_of fs k)"
  "tidy K fs \<Longrightarrow> inodes_ok fs"
  by (auto simp: tidy_def)

text \<open>Entries of \<open>K\<close> other than \<open>k\<close> are left alone.\<close>

definition agrees :: "key set \<Rightarrow> key \<Rightarrow> file_sys \<Rightarrow> file_sys \<Rightarrow> bool" where
  "agrees K k fs fs' \<longleftrightarrow>
     (\<forall>k' \<in> K. k' \<noteq> k \<longrightarrow> node_of fs' k' = node_of fs k' \<and> key_file fs' k' = key_file fs k')"

lemma agrees_trans: "\<lbrakk>agrees K k fs fs1; agrees K k fs1 fs2\<rbrakk> \<Longrightarrow> agrees K k fs fs2"
  by (simp add: agrees_def)

lemma agrees_refl [simp]: "agrees K k fs fs"
  by (simp add: agrees_def)

lemma agreesD: "\<lbrakk>agrees K k fs fs'; k' \<in> K; k' \<noteq> k\<rbrakk> \<Longrightarrow> key_file fs' k' = key_file fs k' \<and> node_of fs' k' = node_of fs k'"
  by (simp add: agrees_def)

lemma node_of_insert [simp]:
  "snd k \<noteq> [] \<Longrightarrow> node_of (fs\<lparr>names := hm_insert k n (names fs)\<rparr>) k' = (if k' = k then Some n else node_of fs k')"
  by (auto simp: node_of_def)

lemma node_of_remove [simp]:
  "snd k \<noteq> [] \<Longrightarrow> node_of (fs\<lparr>names := hm_remove k (names fs)\<rparr>) k' = (if k' = k then None else node_of fs k')"
  by (auto simp: node_of_def)

lemma node_of_inodes [simp]:
  "node_of (fs\<lparr>inodes := m\<rparr>) k = node_of fs k" "node_of (fs\<lparr>next_ino := i\<rparr>) k = node_of fs k"
  by (simp_all add: node_of_def)

lemma file_or_absent_cases:
  assumes "file_or_absent n"
  obtains "n = None" | i where "n = Some (RegFile i)"
  using assms by (auto simp: file_or_absent_def split: option.splits node.splits)

lemma file_or_absent_simps [simp]: "file_or_absent None" "file_or_absent (Some (RegFile i))"
  by (simp_all add: file_or_absent_def)

lemma dir_or_absent_simps [simp]: "dir_or_absent None" "dir_or_absent (Some (Directory t))" "\<not> dir_or_absent (Some (RegFile i))"
  by (simp_all add: dir_or_absent_def)

lemma key_file_simps:
  "node_of fs k = None \<Longrightarrow> key_file fs k = None"
  "node_of fs k = Some (RegFile i) \<Longrightarrow> key_file fs k = Some \<lparr>content = ino_content fs i, mtime = ino_mtime fs i\<rparr>"
  by (simp_all add: key_file_def)

lemma tidy_resolve:
  assumes "tidy K fs" "path_key p \<in> K"
  shows "fs_resolve fs p = Some (path_key p)"
proof -
  from tidyD(3) [OF assms] have "follow (Suc 39) fs (path_key p) = Some (path_key p)"
    unfolding follow.simps by (cases rule: file_or_absent_cases) simp_all
  then show ?thesis by (simp add: fs_resolve_def eval_nat_numeral)
qed

lemma tidy_stat: "\<lbrakk>tidy K fs; path_key p \<in> K\<rbrakk> \<Longrightarrow> fs_stat fs p = node_of fs (path_key p)"
  by (simp add: fs_stat_def tidy_resolve)

lemma tidy_content: "\<lbrakk>tidy K fs; path_key p \<in> K\<rbrakk> \<Longrightarrow> fs_content fs p = map_option content (key_file fs (path_key p))"
  by (auto simp: fs_content_def key_file_def tidy_stat split: option.splits node.splits)

lemma tidy_node:
  assumes "tidy K fs" "k \<in> K"
  obtains "node_of fs k = None" "key_file fs k = None"
    | i where "node_of fs k = Some (RegFile i)" "key_file fs k = Some \<lparr>content = ino_content fs i, mtime = ino_mtime fs i\<rparr>"
proof -
  from tidyD(3) [OF assms] show thesis
    by (cases rule: file_or_absent_cases) (use that key_file_simps in metis)+
qed

lemma tidy_exists:
  assumes "tidy K fs" "path_key p \<in> K"
  shows "fs_exists fs p \<longleftrightarrow> key_file fs (path_key p) \<noteq> None"
  using assms by (cases rule: tidy_node) (simp_all add: fs_exists_def tidy_stat [OF assms])

lemma tidy_above: "\<lbrakk>tidy K fs; k \<in> K; above a k\<rbrakk> \<Longrightarrow> a \<notin> set (denied fs) \<and> dir_or_absent (node_of fs a)"
  unfolding tidy_def by blast

lemma tidy_parent: "\<lbrakk>tidy K fs; k \<in> K; node_of fs k \<noteq> None\<rbrakk> \<Longrightarrow> is_directory fs (key_parent k)"
  unfolding tidy_def by blast

lemma above_parent: "snd k \<noteq> [] \<Longrightarrow> above (key_parent k) k"
  by (auto simp: above_def key_parent_def strict_prefix_def prefix_def) (metis append_butlast_last_id, metis append_butlast_last_id append_self_conv not_Cons_self2)

lemma tidyI:
  assumes "tidy K fs" "inodes_ok fs'" "denied fs' = denied fs"
    "\<And>k. k \<in> K \<Longrightarrow> file_or_absent (node_of fs' k)"
    "\<And>k a. \<lbrakk>k \<in> K; above a k; dir_or_absent (node_of fs a); a \<notin> K\<rbrakk> \<Longrightarrow> dir_or_absent (node_of fs' a)"
    "antichain K"
    "\<And>k. \<lbrakk>k \<in> K; node_of fs' k \<noteq> None; key_parent k \<notin> K\<rbrakk> \<Longrightarrow> is_directory fs' (key_parent k)"
  shows "tidy K fs'"
  unfolding tidy_def
proof (intro conjI ballI allI impI)
  fix k a assume ka: "k \<in> K" "above a k"
  then have "a \<notin> K" using assms(6) by (auto simp: antichain_def)
  with ka show "dir_or_absent (node_of fs' a)" using assms(5) tidy_above [OF assms(1) ka] by blast
  show "a \<notin> set (denied fs')" using tidy_above [OF assms(1) ka] assms(3) by simp
next
  fix k assume k: "k \<in> K" "node_of fs' k \<noteq> None"
  with above_parent [OF tidyD(1) [OF assms(1) k(1)]] assms(6) have "key_parent k \<notin> K" by (auto simp: antichain_def)
  with k show "is_directory fs' (key_parent k)" by (rule assms(7))
qed (use assms(2-4) tidyD [OF assms(1)] in auto)

lemma tidy_upd:
  assumes "tidy K fs" "antichain K" "k \<in> K" "\<And>k'. node_of fs' k' = (if k' = k then n else node_of fs k')"
    "file_or_absent n" "next_ino fs \<le> next_ino fs'" "denied fs' = denied fs"
    "\<And>i. n = Some (RegFile i) \<Longrightarrow> i < next_ino fs' \<and> (\<forall>k'. k' \<noteq> k \<longrightarrow> node_of fs k' \<noteq> Some (RegFile i))"
    "n \<noteq> None \<Longrightarrow> is_directory fs (key_parent k)"
  shows "tidy K fs'"
proof (rule tidyI [OF assms(1) _ assms(7)])
  show "inodes_ok fs'" by (rule inodes_ok_upd [OF tidyD(4) [OF assms(1)] assms(4,6,8)])
  fix k' assume k': "k' \<in> K" "node_of fs' k' \<noteq> None" "key_parent k' \<notin> K"
  have "is_directory fs (key_parent k')"
    using k'(2) assms(4) [of k'] assms(9) tidy_parent [OF assms(1) k'(1)] by (cases "k' = k") simp_all
  then show "is_directory fs' (key_parent k')"
    using k'(3) assms(3,4) by (auto simp: is_directory_def)
qed (use assms(3-5) tidyD(3) [OF assms(1)] assms(2) in auto)

lemma key_file_cong:
  assumes "node_of fs' k = node_of fs k"
    "\<And>i. node_of fs k = Some (RegFile i) \<Longrightarrow> hm_get (inodes fs') i = hm_get (inodes fs) i"
  shows "key_file fs' k = key_file fs k"
  using assms by (simp add: key_file_def ino_content_def ino_mtime_def split: option.splits node.splits)

lemma agreesI:
  assumes "\<And>k'. \<lbrakk>k' \<in> K; k' \<noteq> k\<rbrakk> \<Longrightarrow> node_of fs' k' = node_of fs k'"
    "\<And>k' i. \<lbrakk>k' \<noteq> k; node_of fs k' = Some (RegFile i)\<rbrakk> \<Longrightarrow> hm_get (inodes fs') i = hm_get (inodes fs) i"
  shows "agrees K k fs fs'"
  unfolding agrees_def using assms key_file_cong by blast

text \<open>Removing a file.\<close>

lemma remove_file_tidy:
  assumes "tidy K fs" "antichain K" "path_key p \<in> K" "fs_remove_file p fs = (r, fs')"
  shows "tidy K fs'" "key_file fs' (path_key p) = None" "agrees K (path_key p) fs fs'"
    "key_file fs (path_key p) \<noteq> None \<Longrightarrow> r = Inr ()" "clock fs' = clock fs"
proof -
  let ?k = "path_key p"
  define fs1 where "fs1 = fs\<lparr>names := hm_remove ?k (names fs)\<rparr>"
  note k = tidyD(1-3) [OF assms(1,3)]
  have node: "node_of fs1 k' = (if k' = ?k then None else node_of fs k')" for k'
    unfolding fs1_def by (rule node_of_remove [OF k(1)])
  have tidy: "tidy K fs1"
    by (rule tidy_upd [OF assms(1-3) node]) (simp_all add: fs1_def)
  have agr: "agrees K ?k fs fs1" by (rule agreesI) (simp_all add: node, simp add: fs1_def)
  have none: "key_file fs1 ?k = None" by (rule key_file_simps) (simp add: node)
  have cases: "(\<exists>i. node_of fs ?k = Some (RegFile i) \<and> r = Inr () \<and> fs' = fs1) \<or> (node_of fs ?k = None \<and> fs' = fs)"
    using k(3) by (cases rule: file_or_absent_cases) (use assms(4) k in \<open>auto simp: fs_remove_file_def Let_def fs1_def\<close>)
  show "tidy K fs'" "key_file fs' ?k = None" "agrees K ?k fs fs'"
    "key_file fs ?k \<noteq> None \<Longrightarrow> r = Inr ()" "clock fs' = clock fs"
    using cases tidy agr none assms(1) by (auto simp: key_file_simps) (simp add: fs1_def)
qed

text \<open>Opening for writing: the entry exists afterwards and the handle is on its inode.\<close>

lemma open_write_tidy:
  assumes "tidy K fs" "antichain K" "path_key p \<in> K" "is_directory fs (key_parent (path_key p))"
  obtains i fs' where
    "file_open_write trunc p fs = (Inr \<lparr>h_ino = Some i, h_pos = 0, h_read = False, h_write = True\<rparr>, fs')"
    "tidy K fs'" "agrees K (path_key p) fs fs'" "node_of fs' (path_key p) = Some (RegFile i)" "clock fs' = clock fs"
    "map_option content (key_file fs' (path_key p)) =
       Some (if trunc then [] else case key_file fs (path_key p) of Some n \<Rightarrow> content n | None \<Rightarrow> [])"
proof -
  let ?k = "path_key p"
  note k = tidyD(1-3) [OF assms(1,3)]
  note ok = tidyD(4) [OF assms(1)]
  have res: "fs_resolve fs p = Some ?k" by (rule tidy_resolve [OF assms(1,3)])
  from k(3) show thesis
  proof (cases rule: file_or_absent_cases)
    case 1
    define fs1 where "fs1 = fs\<lparr>names := hm_insert ?k (RegFile (next_ino fs)) (names fs),
       inodes := hm_insert (next_ino fs) \<lparr>content = [], mtime = clock fs\<rparr> (inodes fs), next_ino := next_ino fs + 1\<rparr>"
    have node: "node_of fs1 k' = (if k' = ?k then Some (RegFile (next_ino fs)) else node_of fs k')" for k'
      using k(1) by (simp add: node_of_def fs1_def)
    have less: "i < next_ino fs" if "node_of fs k' = Some (RegFile i)" for k' i
      using inodes_okD(1) [OF ok that] .
    have tidy: "tidy K fs1"
      by (rule tidy_upd [OF assms(1-3) node]) (use less assms(4) in \<open>auto simp: fs1_def\<close>)
    have agr: "agrees K ?k fs fs1"
    proof (rule agreesI)
      fix k' i assume "node_of fs k' = Some (RegFile i)"
      from less [OF this] show "hm_get (inodes fs1) i = hm_get (inodes fs) i" by (simp add: fs1_def)
    qed (simp add: node)
    have "key_file fs ?k = None" using 1 by (rule key_file_simps)
    moreover have "map_option content (key_file fs1 ?k) = Some []"
      by (simp add: key_file_def node) (simp add: fs1_def ino_content_def)
    moreover have "file_open_write trunc p fs = (Inr \<lparr>h_ino = Some (next_ino fs), h_pos = 0, h_read = False, h_write = True\<rparr>, fs1)"
      using 1 k res assms(4) by (simp add: file_open_write_def fs1_def)
    ultimately show thesis using that [of "next_ino fs" fs1] node tidy agr by (simp add: fs1_def)
  next
    case (2 i)
    define fs1 where "fs1 = (if trunc then fs\<lparr>inodes := hm_insert i \<lparr>content = [], mtime = clock fs\<rparr> (inodes fs)\<rparr> else fs)"
    have node: "node_of fs1 k' = (if k' = ?k then Some (RegFile i) else node_of fs k')" for k'
      using 2 by (simp add: fs1_def)
    have other: "node_of fs k' \<noteq> Some (RegFile i)" if "k' \<noteq> ?k" for k'
      using inodes_okD(2) [OF ok 2, of k'] that by auto
    have tidy: "tidy K fs1"
      by (rule tidy_upd [OF assms(1-3) node])
        (use other inodes_okD(1) [OF ok 2] assms(4) in \<open>auto simp: fs1_def\<close>)
    have agr: "agrees K ?k fs fs1"
    proof (rule agreesI)
      fix k' i' assume "k' \<noteq> ?k" "node_of fs k' = Some (RegFile i')"
      with other [of k'] have "i' \<noteq> i" by auto
      then show "hm_get (inodes fs1) i' = hm_get (inodes fs) i'" by (simp add: fs1_def)
    qed (simp add: node)
    have "file_open_write trunc p fs = (Inr \<lparr>h_ino = Some i, h_pos = 0, h_read = False, h_write = True\<rparr>, fs1)"
      using 2 k res by (simp add: file_open_write_def fs1_def)
    moreover have "map_option content (key_file fs1 ?k) =
       Some (if trunc then [] else case key_file fs ?k of Some n \<Rightarrow> content n | None \<Rightarrow> [])"
      using 2 by (simp add: key_file_def node) (simp add: fs1_def ino_content_def)
    ultimately show thesis using that [of i fs1] node tidy agr by (simp add: fs1_def)
  qed
qed

text \<open>Writing through a handle on an entry's inode.\<close>

definition handle_on :: "file_sys \<Rightarrow> key \<Rightarrow> file_handle \<Rightarrow> bool" where
  "handle_on fs k h \<longleftrightarrow> (\<exists>i. h_ino h = Some i \<and> node_of fs k = Some (RegFile i))"

lemma write_all_tidy:
  assumes "tidy K fs" "antichain K" "k \<in> K" "handle_on fs k h" "h_write h"
    "map_option content (key_file fs k) = Some c"
  obtains fs' where "file_write_all data h fs = (Inr (h\<lparr>h_pos := h_pos h + length data\<rparr>), fs')"
    "tidy K fs'" "agrees K k fs fs'" "handle_on fs' k h" "clock fs' = clock fs"
    "map_option content (key_file fs' k) = Some (if data = [] then c else splice (h_pos h) data c)"
proof -
  from assms(4) obtain i where i: "h_ino h = Some i" "node_of fs k = Some (RegFile i)" by (auto simp: handle_on_def)
  note ok = tidyD(4) [OF assms(1)]
  have c: "ino_content fs i = c" using assms(6) i by (simp add: key_file_simps)
  define fs1 where "fs1 = (if data = [] then fs
     else fs\<lparr>inodes := hm_insert i \<lparr>content = splice (h_pos h) data c, mtime = clock fs\<rparr> (inodes fs)\<rparr>)"
  have node: "node_of fs1 k' = (if k' = k then Some (RegFile i) else node_of fs k')" for k'
    using i by (simp add: fs1_def)
  have other: "node_of fs k' \<noteq> Some (RegFile i)" if "k' \<noteq> k" for k'
    using inodes_okD(2) [OF ok i(2), of k'] that by auto
  have tidy: "tidy K fs1"
    by (rule tidy_upd [OF assms(1-3) node])
      (use other inodes_okD(1) [OF ok i(2)] tidy_parent [OF assms(1,3)] i(2) in \<open>auto simp: fs1_def\<close>)
  have agr: "agrees K k fs fs1"
  proof (rule agreesI)
    fix k' i' assume "k' \<noteq> k" "node_of fs k' = Some (RegFile i')"
    with other [of k'] have "i' \<noteq> i" by auto
    then show "hm_get (inodes fs1) i' = hm_get (inodes fs) i'" by (simp add: fs1_def)
  qed (simp add: node)
  have "file_write_all data h fs = (Inr (h\<lparr>h_pos := h_pos h + length data\<rparr>), fs1)"
    using i assms(5) c by (simp add: file_write_all_def fs1_def)
  moreover have "map_option content (key_file fs1 k) = Some (if data = [] then c else splice (h_pos h) data c)"
    using c by (simp add: key_file_def node) (simp add: fs1_def ino_content_def)
  moreover have "handle_on fs1 k h" using i by (simp add: handle_on_def node)
  ultimately show thesis using that [of fs1] tidy agr by (simp add: fs1_def)
qed

text \<open>Renaming a file over another entry.\<close>

definition agrees2 :: "key set \<Rightarrow> key \<Rightarrow> key \<Rightarrow> file_sys \<Rightarrow> file_sys \<Rightarrow> bool" where
  "agrees2 K k1 k2 fs fs' \<longleftrightarrow>
     (\<forall>k' \<in> K. k' \<noteq> k1 \<longrightarrow> k' \<noteq> k2 \<longrightarrow> node_of fs' k' = node_of fs k' \<and> key_file fs' k' = key_file fs k')"

lemma rename_tidy:
  assumes "tidy K fs" "antichain K" "path_key p \<in> K" "path_key q \<in> K" "path_key p \<noteq> path_key q"
    "is_directory fs (key_parent (path_key q))" "key_file fs (path_key p) = Some f"
  obtains fs' where "fs_rename p q fs = (Inr (), fs')"
    "tidy K fs'" "agrees2 K (path_key p) (path_key q) fs fs'" "clock fs' = clock fs"
    "key_file fs' (path_key p) = None" "key_file fs' (path_key q) = Some f"
proof -
  let ?a = "path_key p" and ?b = "path_key q"
  note a = tidyD(1-3) [OF assms(1,3)] and b = tidyD(1-3) [OF assms(1,4)]
  note ok = tidyD(4) [OF assms(1)]
  from assms(1,3,7) obtain i where i: "node_of fs ?a = Some (RegFile i)" "key_file fs ?a = Some f"
    by (cases rule: tidy_node) auto
  define fs0 where "fs0 = fs\<lparr>names := hm_remove ?a (names fs)\<rparr>"
  define fs1 where "fs1 = fs0\<lparr>names := hm_insert ?b (RegFile i) (names fs0)\<rparr>"
  have node0: "node_of fs0 k' = (if k' = ?a then None else node_of fs k')" for k'
    unfolding fs0_def by (rule node_of_remove [OF a(1)])
  have node1: "node_of fs1 k' = (if k' = ?b then Some (RegFile i) else node_of fs0 k')" for k'
    unfolding fs1_def by (rule node_of_insert [OF b(1)])
  have other: "node_of fs0 k' \<noteq> Some (RegFile i)" for k'
    using inodes_okD(2) [OF ok i(1), of k'] by (auto simp: node0)
  have ino: "inodes fs1 = inodes fs" "next_ino fs1 = next_ino fs" "clock fs1 = clock fs"
    by (simp_all add: fs1_def fs0_def)
  have tidy0: "tidy K fs0" by (rule tidy_upd [OF assms(1-3) node0]) (simp_all add: fs0_def)
  have "tidy K fs1"
  proof (rule tidy_upd [OF tidy0 assms(2,4) node1])
    have "key_parent ?b \<noteq> ?a"
      using above_parent [OF b(1)] assms(2-4) by (auto simp: antichain_def)
    with assms(6) show "is_directory fs0 (key_parent ?b)" by (simp add: is_directory_def node0)
  qed (use other inodes_okD(1) [OF ok i(1)] in \<open>auto simp: fs1_def fs0_def\<close>)
  moreover have "agrees2 K ?a ?b fs fs1"
    unfolding agrees2_def by (auto simp: node1 node0 ino intro!: key_file_cong)
  moreover have "is_directory fs ?b = False"
    using b(3) by (cases rule: file_or_absent_cases) (simp_all add: is_directory_def)
  then have "fs_rename p q fs = (Inr (), fs1)"
    using a(1,2) b(1,2) i(1) assms(5,6) by (simp add: fs_rename_def Let_def fs1_def fs0_def)
  moreover have "key_file fs1 ?a = None" by (rule key_file_simps) (use assms(5) in \<open>simp add: node1 node0\<close>)
  moreover have "key_file fs1 ?b = key_file fs ?a"
    using i(1) by (simp add: key_file_def node1) (simp add: ino_content_def ino_mtime_def ino)
  ultimately show thesis using that [of fs1] i ino by simp
qed

lemma rename_absent:
  assumes "tidy K fs" "path_key p \<in> K" "key_file fs (path_key p) = None"
  shows "snd (fs_rename p q fs) = fs"
  using assms(1,2) by (cases rule: tidy_node) (use assms(3) in \<open>auto simp: fs_rename_def Let_def\<close>)

text \<open>Setting the modification time.\<close>

lemma set_mtime_tidy:
  assumes "tidy K fs" "antichain K" "path_key p \<in> K"
  shows "tidy K (fs_set_mtime p t fs)" "agrees K (path_key p) fs (fs_set_mtime p t fs)"
    "node_of (fs_set_mtime p t fs) (path_key p) = node_of fs (path_key p)"
    "key_file (fs_set_mtime p t fs) (path_key p) = map_option (mtime_update (\<lambda>_. t)) (key_file fs (path_key p))"
    "clock (fs_set_mtime p t fs) = clock fs"
proof -
  let ?k = "path_key p"
  note ok = tidyD(4) [OF assms(1)]
  have res: "fs_resolve fs p = Some ?k" by (rule tidy_resolve [OF assms(1,3)])
  define fs1 where "fs1 = fs_set_mtime p t fs"
  from assms(1,3) have "tidy K fs1 \<and> agrees K ?k fs fs1 \<and> node_of fs1 ?k = node_of fs ?k \<and>
      key_file fs1 ?k = map_option (mtime_update (\<lambda>_. t)) (key_file fs ?k) \<and> clock fs1 = clock fs"
  proof (cases rule: tidy_node)
    case 1
    then have "fs1 = fs" by (simp add: fs1_def fs_set_mtime_def res)
    with 1 assms(1) show ?thesis by simp
  next
    case (2 i)
    then have fs1: "fs1 = fs\<lparr>inodes := hm_insert i \<lparr>content = ino_content fs i, mtime = t\<rparr> (inodes fs)\<rparr>"
      by (simp add: fs1_def fs_set_mtime_def res)
    have node: "node_of fs1 k' = (if k' = ?k then Some (RegFile i) else node_of fs k')" for k'
      using 2 by (simp add: fs1)
    have other: "node_of fs k' \<noteq> Some (RegFile i)" if "k' \<noteq> ?k" for k'
      using inodes_okD(2) [OF ok 2(1), of k'] that by auto
    have "tidy K fs1"
      by (rule tidy_upd [OF assms node])
        (use other inodes_okD(1) [OF ok 2(1)] tidy_parent [OF assms(1,3)] 2(1) in \<open>auto simp: fs1\<close>)
    moreover have "agrees K ?k fs fs1"
    proof (rule agreesI)
      fix k' i' assume "k' \<noteq> ?k" "node_of fs k' = Some (RegFile i')"
      with other [of k'] have "i' \<noteq> i" by auto
      then show "hm_get (inodes fs1) i' = hm_get (inodes fs) i'" by (simp add: fs1)
    qed (simp add: node)
    moreover have "key_file fs1 ?k = map_option (mtime_update (\<lambda>_. t)) (key_file fs ?k)"
      using 2 by (simp add: key_file_def) (simp add: fs1 ino_content_def ino_mtime_def)
    ultimately show ?thesis using 2 by (simp add: fs1)
  qed
  then show "tidy K (fs_set_mtime p t fs)" "agrees K (path_key p) fs (fs_set_mtime p t fs)"
    "node_of (fs_set_mtime p t fs) (path_key p) = node_of fs (path_key p)"
    "key_file (fs_set_mtime p t fs) (path_key p) = map_option (mtime_update (\<lambda>_. t)) (key_file fs (path_key p))"
    "clock (fs_set_mtime p t fs) = clock fs"
    by (simp_all add: fs1_def)
qed

text \<open>Creating the directories above a member of \<open>K\<close>.\<close>

lemma above_simps: "above (a, p) (a, p @ c # cs)"
  by (auto simp: above_def strict_prefix_def)

lemma make_dirs_tidy:
  assumes "tidy K fs" "antichain K" "(a, acc @ cs @ [n]) \<in> K" "is_directory fs (a, acc)"
  obtains fs' where "make_dirs a acc cs fs = (Inr (), fs')" "tidy K fs'" "is_directory fs' (a, acc @ cs)"
    "\<And>k. k \<in> K \<Longrightarrow> node_of fs' k = node_of fs k \<and> key_file fs' k = key_file fs k" "clock fs' = clock fs"
  using assms
proof (induction cs arbitrary: acc fs thesis)
  case Nil
  then show ?case by simp
next
  case (Cons c cs)
  let ?k = "(a, acc @ [c])"
  have above: "above ?k (a, acc @ (c # cs) @ [n])"
    using above_simps [of a "acc @ [c]" "hd (cs @ [n])" "tl (cs @ [n])"] by simp
  have k: "?k \<notin> set (denied fs)" "dir_or_absent (node_of fs ?k)"
    using tidy_above [OF Cons.prems(2,4) above] by simp_all
  have notK: "?k \<notin> K" using above Cons.prems(3,4) by (auto simp: antichain_def)
  define fs1 where "fs1 = (if node_of fs ?k = None then fs\<lparr>names := hm_insert ?k (Directory (clock fs)) (names fs)\<rparr> else fs)"
  obtain t where node: "node_of fs1 k' = (if k' = ?k then Some (Directory t) else node_of fs k')" for k'
  proof (cases "node_of fs ?k")
    case None
    then show thesis using that [of "clock fs"] by (simp add: fs1_def)
  next
    case (Some nd)
    with k(2) obtain t where "nd = Directory t" by (auto simp: dir_or_absent_def split: node.splits)
    then show thesis using that [of t] Some by (simp add: fs1_def)
  qed
  have ino: "inodes fs1 = inodes fs" "denied fs1 = denied fs" "next_ino fs1 = next_ino fs" "clock fs1 = clock fs"
    by (simp_all add: fs1_def)
  have "tidy K fs1"
  proof (rule tidyI [OF Cons.prems(2) _ ino(2) _ _ Cons.prems(3)])
    show "inodes_ok fs1" by (rule inodes_ok_upd [OF tidyD(4) [OF Cons.prems(2)] node]) (simp_all add: ino)
    show "file_or_absent (node_of fs1 k')" if "k' \<in> K" for k'
      using that notK tidyD(3) [OF Cons.prems(2) that] by (auto simp: node)
    show "dir_or_absent (node_of fs1 a')" if "dir_or_absent (node_of fs a')" for a'
      using that by (simp add: node)
    show "is_directory fs1 (key_parent k')" if "k' \<in> K" "node_of fs1 k' \<noteq> None" for k'
      using tidy_parent [OF Cons.prems(2) that(1)] that(2) notK that(1) by (auto simp: is_directory_def node split: if_splits)
  qed
  moreover have "is_directory fs1 ?k" by (simp add: is_directory_def node)
  moreover have "(a, (acc @ [c]) @ cs @ [n]) \<in> K" using Cons.prems(4) by simp
  ultimately obtain fs' where fs': "make_dirs a (acc @ [c]) cs fs1 = (Inr (), fs')" "tidy K fs'"
      "is_directory fs' (a, (acc @ [c]) @ cs)"
      "\<And>k. k \<in> K \<Longrightarrow> node_of fs' k = node_of fs1 k \<and> key_file fs' k = key_file fs1 k" "clock fs' = clock fs1"
    using Cons.IH [of "acc @ [c]" fs1] Cons.prems(3) by blast
  have same: "node_of fs1 k = node_of fs k \<and> key_file fs1 k = key_file fs k" if "k \<in> K" for k
    using that notK by (auto simp: node ino intro!: key_file_cong)
  have "make_dirs a acc (c # cs) fs = make_dirs a (acc @ [c]) cs fs1"
    using k by (auto simp: Let_def fs1_def dir_or_absent_def split: option.splits node.splits)
  then show thesis
    using Cons.prems(1) [of fs'] fs' same ino(4) by simp
qed

lemma create_dir_all_tidy:
  assumes "tidy K fs" "antichain K" "(fst (path_key pp), snd (path_key pp) @ [n]) \<in> K"
  obtains fs' where "fs_create_dir_all pp fs = (Inr (), fs')" "tidy K fs'" "is_directory fs' (path_key pp)"
    "\<And>k. k \<in> K \<Longrightarrow> node_of fs' k = node_of fs k \<and> key_file fs' k = key_file fs k" "clock fs' = clock fs"
proof -
  have "is_directory fs (fst (path_key pp), [])" by (simp add: is_directory_def node_of_def)
  with make_dirs_tidy [OF assms(1,2), of "fst (path_key pp)" "[]" "snd (path_key pp)" n] assms(3)
  show thesis using that by (auto simp: fs_create_dir_all_def)
qed

end
