(* ===== verification/File_Transfer.thy ===== *)
theory File_Transfer
  imports File_System
begin

text \<open>
  The file-transfer jobs of \<open>libs/hbb_common/src/fs.rs\<close>: directory listings, \<open>TransferJob\<close> with
  its reading and writing side, the overwrite and resume handshake, and the job queue.  The
  file system is that of \<open>File_System\<close>.  The zstd codec and the JSON text of a digest are
  arguments (\<open>ext_funs\<close>); so are the sizes of the chunks in which the system serves reads.
  Messages to the peer are appended to \<open>sent\<close>; a connection that breaks refuses further
  sends.  An operation that can panic returns an option.
\<close>

section \<open>Data\<close>

datatype transfer_err = Bail string | Io error_kind

datatype FileType = FDir | FDirLink | FDirDrive | FFile | FFileLink

record FileEntry =
  entry_type :: FileType
  fe_name :: string
  is_hidden :: bool
  fsize :: nat
  modified_time :: nat

definition FileEntry_default :: FileEntry where
  "FileEntry_default = \<lparr>entry_type = FDir, fe_name = [], is_hidden = False, fsize = 0, modified_time = 0\<rparr>"

record FileDirectory =
  dir_id :: int
  dir_path :: string
  entries :: "FileEntry list"

datatype JobType = Generic | Printer

datatype DataSource = FilePath string | MemoryCursor bytes nat

datatype DataStream = FileStream file_handle | BufStream bytes nat

record FileDigest =
  dg_size :: nat
  dg_modified :: nat

record TransferJob =
  job_id :: int
  job_type :: JobType
  remote :: string
  data_source :: DataSource
  show_hidden :: bool
  is_remote :: bool
  is_last_job :: bool
  is_resume :: bool
  file_num :: int
  files :: "FileEntry list"
  conn_id :: int
  data_stream :: "DataStream option"
  total_size :: nat
  finished_size :: nat
  transferred :: nat
  enable_overwrite_detection :: bool
  file_confirmed :: bool
  file_skipped :: bool
  file_is_waiting :: bool
  default_overwrite_strategy :: "bool option"
  digest :: FileDigest

record TransferJobMeta =
  meta_id :: int
  meta_remote :: string
  meta_to :: string
  meta_show_hidden :: bool
  meta_file_num :: int
  meta_is_remote :: bool

record FileTransferBlock =
  blk_id :: int
  blk_file_num :: int
  blk_data :: bytes
  blk_compressed :: bool

record FileTransferDigest =
  ftd_id :: int
  ftd_file_num :: int
  ftd_last_modified :: nat
  ftd_file_size :: nat
  ftd_is_upload :: bool
  ftd_is_identical :: bool
  ftd_transferred_size :: nat
  ftd_is_resume :: bool

definition FileTransferDigest_default :: FileTransferDigest where
  "FileTransferDigest_default = \<lparr>ftd_id = 0, ftd_file_num = 0, ftd_last_modified = 0, ftd_file_size = 0,
     ftd_is_upload = False, ftd_is_identical = False, ftd_transferred_size = 0, ftd_is_resume = False\<rparr>"

datatype confirm_union = Skip bool | OffsetBlk nat

record FileTransferSendConfirmRequest =
  req_id :: int
  req_file_num :: int
  req_union :: "confirm_union option"

datatype Message =
    MsgError int transfer_err int
  | MsgDir FileDirectory
  | MsgEmptyDirs string "FileDirectory list"
  | MsgBlock FileTransferBlock
  | MsgDigest FileTransferDigest
  | MsgDone int int
  | MsgSendConfirm FileTransferSendConfirmRequest
  | MsgReceive int string int "FileEntry list" nat
  | MsgSend int string int bool JobType

text \<open>The codec and the JSON text of a digest.\<close>

record ext_funs =
  zstd_compress :: "bytes \<Rightarrow> bytes option"
  zstd_decode_all :: "bytes \<Rightarrow> bytes option"
  digest_to_json :: "FileDigest \<Rightarrow> bytes"
  digest_from_json :: "bytes \<Rightarrow> FileDigest option"

definition compress :: "ext_funs \<Rightarrow> bytes \<Rightarrow> bytes" where
  "compress x data = (case zstd_compress x data of Some res \<Rightarrow> res | None \<Rightarrow> [])"

definition decompress :: "ext_funs \<Rightarrow> bytes \<Rightarrow> bytes" where
  "decompress x data = (case zstd_decode_all x data of Some res \<Rightarrow> res | None \<Rightarrow> [])"

text \<open>The peer's stream: what was sent, and after how many more sends it breaks.\<close>

record net =
  sent :: "Message list"
  breaks_after :: "nat option"

definition net_send :: "Message \<Rightarrow> net \<Rightarrow> (transfer_err + unit) \<times> net" where
  "net_send m s =
     (case breaks_after s of
        Some 0 \<Rightarrow> (Inl (Io Other), s)
      | Some (Suc n) \<Rightarrow> (Inr (), s\<lparr>sent := sent s @ [m], breaks_after := Some n\<rparr>)
      | None \<Rightarrow> (Inr (), s\<lparr>sent := sent s @ [m]\<rparr>))"

section \<open>Job identifiers and job types\<close>

definition get_next_job_id :: "int \<Rightarrow> int \<times> int" where
  "get_next_job_id next = (next, add_i32 next 1)"

definition update_next_job_id :: "int \<Rightarrow> int \<Rightarrow> int" where
  "update_next_job_id i next = i"

definition JobType_from :: "int \<Rightarrow> JobType" where
  "JobType_from v = (if v = 0 then Generic else if v = 1 then Printer else Generic)"

fun JobType_into :: "JobType \<Rightarrow> int" where
  "JobType_into Generic = 0"
| "JobType_into Printer = 1"

section \<open>Listing directories\<close>

definition get_file_name :: "string \<Rightarrow> string" where
  "get_file_name p = (case path_file_name p of Some n \<Rightarrow> n | None \<Rightarrow> '''')"

definition modified_secs :: "file_sys \<Rightarrow> node \<Rightarrow> nat" where
  "modified_secs fs n = (case since_epoch (meta_modified fs n) of Some d \<Rightarrow> as_secs d | None \<Rightarrow> 0)"

definition dir_entry :: "string \<Rightarrow> bool \<Rightarrow> file_sys \<Rightarrow> string \<times> node \<Rightarrow> FileEntry option" where
  "dir_entry path include_hidden fs cn =
     (let p = path_join path (fst cn); name = get_file_name p; meta = snd cn in
      if name = '''' then None
      else
        let hidden = starts_with name ''.'';
            link = (case meta of Symlink _ _ \<Rightarrow> True | _ \<Rightarrow> False)
        in if hidden \<and> \<not> include_hidden then None
           else
             let (t, sz) = (if fs_is_dir fs p then (if link then (FDirLink, 0) else (FDir, 0))
                            else if link then (FFileLink, 0) else (FFile, meta_len fs meta))
             in Some \<lparr>entry_type = t, fe_name = get_file_name p, is_hidden = hidden, fsize = sz,
                      modified_time = modified_secs fs meta\<rparr>)"

definition read_dir :: "string \<Rightarrow> bool \<Rightarrow> file_sys \<Rightarrow> error_kind + FileDirectory" where
  "read_dir path include_hidden fs =
     (case fs_resolve fs path of
        None \<Rightarrow> Inl Other
      | Some k \<Rightarrow>
          if k \<in> set (denied fs) then Inl PermissionDenied
          else (case node_of fs k of
            Some (Directory _) \<Rightarrow>
              Inr \<lparr>dir_id = 0, dir_path = path, entries = List.map_filter (dir_entry path include_hidden fs) (children fs k)\<rparr>
          | Some _ \<Rightarrow> Inl NotADirectory
          | None \<Rightarrow> Inl NotFound))"

text \<open>The recursions descend one component at a time; \<open>fuel\<close> bounds the depth.\<close>

fun read_dir_recursive :: "nat \<Rightarrow> string \<Rightarrow> string \<Rightarrow> bool \<Rightarrow> file_sys \<Rightarrow> transfer_err + FileEntry list" where
  "read_dir_recursive 0 path pre include_hidden fs = Inl (Io Other)"
| "read_dir_recursive (Suc fuel) path pre include_hidden fs =
     (if fs_is_dir fs path then
        (case read_dir path include_hidden fs of
           Inl e \<Rightarrow> Inl (Io e)
         | Inr fd \<Rightarrow>
             Inr (concat (map (\<lambda>e.
               case entry_type e of
                 FFile \<Rightarrow> [e\<lparr>fe_name := path_join pre (fe_name e)\<rparr>]
               | FDir \<Rightarrow>
                   (case read_dir_recursive fuel (path_join path (fe_name e)) (path_join pre (fe_name e)) include_hidden fs of
                      Inr tmp \<Rightarrow> tmp | Inl _ \<Rightarrow> [])
               | _ \<Rightarrow> []) (entries fd))))
      else
        (case fs_stat fs path of
           Some (RegFile i) \<Rightarrow>
             Inr [FileEntry_default\<lparr>entry_type := FFile, fsize := meta_len fs (RegFile i),
                    modified_time := modified_secs fs (RegFile i)\<rparr>]
         | _ \<Rightarrow> Inl (Bail ''Not exists'')))"

fun read_empty_dirs_recursive :: "nat \<Rightarrow> string \<Rightarrow> string \<Rightarrow> bool \<Rightarrow> file_sys \<Rightarrow> transfer_err + FileDirectory list" where
  "read_empty_dirs_recursive 0 path pre include_hidden fs = Inl (Io Other)"
| "read_empty_dirs_recursive (Suc fuel) path pre include_hidden fs =
     (if fs_is_dir fs path then
        (case read_dir path include_hidden fs of
           Inl e \<Rightarrow> Inl (Io e)
         | Inr fd \<Rightarrow>
             Inr (if entries fd = [] then [fd]
                  else concat (map (\<lambda>e.
                    case entry_type e of
                      FDir \<Rightarrow>
                        (case read_empty_dirs_recursive fuel (path_join path (fe_name e)) (path_join pre (fe_name e)) include_hidden fs of
                           Inr tmp \<Rightarrow> tmp | Inl _ \<Rightarrow> [])
                    | _ \<Rightarrow> []) (entries fd))))
      else if fs_is_file fs path then Inr []
      else Inl (Bail ''Not exists''))"

definition fs_depth :: "file_sys \<Rightarrow> nat" where
  "fs_depth fs = fold max (map (\<lambda>(k, _). length (snd k)) (names fs)) 0"

definition get_recursive_files :: "string \<Rightarrow> bool \<Rightarrow> file_sys \<Rightarrow> transfer_err + FileEntry list" where
  "get_recursive_files path include_hidden fs = read_dir_recursive (fs_depth fs + 2) path '''' include_hidden fs"

definition get_empty_dirs_recursive :: "string \<Rightarrow> bool \<Rightarrow> file_sys \<Rightarrow> transfer_err + FileDirectory list" where
  "get_empty_dirs_recursive path include_hidden fs = read_empty_dirs_recursive (fs_depth fs + 2) path '''' include_hidden fs"

section \<open>Jobs\<close>

definition TransferJob_default :: TransferJob where
  "TransferJob_default = \<lparr>job_id = 0, job_type = Generic, remote = [], data_source = FilePath [],
     show_hidden = False, is_remote = False, is_last_job = False, is_resume = False, file_num = 0, files = [],
     conn_id = 0, data_stream = None, total_size = 0, finished_size = 0, transferred = 0,
     enable_overwrite_detection = False, file_confirmed = False, file_skipped = False,
     file_is_waiting = False, default_overwrite_strategy = None, digest = \<lparr>dg_size = 0, dg_modified = 0\<rparr>\<rparr>"

definition get_ext :: "string \<Rightarrow> string" where
  "get_ext name = (if CHR ''.'' \<in> set name then rev (takeWhile (\<lambda>c. c \<noteq> CHR ''.'') (rev name)) else '''')"

definition is_compressed_file :: "string \<Rightarrow> bool" where
  "is_compressed_file name \<longleftrightarrow>
     get_ext name \<in> set [''xz'', ''gz'', ''zip'', ''7z'', ''rar'', ''bz2'', ''tgz'', ''png'', ''jpg'']"

definition sum_sizes :: "FileEntry list \<Rightarrow> nat" where
  "sum_sizes fs = sum_list (map fsize fs) mod 2 ^ 64"

definition new_write :: "int \<Rightarrow> JobType \<Rightarrow> string \<Rightarrow> DataSource \<Rightarrow> int \<Rightarrow> bool \<Rightarrow> bool \<Rightarrow> FileEntry list \<Rightarrow> bool \<Rightarrow> TransferJob" where
  "new_write i t r src n hidden rem fs od =
     TransferJob_default\<lparr>job_id := i, job_type := t, remote := r, data_source := src, file_num := n,
       show_hidden := hidden, is_remote := rem, files := fs, total_size := sum_sizes fs,
       enable_overwrite_detection := od\<rparr>"

definition new_read :: "int \<Rightarrow> JobType \<Rightarrow> string \<Rightarrow> DataSource \<Rightarrow> int \<Rightarrow> bool \<Rightarrow> bool \<Rightarrow> bool \<Rightarrow> file_sys \<Rightarrow> transfer_err + TransferJob" where
  "new_read i t r src n hidden rem od fs =
     (let mk = (\<lambda>fl total. TransferJob_default\<lparr>job_id := i, job_type := t, remote := r, data_source := src,
                  file_num := n, show_hidden := hidden, is_remote := rem, files := fl, total_size := total,
                  enable_overwrite_detection := od\<rparr>)
      in case src of
           FilePath p \<Rightarrow>
             (case get_recursive_files p hidden fs of
                Inl e \<Rightarrow> Inl e
              | Inr fl \<Rightarrow> Inr (mk fl (sum_sizes fl)))
         | MemoryCursor buf _ \<Rightarrow> Inr (mk [] (length buf)))"

definition get_buf_data :: "TransferJob \<Rightarrow> bytes option" where
  "get_buf_data j = (case data_stream j of Some (BufStream buf _) \<Rightarrow> Some buf | _ \<Rightarrow> None)"

definition set_files :: "FileEntry list \<Rightarrow> TransferJob \<Rightarrow> TransferJob" where
  "set_files fl j = j\<lparr>files := fl\<rparr>"

definition set_digest :: "nat \<Rightarrow> nat \<Rightarrow> TransferJob \<Rightarrow> TransferJob" where
  "set_digest sz modified j = j\<lparr>digest := \<lparr>dg_size = sz, dg_modified = modified\<rparr>\<rparr>"

definition job_join :: "string \<Rightarrow> string \<Rightarrow> string" where
  "job_join p name = (if name = '''' then p else path_join p name)"

definition download_path :: "string \<Rightarrow> string" where
  "download_path path = path @ ''.download''"

definition digest_path :: "string \<Rightarrow> string" where
  "digest_path path = path @ ''.digest''"

definition modify_time :: "TransferJob \<Rightarrow> file_sys \<Rightarrow> file_sys" where
  "modify_time j fs =
     (if job_type j = Printer then fs
      else case data_source j of
        FilePath p \<Rightarrow>
          (let n = i32_as_usize (file_num j) in
           if n < length (files j) then
             (let entry = files j ! n;
                  path = job_join p (fe_name entry);
                  fs = snd (fs_remove_file (digest_path path) fs);
                  fs = snd (fs_rename (download_path path) path fs)
              in fs_set_mtime path (u64_as_i64 (modified_time entry) * 10 ^ 9) fs)
           else fs)
      | MemoryCursor _ _ \<Rightarrow> fs)"

definition remove_download_file :: "TransferJob \<Rightarrow> file_sys \<Rightarrow> file_sys" where
  "remove_download_file j fs =
     (if job_type j = Printer then fs
      else case data_source j of
        FilePath p \<Rightarrow>
          (let n = i32_as_usize (file_num j) in
           if n < length (files j) then
             (let path = job_join p (fe_name (files j ! n));
                  fs = snd (fs_remove_file (download_path path) fs)
              in snd (fs_remove_file (digest_path path) fs))
           else fs)
      | MemoryCursor _ _ \<Rightarrow> fs)"

definition set_finished_size_on_resume :: "TransferJob \<Rightarrow> TransferJob" where
  "set_finished_size_on_resume j =
     (if is_resume j \<and> file_num j > 0
      then j\<lparr>finished_size := sum_sizes (take (i32_as_usize (file_num j)) (files j))\<rparr>
      else j)"

section \<open>Receiving\<close>

definition stream_write_all :: "bytes \<Rightarrow> DataStream \<Rightarrow> file_sys \<Rightarrow> (error_kind + DataStream) \<times> file_sys" where
  "stream_write_all data s fs =
     (case s of
        FileStream h \<Rightarrow>
          (case file_write_all data h fs of
             (Inl e, fs) \<Rightarrow> (Inl e, fs)
           | (Inr h, fs) \<Rightarrow> (Inr (FileStream h), fs))
      | BufStream buf pos \<Rightarrow> (Inr (BufStream (splice pos data buf) (pos + length data)), fs))"

text \<open>The stream a block goes to: a new \<open>.download\<close> file when the block starts another file.\<close>

definition write_open :: "ext_funs \<Rightarrow> FileTransferBlock \<Rightarrow> TransferJob \<Rightarrow> file_sys \<Rightarrow> (transfer_err + unit) \<times> TransferJob \<times> file_sys" where
  "write_open x b j fs =
     (case data_source j of
        FilePath p \<Rightarrow>
          (let n = i32_as_usize (blk_file_num b) in
           if n \<ge> length (files j) then (Inl (Bail ''Wrong file number''), j, fs)
           else if n \<noteq> i32_as_usize (file_num j) \<or> data_stream j = None then
             (let fs = modify_time j fs;
                  j = j\<lparr>file_num := blk_file_num b\<rparr>;
                  file_path = job_join p (fe_name (files j ! n));
                  printer = (job_type j = Printer);
                  path = (if printer then p else download_path file_path);
                  fs = (if printer then fs
                        else case path_parent file_path of Some pp \<Rightarrow> snd (fs_create_dir_all pp fs) | None \<Rightarrow> fs);
                  (r, fs) = (if \<not> printer \<and> fs_exists fs (digest_path file_path)
                             then fs_remove_file (digest_path file_path) fs else (Inr (), fs))
              in case r of
                   Inl e \<Rightarrow> (Inl (Io e), j, fs)
                 | Inr _ \<Rightarrow>
                     (case file_create path fs of
                        (Inl e, fs) \<Rightarrow> (Inl (Io e), j, fs)
                      | (Inr h, fs) \<Rightarrow>
                          (let fs = (if printer then fs
                                     else snd (fs_write (digest_path file_path) (digest_to_json x (digest j)) fs))
                           in (Inr (), j\<lparr>data_stream := Some (FileStream h)\<rparr>, fs))))
           else (Inr (), j, fs))
      | MemoryCursor buf pos \<Rightarrow>
          (Inr (), if data_stream j = None then j\<lparr>data_stream := Some (BufStream buf pos)\<rparr> else j, fs))"

definition write_data :: "ext_funs \<Rightarrow> FileTransferBlock \<Rightarrow> TransferJob \<Rightarrow> file_sys \<Rightarrow> (transfer_err + unit) \<times> TransferJob \<times> file_sys" where
  "write_data x b j fs =
     (let data = (if blk_compressed b then decompress x (blk_data b) else blk_data b) in
      case data_stream j of
        None \<Rightarrow> (Inl (Bail (if blk_compressed b then ''data stream is None'' else ''file is None'')), j, fs)
      | Some s \<Rightarrow>
          (case stream_write_all data s fs of
             (Inl e, fs) \<Rightarrow> (Inl (Io e), j, fs)
           | (Inr s, fs) \<Rightarrow>
               (Inr (), j\<lparr>data_stream := Some s, finished_size := add_u64 (finished_size j) (length data),
                          transferred := add_u64 (transferred j) (length (blk_data b))\<rparr>, fs)))"

definition write_block :: "ext_funs \<Rightarrow> FileTransferBlock \<Rightarrow> TransferJob \<Rightarrow> file_sys \<Rightarrow> (transfer_err + unit) \<times> TransferJob \<times> file_sys" where
  "write_block x b j fs =
     (if blk_id b \<noteq> job_id j then (Inl (Bail ''Wrong id''), j, fs)
      else case write_open x b j fs of
        (Inl e, j, fs) \<Rightarrow> (Inl e, j, fs)
      | (Inr _, j, fs) \<Rightarrow> write_data x b j fs)"

section \<open>Sending\<close>

definition open_data_stream :: "TransferJob \<Rightarrow> file_sys \<Rightarrow> (transfer_err + bool) \<times> TransferJob" where
  "open_data_stream j fs =
     (let n = i32_as_usize (file_num j) in
      case data_source j of
        FilePath p \<Rightarrow>
          if n \<ge> length (files j) then (Inr True, j\<lparr>data_stream := None\<rparr>)
          else if data_stream j = None then
            (case file_open (job_join p (fe_name (files j ! n))) fs of
               Inr h \<Rightarrow> (Inr False, j\<lparr>data_stream := Some (FileStream h), file_confirmed := False, file_is_waiting := False\<rparr>)
             | Inl e \<Rightarrow> (Inl (Io e), j\<lparr>file_num := add_i32 (file_num j) 1, file_confirmed := False, file_is_waiting := False\<rparr>))
          else (Inr False, j)
      | MemoryCursor buf pos \<Rightarrow>
          (Inr False,
           if data_stream j = None then j\<lparr>data_source := MemoryCursor [] 0, data_stream := Some (BufStream buf pos)\<rparr> else j))"

definition get_current_digest :: "TransferJob \<Rightarrow> file_sys \<Rightarrow> transfer_err + nat \<times> nat" where
  "get_current_digest j fs =
     (case data_stream j of
        None \<Rightarrow> Inl (Bail ''file is None'')
      | Some (BufStream _ _) \<Rightarrow> Inl (Bail ''No digest for buf stream'')
      | Some (FileStream h) \<Rightarrow>
          (let meta = (case h_ino h of Some i \<Rightarrow> RegFile i | None \<Rightarrow> Directory 0) in
           case since_epoch (meta_modified fs meta) of
             None \<Rightarrow> Inl (Bail ''second time provided was later than self'')
           | Some d \<Rightarrow> Inr (as_secs d, meta_len fs meta)))"

definition send_current_digest :: "TransferJob \<Rightarrow> file_sys \<Rightarrow> net \<Rightarrow> (transfer_err + unit) \<times> net" where
  "send_current_digest j fs s =
     (case get_current_digest j fs of
        Inl e \<Rightarrow> (Inl e, s)
      | Inr (last_modified, file_size) \<Rightarrow>
          net_send (MsgDigest (FileTransferDigest_default\<lparr>ftd_id := job_id j, ftd_file_num := file_num j,
            ftd_last_modified := last_modified, ftd_file_size := file_size, ftd_is_resume := is_resume j\<rparr>)) s)"

definition needs_digest :: "TransferJob \<Rightarrow> bool" where
  "needs_digest j \<longleftrightarrow> job_type j = Generic \<and> enable_overwrite_detection j \<and> \<not> file_confirmed j \<and> \<not> file_is_waiting j"

definition init_data_stream :: "TransferJob \<Rightarrow> file_sys \<Rightarrow> net \<Rightarrow> (transfer_err + unit) \<times> TransferJob \<times> net" where
  "init_data_stream j fs s =
     (case open_data_stream j fs of
        (Inl e, j) \<Rightarrow> (Inl e, j, s)
      | (Inr True, j) \<Rightarrow> (Inr (), j, s)
      | (Inr False, j) \<Rightarrow>
          if needs_digest j then
            (case send_current_digest j fs s of
               (Inl e, s) \<Rightarrow> (Inl e, j, s)
             | (Inr _, s) \<Rightarrow> (Inr (), j\<lparr>file_is_waiting := True\<rparr>, s))
          else (Inr (), j, s))"

definition init_data_stream_for_cm :: "TransferJob \<Rightarrow> file_sys \<Rightarrow> (transfer_err + (nat \<times> nat) option) \<times> TransferJob" where
  "init_data_stream_for_cm j fs =
     (case open_data_stream j fs of
        (Inl e, j) \<Rightarrow> (Inl e, j)
      | (Inr True, j) \<Rightarrow> (Inr None, j)
      | (Inr False, j) \<Rightarrow>
          if needs_digest j then
            (case get_current_digest j fs of
               Inl e \<Rightarrow> (Inl e, j)
             | Inr d \<Rightarrow> (Inr (Some d), j\<lparr>file_is_waiting := True\<rparr>))
          else (Inr None, j))"

definition BUF_SIZE :: nat where
  "BUF_SIZE = 128 * 1024"

definition stream_read :: "nat \<Rightarrow> nat \<Rightarrow> DataStream \<Rightarrow> file_sys \<Rightarrow> error_kind + bytes \<times> DataStream" where
  "stream_read limit n s fs =
     (case s of
        FileStream h \<Rightarrow>
          (case file_read limit n h fs of Inl e \<Rightarrow> Inl e | Inr (d, h) \<Rightarrow> Inr (d, FileStream h))
      | BufStream buf pos \<Rightarrow>
          (let d = take (min limit n) (drop pos buf) in Inr (d, BufStream buf (pos + length d))))"

lemma stream_read_length: "stream_read limit n s fs = Inr (d, s') \<Longrightarrow> length d \<le> n"
  by (auto simp: stream_read_def file_read_def Let_def split: DataStream.splits option.splits if_splits)

text \<open>The loop of \<open>read\<close>: read until the buffer is full or a read returns nothing.\<close>

function read_fill :: "(nat \<Rightarrow> nat) \<Rightarrow> nat \<Rightarrow> file_sys \<Rightarrow> bytes \<Rightarrow> DataStream \<Rightarrow> error_kind + bytes \<times> DataStream" where
  "read_fill limits k fs buf s =
     (case stream_read (limits k) (BUF_SIZE - length buf) s fs of
        Inl e \<Rightarrow> Inl e
      | Inr (d, s') \<Rightarrow>
          if d = [] \<or> length buf + length d = BUF_SIZE then Inr (buf @ d, s')
          else read_fill limits (Suc k) fs (buf @ d) s')"
  by pat_completeness auto
termination
  by (relation "measure (\<lambda>(_, _, _, buf, _). BUF_SIZE - length buf)")
     (auto dest!: stream_read_length simp flip: length_greater_0_conv)

declare read_fill.simps [simp del]

definition next_file :: "TransferJob \<Rightarrow> TransferJob" where
  "next_file j = j\<lparr>file_num := add_i32 (file_num j) 1, data_stream := None, file_confirmed := False, file_is_waiting := False\<rparr>"

definition read_name :: "string \<Rightarrow> FileEntry list \<Rightarrow> nat \<Rightarrow> string" where
  "read_name p fl n = (if length fl = 1 \<and> fe_name (fl ! n) = '''' then get_file_name p else fe_name (fl ! n))"

definition read_block :: "ext_funs \<Rightarrow> (nat \<Rightarrow> nat) \<Rightarrow> TransferJob \<Rightarrow> file_sys \<Rightarrow> (transfer_err + FileTransferBlock option) \<times> TransferJob" where
  "read_block x limits j fs =
     (if job_type j = Generic \<and> enable_overwrite_detection j \<and> \<not> file_confirmed j then (Inr None, j)
      else
        let n = i32_as_usize (file_num j);
            finished = (case data_source j of FilePath _ \<Rightarrow> n \<ge> length (files j) | MemoryCursor _ _ \<Rightarrow> False)
        in if finished then (Inr None, j\<lparr>data_stream := None\<rparr>)
           else (case data_stream j of
             None \<Rightarrow> (Inl (Bail ''data stream is None''), j)
           | Some s \<Rightarrow>
               (case read_fill limits 0 fs [] s of
                  Inl e \<Rightarrow> (Inl (Io e), next_file j)
                | Inr (buf, s) \<Rightarrow>
                    if buf = [] then
                      (case data_source j of
                         MemoryCursor _ _ \<Rightarrow> (Inr None, j\<lparr>data_stream := None\<rparr>)
                       | FilePath _ \<Rightarrow>
                           (Inr (Some \<lparr>blk_id = job_id j, blk_file_num = usize_as_i32 n, blk_data = [], blk_compressed = False\<rparr>),
                            next_file j))
                    else
                      (let tmp = compress x buf;
                           compressed = (case data_source j of
                                           FilePath p \<Rightarrow> \<not> is_compressed_file (read_name p (files j) n) \<and> length tmp < length buf
                                         | MemoryCursor _ _ \<Rightarrow> False);
                           data = (if compressed then tmp else buf)
                       in (Inr (Some \<lparr>blk_id = job_id j, blk_file_num = usize_as_i32 n, blk_data = data, blk_compressed = compressed\<rparr>),
                           j\<lparr>data_stream := Some s, finished_size := add_u64 (finished_size j) (length buf),
                             transferred := add_u64 (transferred j) (length data)\<rparr>)))))"

section \<open>Confirmation, skipping and resuming\<close>

definition set_overwrite_strategy :: "bool option \<Rightarrow> TransferJob \<Rightarrow> TransferJob" where
  "set_overwrite_strategy st j = j\<lparr>default_overwrite_strategy := st\<rparr>"

definition set_file_confirmed :: "bool \<Rightarrow> TransferJob \<Rightarrow> TransferJob" where
  "set_file_confirmed c j = j\<lparr>file_confirmed := c, file_skipped := False\<rparr>"

definition job_skipped :: "TransferJob \<Rightarrow> bool" where
  "job_skipped j \<longleftrightarrow> file_skipped j \<and> length (files j) = 1"

definition job_completed :: "TransferJob \<Rightarrow> bool" where
  "job_completed j \<longleftrightarrow> \<not> enable_overwrite_detection j \<or> (\<not> file_confirmed j \<and> \<not> file_is_waiting j)"

definition job_error :: "TransferJob \<Rightarrow> string option" where
  "job_error j = (if job_skipped j then Some ''skipped'' else None)"

definition set_file_skipped :: "TransferJob \<Rightarrow> TransferJob" where
  "set_file_skipped j =
     (set_file_confirmed False (j\<lparr>data_stream := None\<rparr>))
       \<lparr>file_is_waiting := False, file_num := add_i32 (file_num j) 1, file_skipped := True\<rparr>"

text \<open>\<open>self.files[file_num]\<close> panics when the index is out of range.\<close>

definition set_stream_offset :: "nat \<Rightarrow> nat \<Rightarrow> TransferJob \<Rightarrow> file_sys \<Rightarrow> (TransferJob \<times> file_sys) option" where
  "set_stream_offset n offset j fs =
     (case data_source j of
        MemoryCursor _ _ \<Rightarrow> Some (j, fs)
      | FilePath p \<Rightarrow>
          if n < length (files j) then
            (let file_path = job_join p (fe_name (files j ! n));
                 (r, fs) = (if fs_exists fs (download_path file_path) \<and> fs_exists fs (digest_path file_path)
                            then file_open_write False (download_path file_path) fs
                            else if fs_exists fs file_path then (file_open file_path fs, fs)
                            else (Inl NotFound, fs))
             in case r of
                  Inl _ \<Rightarrow> Some (j, fs)
                | Inr h \<Rightarrow>
                    (case file_seek offset h of
                       None \<Rightarrow> Some (j, fs)
                     | Some h \<Rightarrow>
                         Some (j\<lparr>data_stream := Some (FileStream h), transferred := add_u64 (transferred j) offset,
                                 finished_size := add_u64 (finished_size j) offset\<rparr>, fs)))
          else None)"

definition confirm :: "FileTransferSendConfirmRequest \<Rightarrow> TransferJob \<Rightarrow> file_sys \<Rightarrow> (TransferJob \<times> file_sys) option" where
  "confirm r j fs =
     (if file_num j \<noteq> req_file_num r then Some (j, fs)
      else case req_union r of
        Some (Skip sk) \<Rightarrow> Some (if sk then set_file_skipped j else set_file_confirmed True j, fs)
      | Some (OffsetBlk offset) \<Rightarrow>
          (let j = set_file_confirmed True j in
           if offset > 0 then set_stream_offset (i32_as_usize (req_file_num r)) offset j fs else Some (j, fs))
      | None \<Rightarrow> Some (j, fs))"

definition to_meta :: "DataSource \<Rightarrow> string" where
  "to_meta s = (case s of FilePath p \<Rightarrow> p | MemoryCursor _ _ \<Rightarrow> '''')"

definition gen_meta :: "TransferJob \<Rightarrow> TransferJobMeta" where
  "gen_meta j = \<lparr>meta_id = job_id j, meta_remote = remote j, meta_to = to_meta (data_source j),
     meta_show_hidden = show_hidden j, meta_file_num = file_num j, meta_is_remote = is_remote j\<rparr>"

section \<open>Messages\<close>

definition new_error :: "int \<Rightarrow> transfer_err \<Rightarrow> int \<Rightarrow> Message" where
  "new_error i err n = MsgError i err n"

definition new_dir :: "int \<Rightarrow> string \<Rightarrow> FileEntry list \<Rightarrow> Message" where
  "new_dir i p fl = MsgDir \<lparr>dir_id = i, dir_path = p, entries = fl\<rparr>"

definition new_block :: "FileTransferBlock \<Rightarrow> Message" where
  "new_block b = MsgBlock b"

definition new_send_confirm :: "FileTransferSendConfirmRequest \<Rightarrow> Message" where
  "new_send_confirm r = MsgSendConfirm r"

definition new_receive :: "int \<Rightarrow> string \<Rightarrow> int \<Rightarrow> FileEntry list \<Rightarrow> nat \<Rightarrow> Message" where
  "new_receive i p n fl sz = MsgReceive i p n fl sz"

definition new_send :: "int \<Rightarrow> JobType \<Rightarrow> string \<Rightarrow> int \<Rightarrow> bool \<Rightarrow> Message" where
  "new_send i t p n hidden = MsgSend i p n hidden t"

definition new_done :: "int \<Rightarrow> int \<Rightarrow> Message" where
  "new_done i n = MsgDone i n"

section \<open>The job queue\<close>

fun remove_job :: "int \<Rightarrow> TransferJob list \<Rightarrow> TransferJob option \<times> TransferJob list" where
  "remove_job i [] = (None, [])"
| "remove_job i (j # js) =
     (if job_id j = i then (Some j, js) else let (r, js') = remove_job i js in (r, j # js'))"

definition get_job :: "int \<Rightarrow> TransferJob list \<Rightarrow> TransferJob option" where
  "get_job i js = find (\<lambda>j. job_id j = i) js"

text \<open>The update through the mutable reference that \<open>get_job\<close> returns.\<close>

fun put_job :: "TransferJob \<Rightarrow> TransferJob list \<Rightarrow> TransferJob list" where
  "put_job j' [] = []"
| "put_job j' (j # js) = (if job_id j = job_id j' then j' # js else j # put_job j' js)"

fun init_jobs :: "TransferJob list \<Rightarrow> file_sys \<Rightarrow> net \<Rightarrow> (transfer_err + unit) \<times> TransferJob list \<times> net" where
  "init_jobs [] fs s = (Inr (), [], s)"
| "init_jobs (j # js) fs s =
     (if is_last_job j then (case init_jobs js fs s of (r, js, s) \<Rightarrow> (r, j # js, s))
      else
        case init_data_stream j fs s of
          (Inr _, j, s) \<Rightarrow> (case init_jobs js fs s of (r, js, s) \<Rightarrow> (r, j # js, s))
        | (Inl err, j, s) \<Rightarrow>
            (case net_send (new_error (job_id j) err (file_num j)) s of
               (Inl e, s) \<Rightarrow> (Inl e, j # js, s)
             | (Inr _, s) \<Rightarrow> (case init_jobs js fs s of (r, js, s) \<Rightarrow> (r, j # js, s))))"

text \<open>The body of the loop of \<open>handle_read_jobs\<close>, which ends after the first active job.\<close>

definition step_read_job :: "ext_funs \<Rightarrow> (nat \<Rightarrow> nat) \<Rightarrow> TransferJob \<Rightarrow> file_sys \<Rightarrow> net \<Rightarrow> (transfer_err + bool) \<times> TransferJob \<times> net" where
  "step_read_job x limits j fs s =
     (case read_block x limits j fs of
        (Inl err, j) \<Rightarrow>
          (case net_send (new_error (job_id j) err (file_num j)) s of
             (Inl e, s) \<Rightarrow> (Inl e, j, s) | (Inr _, s) \<Rightarrow> (Inr False, j, s))
      | (Inr (Some b), j) \<Rightarrow>
          (case net_send (new_block b) s of (Inl e, s) \<Rightarrow> (Inl e, j, s) | (Inr _, s) \<Rightarrow> (Inr False, j, s))
      | (Inr None, j) \<Rightarrow>
          if job_completed j then
            (let m = (case job_error j of
                        Some err \<Rightarrow> new_error (job_id j) (Bail err) (file_num j)
                      | None \<Rightarrow> new_done (job_id j) (file_num j))
             in case net_send m s of (Inl e, s) \<Rightarrow> (Inl e, j, s) | (Inr _, s) \<Rightarrow> (Inr True, j, s))
          else (Inr False, j, s))"

fun read_jobs_loop :: "ext_funs \<Rightarrow> (nat \<Rightarrow> nat) \<Rightarrow> TransferJob list \<Rightarrow> file_sys \<Rightarrow> net \<Rightarrow> (transfer_err + int list) \<times> TransferJob list \<times> net" where
  "read_jobs_loop x limits [] fs s = (Inr [], [], s)"
| "read_jobs_loop x limits (j # js) fs s =
     (if is_last_job j then (case read_jobs_loop x limits js fs s of (r, js, s) \<Rightarrow> (r, j # js, s))
      else case step_read_job x limits j fs s of
        (Inl e, j, s) \<Rightarrow> (Inl e, j # js, s)
      | (Inr done, j, s) \<Rightarrow> (Inr (if done then [job_id j] else []), j # js, s))"

definition handle_read_jobs :: "ext_funs \<Rightarrow> (nat \<Rightarrow> nat) \<Rightarrow> TransferJob list \<Rightarrow> file_sys \<Rightarrow> net \<Rightarrow> (transfer_err + unit) \<times> TransferJob list \<times> net" where
  "handle_read_jobs x limits js fs s =
     (case init_jobs js fs s of
        (Inl e, js, s) \<Rightarrow> (Inl e, js, s)
      | (Inr _, js, s) \<Rightarrow>
          (case read_jobs_loop x limits js fs s of
             (Inl e, js, s) \<Rightarrow> (Inl e, js, s)
           | (Inr finished, js, s) \<Rightarrow> (Inr (), fold (\<lambda>i js. snd (remove_job i js)) finished js, s)))"

section \<open>Directory operations and the overwrite check\<close>

fun remove_all_empty_dir :: "nat \<Rightarrow> string \<Rightarrow> file_sys \<Rightarrow> (error_kind + unit) \<times> file_sys" where
  "remove_all_empty_dir 0 path fs = (Inl Other, fs)"
| "remove_all_empty_dir (Suc fuel) path fs =
     (case read_dir path True fs of
        Inl e \<Rightarrow> (Inl e, fs)
      | Inr fd \<Rightarrow>
          (let fs = fold (\<lambda>e fs.
                      case entry_type e of
                        FDir \<Rightarrow> snd (remove_all_empty_dir fuel (path_join path (fe_name e)) fs)
                      | FDirLink \<Rightarrow> snd (fs_remove_file (path_join path (fe_name e)) fs)
                      | FFileLink \<Rightarrow> snd (fs_remove_file (path_join path (fe_name e)) fs)
                      | _ \<Rightarrow> fs) (entries fd) fs
           in (Inr (), snd (fs_remove_dir path fs))))"

definition remove_file :: "string \<Rightarrow> file_sys \<Rightarrow> (transfer_err + unit) \<times> file_sys" where
  "remove_file file fs = (case fs_remove_file file fs of (Inl e, fs) \<Rightarrow> (Inl (Io e), fs) | (Inr _, fs) \<Rightarrow> (Inr (), fs))"

definition create_dir :: "string \<Rightarrow> file_sys \<Rightarrow> (transfer_err + unit) \<times> file_sys" where
  "create_dir dir fs = (case fs_create_dir_all dir fs of (Inl e, fs) \<Rightarrow> (Inl (Io e), fs) | (Inr _, fs) \<Rightarrow> (Inr (), fs))"

definition rename_file :: "string \<Rightarrow> string \<Rightarrow> file_sys \<Rightarrow> (transfer_err + unit) \<times> file_sys" where
  "rename_file path new_name fs =
     (if fs_exists fs path then
        (case path_parent path of
           None \<Rightarrow> (Inl (Bail ''Parent directoy not exists''), fs)
         | Some dir \<Rightarrow>
             (case fs_rename path (path_join dir new_name) fs of
                (Inl e, fs) \<Rightarrow> (Inl (Io e), fs) | (Inr _, fs) \<Rightarrow> (Inr (), fs)))
      else (Inl (Bail ''not exists''), fs))"

definition transform_windows_path :: "FileEntry list \<Rightarrow> FileEntry list" where
  "transform_windows_path fl =
     map (\<lambda>e. e\<lparr>fe_name := map (\<lambda>c. if c = CHR 0x5C then CHR ''/'' else c) (fe_name e)\<rparr>) fl"

datatype DigestCheckResult = IsSame | NeedConfirm FileTransferDigest | NoSuchFile

text \<open>The resume branch: an unfinished download whose digest matches the sender's.\<close>

definition resumable :: "ext_funs \<Rightarrow> bool \<Rightarrow> string \<Rightarrow> FileTransferDigest \<Rightarrow> file_sys \<Rightarrow> FileTransferDigest option" where
  "resumable x resume file_path d fs =
     (if resume \<and> fs_exists fs (digest_path file_path) \<and> fs_exists fs (download_path file_path) then
        (case fs_read (digest_path file_path) fs of
           None \<Rightarrow> None
         | Some text \<Rightarrow>
             (case digest_from_json x text of
                None \<Rightarrow> None
              | Some local_digest \<Rightarrow>
                  (let identical = (dg_modified local_digest = ftd_last_modified d \<and> dg_size local_digest = ftd_file_size d) in
                   if identical then
                     (case fs_stat fs (download_path file_path) of
                        None \<Rightarrow> None
                      | Some n \<Rightarrow>
                          if meta_len fs n > 0 then
                            Some (FileTransferDigest_default\<lparr>ftd_id := ftd_id d, ftd_file_num := ftd_file_num d,
                              ftd_last_modified := ftd_last_modified d, ftd_file_size := ftd_file_size d,
                              ftd_is_identical := identical, ftd_transferred_size := meta_len fs n\<rparr>)
                          else None)
                   else None)))
      else None)"

definition is_write_need_confirmation :: "ext_funs \<Rightarrow> bool \<Rightarrow> string \<Rightarrow> FileTransferDigest \<Rightarrow> file_sys \<Rightarrow> transfer_err + DigestCheckResult" where
  "is_write_need_confirmation x resume file_path d fs =
     (case resumable x resume file_path d fs of
        Some r \<Rightarrow> Inr (NeedConfirm r)
      | None \<Rightarrow>
          (case fs_stat fs file_path of
             Some (RegFile i) \<Rightarrow>
               (case since_epoch (ino_mtime fs i) of
                  None \<Rightarrow> Inl (Bail ''second time provided was later than self'')
                | Some local_mt \<Rightarrow>
                    (let len = length (ino_content fs i);
                         identical = (ftd_last_modified d * 10 ^ 9 = local_mt \<and> ftd_file_size d = len)
                     in Inr (NeedConfirm (FileTransferDigest_default\<lparr>ftd_id := ftd_id d, ftd_file_num := ftd_file_num d,
                          ftd_last_modified := as_secs local_mt, ftd_file_size := len, ftd_is_identical := identical\<rparr>))))
           | _ \<Rightarrow> Inr NoSuchFile))"

end
