(* ===== verification/Listing.thy ===== *)
theory Listing
  imports File_Transfer
begin

text \<open>
  The recursive listings of \<open>libs/hbb_common/src/fs.rs\<close> (\<open>read_dir_recursive\<close>,
  \<open>read_empty_dirs_recursive\<close>) end: the fuel \<open>get_recursive_files\<close> gives them is always enough.
\<close>

lemma path_comps_trailing: "path_comps (d @ ''/'') = path_comps d"
  by (simp add: path_comps_def split_char_snoc)

lemma path_key_join:
  assumes "simple_name n"
  shows "length (snd (path_key (path_join p n))) = Suc (length (snd (path_key p)))"
proof -
  have n: "n \<noteq> []" "hd n \<noteq> CHR ''/''" using assms by (cases n; auto simp: simple_name_def)+
  have trail: "snd (path_key (d @ ''/'')) = snd (path_key d)" if "d \<noteq> []" for d
    using that by (simp add: path_key_def path_comps_trailing Let_def)
  show ?thesis
  proof (cases "p = []")
    case True
    have "path_comps n = [n]" "n \<noteq> ''..''" using path_comps_single [OF assms] assms by (simp_all add: simple_name_def)
    with True n show ?thesis by (simp add: path_join_def path_key_def Let_def resolve_step_def path_comps_def)
  next
    case False
    show ?thesis
    proof (cases "last p = CHR ''/''")
      case True
      then obtain d where p: "p = d @ ''/''" using False by (metis append_butlast_last_id)
      then show ?thesis using path_key_snoc [OF assms, of d] n by (simp add: path_join_def)
    next
      case last: False
      then show ?thesis using path_key_snoc [OF assms, of p] trail [OF False] n False by (simp add: path_join_def)
    qed
  qed
qed

lemma entry_name_simple:
  assumes "dir_entry path hid fs cn = Some e"
  shows "simple_name (fe_name e)"
proof -
  obtain n where n: "n = get_file_name (path_join path (fst cn))" "n \<noteq> ''''" "fe_name e = n"
    using assms by (auto simp: dir_entry_def Let_def split: if_splits)
  then have "n \<in> set (path_comps (path_join path (fst cn)))" "n \<noteq> ''..''"
    by (auto simp: get_file_name_def path_file_name_def split: option.splits list.splits if_splits)
  moreover have "CHR ''/'' \<notin> set c" if "c \<in> set (split_char CHR ''/'' p)" for c p
    using that by (induction p arbitrary: c rule: split_char.induct) (auto split: list.splits if_splits)
  ultimately show ?thesis using n by (auto simp: simple_name_def path_comps_def)
qed

lemma fs_depth_bound: "(k, x) \<in> set (names fs) \<Longrightarrow> length (snd k) \<le> fs_depth fs"
proof -
  have "a \<in> set xs \<or> a \<le> m \<Longrightarrow> a \<le> fold max xs m" for a m and xs :: "nat list"
    by (induction xs arbitrary: m) (auto simp: le_max_iff_disj)
  moreover assume "(k, x) \<in> set (names fs)"
  then have "length (snd k) \<in> set (map (\<lambda>(k, _). length (snd k)) (names fs))" by force
  ultimately show ?thesis unfolding fs_depth_def by blast
qed

lemma dir_depth: "fs_is_dir fs p \<Longrightarrow> length (snd (path_key p)) \<le> fs_depth fs"
proof (rule ccontr)
  assume d: "fs_is_dir fs p" and n: "\<not> length (snd (path_key p)) \<le> fs_depth fs"
  then have "node_of fs (path_key p) = None"
    using fs_depth_bound map_of_SomeD [of "names fs" "path_key p"]
    by (cases "hm_get (names fs) (path_key p)") (auto simp: node_of_def hm_get_def)
  then have "fs_stat fs p = None"
    by (simp add: fs_stat_def fs_resolve_def eval_nat_numeral)
  with d show False by (simp add: fs_is_dir_def)
qed

lemma read_dir_names:
  assumes "read_dir path hid fs = Inr fd" "e \<in> set (entries fd)"
  shows "simple_name (fe_name e)"
  using assms entry_name_simple [of path hid fs]
  by (auto simp: read_dir_def map_filter_def split: option.splits if_splits node.splits)

text \<open>Enough fuel for what can lie below a path.\<close>

definition enough :: "file_sys \<Rightarrow> string \<Rightarrow> nat \<Rightarrow> bool" where
  "enough fs path n \<longleftrightarrow> n \<ge> 1 \<and> length (snd (path_key path)) + n \<ge> fs_depth fs + 2"

lemma enough_below:
  assumes "enough fs path (Suc n)" "fs_is_dir fs path" "simple_name name"
  shows "enough fs (path_join path name) n"
  using assms dir_depth [OF assms(2)] path_key_join [OF assms(3), of path] by (simp add: enough_def)

lemma read_dir_recursive_fuel:
  "\<lbrakk>enough fs path n; enough fs path m\<rbrakk> \<Longrightarrow> read_dir_recursive n path pre hid fs = read_dir_recursive m path pre hid fs"
proof (induction n arbitrary: m path pre)
  case 0
  then show ?case by (simp add: enough_def)
next
  case (Suc n)
  obtain m' where m: "m = Suc m'" using Suc.prems(2) by (cases m) (auto simp: enough_def)
  show ?case
  proof (cases "fs_is_dir fs path")
    case False
    then show ?thesis by (simp add: m)
  next
    case True
    have "read_dir_recursive n (path_join path (fe_name e)) pre' hid fs = read_dir_recursive m' (path_join path (fe_name e)) pre' hid fs"
      if "read_dir path hid fs = Inr fd" "e \<in> set (entries fd)" for fd e pre'
      using Suc.IH enough_below [OF _ True read_dir_names [OF that]] Suc.prems m by blast
    then show ?thesis using True by (auto simp: m split: sum.splits FileType.splits intro!: arg_cong [where f = concat] map_cong)
  qed
qed

lemma read_empty_dirs_recursive_fuel:
  "\<lbrakk>enough fs path n; enough fs path m\<rbrakk> \<Longrightarrow> read_empty_dirs_recursive n path pre hid fs = read_empty_dirs_recursive m path pre hid fs"
proof (induction n arbitrary: m path pre)
  case 0
  then show ?case by (simp add: enough_def)
next
  case (Suc n)
  obtain m' where m: "m = Suc m'" using Suc.prems(2) by (cases m) (auto simp: enough_def)
  show ?case
  proof (cases "fs_is_dir fs path")
    case False
    then show ?thesis by (simp add: m)
  next
    case True
    have "read_empty_dirs_recursive n (path_join path (fe_name e)) pre' hid fs = read_empty_dirs_recursive m' (path_join path (fe_name e)) pre' hid fs"
      if "read_dir path hid fs = Inr fd" "e \<in> set (entries fd)" for fd e pre'
      using Suc.IH enough_below [OF _ True read_dir_names [OF that]] Suc.prems m by blast
    then show ?thesis using True by (auto simp: m split: sum.splits FileType.splits intro!: arg_cong [where f = concat] map_cong)
  qed
qed


end
