(* ===== verification/Passwords.thy ===== *)
theory Passwords
  imports Rust_Prelude Rust_Strings
begin

text \<open>
  Password policy and password storage (\<open>libs/hbb_common/src/password_security.rs\<close>).  Options
  are read through an argument \<open>opt\<close> (\<open>Config::get_option\<close>).  Strings here are their UTF-8 bytes where
  the source measures or encrypts them.  The secret box and base64 of \<open>sodiumoxide\<close>, the machine's
  identifier and its key pair are the fields of \<open>crypt_env\<close>.
\<close>

section \<open>Policy\<close>

datatype VerificationMethod = OnlyUseTemporaryPassword | OnlyUsePermanentPassword | UseBothPasswords

datatype ApproveMode = ApproveBoth | ApprovePassword | ApproveClick

type_synonym option_fn = "string \<Rightarrow> string"

definition option2bool :: "string \<Rightarrow> string \<Rightarrow> bool" where
  "option2bool option val =
     (if starts_with option ''enable-'' then val \<noteq> ''N''
      else if starts_with option ''allow-'' \<or> option = ''stop-service'' \<or> option = ''direct-server'' \<or> option = ''force-always-relay''
      then val = ''Y''
      else val \<noteq> ''N'')"

definition verification_method :: "option_fn \<Rightarrow> VerificationMethod" where
  "verification_method opt =
     (let method = opt ''verification-method'' in
      if method = ''use-temporary-password'' then OnlyUseTemporaryPassword
      else if method = ''use-permanent-password'' then OnlyUsePermanentPassword
      else UseBothPasswords)"

definition temporary_password_length :: "option_fn \<Rightarrow> nat" where
  "temporary_password_length opt =
     (let len = opt ''temporary-password-length'' in
      if len = ''8'' then 8 else if len = ''10'' then 10 else 6)"

definition temporary_enabled :: "option_fn \<Rightarrow> bool" where
  "temporary_enabled opt \<longleftrightarrow> verification_method opt \<noteq> OnlyUsePermanentPassword"

definition permanent_enabled :: "option_fn \<Rightarrow> bool" where
  "permanent_enabled opt \<longleftrightarrow> verification_method opt \<noteq> OnlyUseTemporaryPassword"

definition has_valid_password :: "option_fn \<Rightarrow> string \<Rightarrow> string \<Rightarrow> bool" where
  "has_valid_password opt temporary permanent \<longleftrightarrow>
     temporary_enabled opt \<and> temporary \<noteq> '''' \<or> permanent_enabled opt \<and> permanent \<noteq> ''''"

definition approve_mode :: "option_fn \<Rightarrow> ApproveMode" where
  "approve_mode opt =
     (let mode = opt ''approve-mode'' in
      if mode = ''password'' then ApprovePassword
      else if mode = ''click'' then ApproveClick
      else ApproveBoth)"

definition hide_cm :: "option_fn \<Rightarrow> bool" where
  "hide_cm opt \<longleftrightarrow> approve_mode opt = ApprovePassword \<and> verification_method opt = OnlyUsePermanentPassword \<and>
     option2bool ''allow-hide-cm'' (opt ''allow-hide-cm'')"

section \<open>UTF-8\<close>

definition continuation :: "u8 \<Rightarrow> bool" where
  "continuation b \<longleftrightarrow> 0x80 \<le> b \<and> b \<le> 0xBF"

definition utf8_width :: "u8 \<Rightarrow> nat" where
  "utf8_width b = (if b < 0x80 then 1 else if 0xC2 \<le> b \<and> b \<le> 0xDF then 2
     else if 0xE0 \<le> b \<and> b \<le> 0xEF then 3 else if 0xF0 \<le> b \<and> b \<le> 0xF4 then 4 else 0)"

definition second_ok :: "u8 \<Rightarrow> u8 \<Rightarrow> bool" where
  "second_ok a b \<longleftrightarrow>
     (if a = 0xE0 then 0xA0 \<le> b \<and> b \<le> 0xBF else if a = 0xED then 0x80 \<le> b \<and> b \<le> 0x9F
      else if a = 0xF0 then 0x90 \<le> b \<and> b \<le> 0xBF else if a = 0xF4 then 0x80 \<le> b \<and> b \<le> 0x8F
      else continuation b)"

text \<open>The bytes of one character, or the longest part of one, at the start of a buffer.\<close>

definition tail_ok :: "u8 \<Rightarrow> nat \<times> u8 \<Rightarrow> bool" where
  "tail_ok a ib \<longleftrightarrow> (if fst ib = 0 then second_ok a (snd ib) else continuation (snd ib))"

definition utf8_step :: "u8 \<Rightarrow> bytes \<Rightarrow> nat \<times> bool" where
  "utf8_step a r =
     (let w = utf8_width a;
          k = length (takeWhile (tail_ok a) (zip [0..<w - 1] r))
      in if w = 0 then (1, False) else (Suc k, k = w - 1))"

definition REPLACEMENT :: bytes where "REPLACEMENT = [0xEF, 0xBF, 0xBD]"

text \<open>\<open>String::from_utf8_lossy\<close>: each maximal broken part becomes a replacement character.\<close>

function from_utf8_lossy :: "bytes \<Rightarrow> bytes" where
  "from_utf8_lossy [] = []"
| "from_utf8_lossy (a # r) =
     (case utf8_step a r of (n, ok) \<Rightarrow>
        (if ok then a # take (n - 1) r else REPLACEMENT) @ from_utf8_lossy (drop (n - 1) r))"
  by pat_completeness auto
termination by (relation "measure length") auto

function utf8_valid :: "bytes \<Rightarrow> bool" where
  "utf8_valid [] = True"
| "utf8_valid (a # r) = (case utf8_step a r of (n, ok) \<Rightarrow> ok \<and> utf8_valid (drop (n - 1) r))"
  by pat_completeness auto
termination by (relation "measure length") auto

declare from_utf8_lossy.simps(2) [simp del] utf8_valid.simps(2) [simp del]

lemma lossy_valid: "utf8_valid bs \<Longrightarrow> from_utf8_lossy bs = bs"
proof (induction bs rule: utf8_valid.induct)
  case (2 a r)
  obtain n ok where s: "utf8_step a r = (n, ok)" by (cases "utf8_step a r")
  with "2.prems" have "ok" "utf8_valid (drop (n - 1) r)" by (simp_all add: utf8_valid.simps(2))
  with "2.IH" [OF s [symmetric]] s show ?case by (simp add: from_utf8_lossy.simps(2))
qed simp

text \<open>\<open>s.chars().count()\<close> of a valid string: the bytes that start a character.\<close>

definition char_count :: "bytes \<Rightarrow> nat" where
  "char_count s = length (filter (\<lambda>b. \<not> continuation b) s)"

section \<open>Storage\<close>

record crypt_env =
  b64_encode :: "bytes \<Rightarrow> bytes"
  b64_decode :: "bytes \<Rightarrow> bytes option"
  sb_seal :: "bytes \<Rightarrow> bytes \<Rightarrow> bytes \<Rightarrow> bytes"
  sb_open :: "bytes \<Rightarrow> bytes \<Rightarrow> bytes \<Rightarrow> bytes option"
  uuid :: bytes
  key_pair_pk :: "bytes option"

definition VERSION_LEN :: nat where "VERSION_LEN = 2"
definition MACBYTES :: nat where "MACBYTES = 16"
definition SECRET_KEYBYTES :: nat where "SECRET_KEYBYTES = 32"
definition SECRET_NONCEBYTES :: nat where "SECRET_NONCEBYTES = 24"
definition version_00 :: bytes where "version_00 = [48, 48]"

definition resize :: "nat \<Rightarrow> bytes \<Rightarrow> bytes" where
  "resize n v = take n v @ replicate (n - length v) 0"

definition bytes_start :: "bytes \<Rightarrow> bytes \<Rightarrow> bool" where
  "bytes_start v p \<longleftrightarrow> take (length p) v = p"

definition is_encrypted :: "crypt_env \<Rightarrow> bytes \<Rightarrow> bool" where
  "is_encrypted e v =
     (if length v \<le> VERSION_LEN \<or> \<not> bytes_start v version_00 then False
      else case b64_decode e (drop VERSION_LEN v) of
        Some decoded \<Rightarrow> length decoded \<ge> MACBYTES
      | None \<Rightarrow> False)"

definition symmetric_crypt :: "crypt_env \<Rightarrow> bytes \<Rightarrow> bool \<Rightarrow> bytes option" where
  "symmetric_crypt e data encrypting =
     (let key = resize SECRET_KEYBYTES (uuid e);
          nonce = replicate SECRET_NONCEBYTES 0
      in if encrypting then Some (sb_seal e data nonce key)
         else case sb_open e data nonce key of
           Some r \<Rightarrow> Some r
         | None \<Rightarrow>
             (case key_pair_pk e of
                Some pk \<Rightarrow> if pk \<noteq> uuid e then sb_open e data nonce (resize SECRET_KEYBYTES pk) else None
              | None \<Rightarrow> None))"

definition encrypt :: "crypt_env \<Rightarrow> bytes \<Rightarrow> bytes option" where
  "encrypt e v = (if v \<noteq> [] then map_option (b64_encode e) (symmetric_crypt e v True) else None)"

definition decrypt :: "crypt_env \<Rightarrow> bytes \<Rightarrow> bytes option" where
  "decrypt e v = (if v \<noteq> [] then Option.bind (b64_decode e v) (\<lambda>v. symmetric_crypt e v False) else None)"

definition encrypt_str_or_original :: "crypt_env \<Rightarrow> bytes \<Rightarrow> bytes \<Rightarrow> nat \<Rightarrow> bytes" where
  "encrypt_str_or_original e s version max_len =
     (if is_encrypted e s then s
      else if char_count s > max_len then []
      else if version = version_00 then (case encrypt e s of Some c \<Rightarrow> version @ c | None \<Rightarrow> s)
      else s)"

definition decrypt_str_or_original :: "crypt_env \<Rightarrow> bytes \<Rightarrow> bytes \<Rightarrow> bytes \<times> bool \<times> bool" where
  "decrypt_str_or_original e s current_version =
     (let original = (s, False, s \<noteq> [] \<and> \<not> is_encrypted e s) in
      if length s > VERSION_LEN \<and> bytes_start s version_00 then
        (case decrypt e (drop VERSION_LEN s) of
           Some v \<Rightarrow> (from_utf8_lossy v, True, version_00 \<noteq> current_version)
         | None \<Rightarrow> original)
      else original)"

definition encrypt_vec_or_original :: "crypt_env \<Rightarrow> bytes \<Rightarrow> bytes \<Rightarrow> nat \<Rightarrow> bytes" where
  "encrypt_vec_or_original e v version max_len =
     (if is_encrypted e v then v
      else if length v > max_len then []
      else if version = version_00 then (case encrypt e v of Some c \<Rightarrow> version @ c | None \<Rightarrow> v)
      else v)"

definition decrypt_vec_or_original :: "crypt_env \<Rightarrow> bytes \<Rightarrow> bytes \<Rightarrow> bytes \<times> bool \<times> bool" where
  "decrypt_vec_or_original e v current_version =
     (let original = (v, False, v \<noteq> [] \<and> \<not> is_encrypted e v) in
      if length v > VERSION_LEN \<and> from_utf8_lossy (take VERSION_LEN v) = version_00 then
        (case decrypt e (drop VERSION_LEN v) of
           Some d \<Rightarrow> (d, True, version_00 \<noteq> current_version)
         | None \<Rightarrow> original)
      else original)"

section \<open>Stored values come back\<close>

text \<open>What the code relies on of the secret box and of base64.\<close>

definition crypt_laws :: "crypt_env \<Rightarrow> bool" where
  "crypt_laws e \<longleftrightarrow>
     (\<forall>m n k. sb_open e (sb_seal e m n k) n k = Some m \<and> length (sb_seal e m n k) = length m + MACBYTES) \<and>
     (\<forall>b. b64_decode e (b64_encode e b) = Some b) \<and> b64_decode e [] = Some []"

definition stored :: "crypt_env \<Rightarrow> bytes \<Rightarrow> bytes" where
  "stored e v = version_00 @ b64_encode e (sb_seal e v (replicate SECRET_NONCEBYTES 0) (resize SECRET_KEYBYTES (uuid e)))"

lemma encrypt_stored: "v \<noteq> [] \<Longrightarrow> encrypt e v = Some (drop VERSION_LEN (stored e v))"
  by (simp add: encrypt_def symmetric_crypt_def Let_def stored_def version_00_def VERSION_LEN_def)

lemma b64_nonempty: "\<lbrakk>crypt_laws e; MACBYTES \<le> length b\<rbrakk> \<Longrightarrow> b64_encode e b \<noteq> []"
proof
  assume e: "crypt_laws e" "MACBYTES \<le> length b" "b64_encode e b = []"
  have "b64_decode e (b64_encode e b) = Some b" "b64_decode e [] = Some []" using e(1) by (simp_all add: crypt_laws_def)
  with e(2,3) show False by (simp add: MACBYTES_def)
qed

lemma stored_facts:
  assumes "crypt_laws e" "v \<noteq> []"
  shows "length (stored e v) > VERSION_LEN" "bytes_start (stored e v) version_00" "take VERSION_LEN (stored e v) = version_00"
    "decrypt e (drop VERSION_LEN (stored e v)) = Some v" "is_encrypted e (stored e v)"
proof -
  let ?c = "sb_seal e v (replicate SECRET_NONCEBYTES 0) (resize SECRET_KEYBYTES (uuid e))"
  have c: "length ?c \<ge> MACBYTES" "b64_decode e (b64_encode e ?c) = Some ?c"
    "sb_open e ?c (replicate SECRET_NONCEBYTES 0) (resize SECRET_KEYBYTES (uuid e)) = Some v"
    using assms(1) by (simp_all add: crypt_laws_def)
  have ne: "b64_encode e ?c \<noteq> []"
    by (rule b64_nonempty [OF assms(1) c(1)])
  show "length (stored e v) > VERSION_LEN" using ne by (simp add: stored_def version_00_def VERSION_LEN_def)
  show "bytes_start (stored e v) version_00" "take VERSION_LEN (stored e v) = version_00"
    by (simp_all add: stored_def bytes_start_def version_00_def VERSION_LEN_def)
  show "decrypt e (drop VERSION_LEN (stored e v)) = Some v" "is_encrypted e (stored e v)"
    using c ne by (simp_all add: stored_def decrypt_def symmetric_crypt_def is_encrypted_def bytes_start_def version_00_def VERSION_LEN_def Let_def)
qed

lemma lossy_version: "from_utf8_lossy version_00 = version_00"
  by (rule lossy_valid) (simp add: version_00_def utf8_valid.simps(2) utf8_step_def utf8_width_def Let_def)


definition example_crypt :: crypt_env where
  "example_crypt =
     \<lparr>b64_encode = (\<lambda>b. b), b64_decode = Some, sb_seal = (\<lambda>m n k. replicate 16 (sum_list k) @ m),
      sb_open = (\<lambda>c n k. if 16 \<le> length c \<and> take 16 c = replicate 16 (sum_list k) then Some (drop 16 c) else None),
      uuid = [1, 2, 3], key_pair_pk = None\<rparr>"

lemma example_crypt_laws: "crypt_laws example_crypt"
  by (simp add: crypt_laws_def example_crypt_def MACBYTES_def)


text \<open>
  C38. A text that has the shape of a stored value (version 00 followed by base64 of at least sixteen
  bytes) is taken for one: it is written to the configuration in clear, whatever its length, and
  comes back unchanged and is never stored encrypted later (unless it happens to decrypt).
\<close>

theorem lookalike_stored_in_clear:
  assumes "crypt_laws e" "MACBYTES \<le> length b"
  shows "encrypt_str_or_original e (version_00 @ b64_encode e b) version_00 max_len = version_00 @ b64_encode e b \<and>
    (decrypt e (b64_encode e b) = None \<longrightarrow>
     decrypt_str_or_original e (version_00 @ b64_encode e b) current = (version_00 @ b64_encode e b, False, False))"
proof -
  have "b64_encode e b \<noteq> []" by (rule b64_nonempty [OF assms])
  moreover from this have "is_encrypted e (version_00 @ b64_encode e b)"
    using assms by (simp add: is_encrypted_def bytes_start_def version_00_def VERSION_LEN_def crypt_laws_def)
  ultimately show ?thesis
    by (simp add: encrypt_str_or_original_def decrypt_str_or_original_def Let_def bytes_start_def version_00_def VERSION_LEN_def)
qed

theorem lookalike_stored_in_clear_witness:
  "decrypt_str_or_original example_crypt
     (encrypt_str_or_original example_crypt (version_00 @ replicate 16 65) version_00 8) version_00 =
     (version_00 @ replicate 16 65, False, False)"
proof -
  have "decrypt example_crypt (b64_encode example_crypt (replicate 16 65)) = None" by code_simp
  with lookalike_stored_in_clear [OF example_crypt_laws, of "replicate 16 65" 8 version_00] show ?thesis
    by (simp add: MACBYTES_def) (simp add: example_crypt_def)
qed

end
