(* ===== verification/Service.thy ===== *)
theory Service
  imports Rust_Prelude Rust_Maps
begin

text \<open>
  The service template of the server side (\<open>src/server/service.rs\<close>) and the connection half it
  sends to (\<open>ConnInner\<close> of \<open>src/server/connection.rs\<close>).  A service keeps its subscribers and, when
  it needs a snapshot, the newcomers apart from them: broadcasts go to the subscribers only,
  a snapshot goes to the newcomers and then makes them subscribers.

  Channels are an explicit store: a \<open>Sender\<close> is the number of a channel, so the clones of a
  connection that the services hold share its queue; a channel that is not in the store has
  lost its receiver.  The time stamp queued with each message is left out.  The locks of the
  source make every operation here atomic.
\<close>

section \<open>Messages, channels and connections\<close>

datatype message_union =
  VideoFrame bytes
| MiscSwitchDisplay bytes
| MiscOther bytes
| OtherUnion bytes

type_synonym channels = "(nat, message_union list) hashmap"

record ConnInner =
  conn_inner_id :: int
  tx :: "nat option"
  tx_video :: "nat option"

definition ConnInner_new :: "int \<Rightarrow> nat option \<Rightarrow> nat option \<Rightarrow> ConnInner" where
  "ConnInner_new i t v = \<lparr>conn_inner_id = i, tx = t, tx_video = v\<rparr>"

fun tx_by_video :: "message_union \<Rightarrow> bool" where
  "tx_by_video (VideoFrame _) = True"
| "tx_by_video (MiscSwitchDisplay _) = True"
| "tx_by_video _ = False"

definition channel_send :: "message_union \<Rightarrow> nat \<Rightarrow> channels \<Rightarrow> channels" where
  "channel_send m c ch = hm_adjust c (\<lambda>q. q @ [m]) ch"

definition conn_send :: "message_union \<Rightarrow> ConnInner \<Rightarrow> channels \<Rightarrow> channels" where
  "conn_send m s ch =
     (case (if tx_by_video m then tx_video s else tx s) of
        Some c \<Rightarrow> channel_send m c ch
      | None \<Rightarrow> ch)"

section \<open>The service template\<close>

record ServiceInner =
  svc_name :: string
  svc_handle :: bool
  subscribes :: "(int, ConnInner) hashmap"
  new_subscribes :: "(int, ConnInner) hashmap"
  active :: bool
  need_snapshot :: bool
  svc_options :: "(string, string) hashmap"

definition HIBERNATE_TIMEOUT :: nat where "HIBERNATE_TIMEOUT = 30"
definition MAX_ERROR_TIMEOUT :: nat where "MAX_ERROR_TIMEOUT = 1000"
definition SERVICE_OPTION_VALUE_TRUE :: string where "SERVICE_OPTION_VALUE_TRUE = ''1''"
definition SERVICE_OPTION_VALUE_FALSE :: string where "SERVICE_OPTION_VALUE_FALSE = ''0''"

definition ServiceTmpl_new :: "string \<Rightarrow> bool \<Rightarrow> ServiceInner" where
  "ServiceTmpl_new nm snap =
     \<lparr>svc_name = nm, svc_handle = False, subscribes = [], new_subscribes = [], active = True,
      need_snapshot = snap, svc_options = []\<rparr>"

definition send_new_subscribes :: "message_union \<Rightarrow> ServiceInner \<Rightarrow> channels \<Rightarrow> channels" where
  "send_new_subscribes m s ch = fold (conn_send m) (hm_values (new_subscribes s)) ch"

definition swap_new_subscribes :: "ServiceInner \<Rightarrow> ServiceInner" where
  "swap_new_subscribes s =
     s\<lparr>subscribes := fold (\<lambda>c. hm_insert (conn_inner_id c) c) (hm_values (new_subscribes s)) (subscribes s),
       new_subscribes := []\<rparr>"

definition has_subscribes :: "ServiceInner \<Rightarrow> bool" where
  "has_subscribes s \<longleftrightarrow> length (subscribes s) > 0 \<or> length (new_subscribes s) > 0"

definition is_subed :: "int \<Rightarrow> ServiceInner \<Rightarrow> bool" where
  "is_subed i s \<longleftrightarrow> hm_get (subscribes s) i \<noteq> None \<or> hm_get (new_subscribes s) i \<noteq> None"

definition on_subscribe :: "ConnInner \<Rightarrow> ServiceInner \<Rightarrow> ServiceInner" where
  "on_subscribe c s =
     (if hm_get (subscribes s) (conn_inner_id c) \<noteq> None then s
      else if need_snapshot s then s\<lparr>new_subscribes := hm_insert (conn_inner_id c) c (new_subscribes s)\<rparr>
      else s\<lparr>subscribes := hm_insert (conn_inner_id c) c (subscribes s)\<rparr>)"

definition on_unsubscribe :: "int \<Rightarrow> ServiceInner \<Rightarrow> ServiceInner" where
  "on_unsubscribe i s =
     (case hm_get (subscribes s) i of
        None \<Rightarrow> s\<lparr>new_subscribes := hm_remove i (new_subscribes s)\<rparr>
      | Some _ \<Rightarrow> s\<lparr>subscribes := hm_remove i (subscribes s)\<rparr>)"

definition svc_join :: "ServiceInner \<Rightarrow> ServiceInner" where
  "svc_join s = s\<lparr>active := False, svc_handle := False\<rparr>"

definition svc_get_option :: "string \<Rightarrow> ServiceInner \<Rightarrow> string option" where
  "svc_get_option opt s = hm_get (svc_options s) opt"

definition svc_set_option :: "string \<Rightarrow> string \<Rightarrow> ServiceInner \<Rightarrow> string option \<times> ServiceInner" where
  "svc_set_option opt val s = (hm_get (svc_options s) opt, s\<lparr>svc_options := hm_insert opt val (svc_options s)\<rparr>)"

definition svc_ok :: "ServiceInner \<Rightarrow> bool" where
  "svc_ok s \<longleftrightarrow> active s \<and> has_subscribes s"

definition is_option_true :: "string \<Rightarrow> ServiceInner \<Rightarrow> bool" where
  "is_option_true opt s = (case svc_get_option opt s of None \<Rightarrow> False | Some v \<Rightarrow> v = SERVICE_OPTION_VALUE_TRUE)"

definition set_option_bool :: "string \<Rightarrow> bool \<Rightarrow> ServiceInner \<Rightarrow> ServiceInner" where
  "set_option_bool opt val s =
     (if val then snd (svc_set_option opt SERVICE_OPTION_VALUE_TRUE s)
      else snd (svc_set_option opt SERVICE_OPTION_VALUE_FALSE s))"

section \<open>Sending\<close>

definition send_to :: "message_union \<Rightarrow> int \<Rightarrow> ServiceInner \<Rightarrow> channels \<Rightarrow> channels" where
  "send_to m i s ch = (case hm_get (subscribes s) i of Some c \<Rightarrow> conn_send m c ch | None \<Rightarrow> ch)"

definition send_to_others :: "message_union \<Rightarrow> int \<Rightarrow> ServiceInner \<Rightarrow> channels \<Rightarrow> channels" where
  "send_to_others m i s ch = fold (\<lambda>(sid, c) ch. if sid \<noteq> i then conn_send m c ch else ch) (subscribes s) ch"

definition send_shared :: "message_union \<Rightarrow> ServiceInner \<Rightarrow> channels \<Rightarrow> channels" where
  "send_shared m s ch = fold (conn_send m) (hm_values (subscribes s)) ch"

definition send_video_frame_shared :: "message_union \<Rightarrow> ServiceInner \<Rightarrow> channels \<Rightarrow> int set \<times> channels" where
  "send_video_frame_shared m s ch =
     fold (\<lambda>c (ids, ch). (insert (conn_inner_id c) ids, conn_send m c ch)) (hm_values (subscribes s)) ({}, ch)"

definition send_without :: "message_union \<Rightarrow> int \<Rightarrow> ServiceInner \<Rightarrow> channels \<Rightarrow> channels" where
  "send_without m i s ch =
     fold (\<lambda>c ch. if i \<noteq> conn_inner_id c then conn_send m c ch else ch) (hm_values (subscribes s)) ch"

text \<open>
  \<open>snapshot\<close> hands a \<open>ServiceSwap\<close> to its callback, which sends through it; the swap happens when
  the callback drops it, whether or not the callback succeeds.  The callback is the list of
  messages it sends and the result it returns.
\<close>

definition swap_send_shared :: "message_union \<Rightarrow> ServiceInner \<Rightarrow> channels \<Rightarrow> channels" where
  "swap_send_shared = send_new_subscribes"

definition swap_has_subscribes :: "ServiceInner \<Rightarrow> bool" where
  "swap_has_subscribes s \<longleftrightarrow> length (subscribes s) > 0"

definition snapshot :: "message_union list \<Rightarrow> (string + unit) \<Rightarrow> ServiceInner \<Rightarrow> channels \<Rightarrow> (string + unit) \<times> ServiceInner \<times> channels" where
  "snapshot ms r s ch =
     (if length (new_subscribes s) > 0
      then (r, swap_new_subscribes s, fold (\<lambda>m. swap_send_shared m s) ms ch)
      else (Inr (), s, ch))"

section \<open>The service threads\<close>

text \<open>
  One iteration of \<open>repeat\<close> and \<open>run\<close>.  The callback is a function that may change the service,
  the channels and its own state; what was called and for how long the thread slept is logged.
\<close>

datatype thread_call = CallInit | CallBack | CallReset | Sleep nat

type_synonym 'w callback = "'w \<Rightarrow> (string + unit) \<times> 'w"

record 's repeat_thread =
  thread_state :: 's
  may_reset :: bool
  calls :: "thread_call list"

definition log_call :: "thread_call \<Rightarrow> 's repeat_thread \<Rightarrow> 's repeat_thread" where
  "log_call c t = t\<lparr>calls := calls t @ [c]\<rparr>"

definition repeat_iter ::
  "nat \<Rightarrow> nat \<Rightarrow> ('s \<Rightarrow> 's) \<Rightarrow> ('s \<Rightarrow> 's) \<Rightarrow> (ServiceInner \<times> channels \<times> 's) callback \<Rightarrow>
   ServiceInner \<times> channels \<Rightarrow> 's repeat_thread \<Rightarrow> (ServiceInner \<times> channels) \<times> 's repeat_thread" where
  "repeat_iter interval elapsed ini res cb sc t =
     (let (s, ch) = sc;
          (sc, t) =
            (if has_subscribes s then
               (let t = (if may_reset t then t
                         else log_call CallInit (t\<lparr>may_reset := True, thread_state := ini (thread_state t)\<rparr>));
                    (r, s, ch, st) = cb (s, ch, thread_state t);
                    t = log_call CallBack (t\<lparr>thread_state := st\<rparr>)
                in ((s, ch), case r of Inl _ \<Rightarrow> log_call (Sleep MAX_ERROR_TIMEOUT) t | Inr _ \<Rightarrow> t))
             else if may_reset t then
               ((s, ch), log_call CallReset (t\<lparr>thread_state := res (thread_state t), may_reset := False\<rparr>))
             else ((s, ch), t))
      in (sc, if elapsed < interval then log_call (Sleep (interval - elapsed)) t else t))"

definition run_error_timeout :: "nat \<Rightarrow> nat \<Rightarrow> nat" where
  "run_error_timeout elapsed error_timeout =
     (let t = (if elapsed > MAX_ERROR_TIMEOUT then HIBERNATE_TIMEOUT else error_timeout * 2)
      in if t > MAX_ERROR_TIMEOUT then MAX_ERROR_TIMEOUT else t)"

definition run_iter ::
  "nat \<Rightarrow> (ServiceInner \<times> channels) callback \<Rightarrow> ServiceInner \<times> channels \<Rightarrow> nat \<Rightarrow> (ServiceInner \<times> channels) \<times> nat \<times> thread_call list" where
  "run_iter elapsed cb sc error_timeout =
     (if has_subscribes (fst sc) then
        (case cb sc of
           (Inl _, sc) \<Rightarrow>
             (let t = run_error_timeout elapsed error_timeout
              in (sc, t, [CallBack, Sleep t, Sleep HIBERNATE_TIMEOUT]))
         | (Inr _, sc) \<Rightarrow> (sc, error_timeout, [CallBack, Sleep HIBERNATE_TIMEOUT]))
      else (sc, error_timeout, [Sleep HIBERNATE_TIMEOUT]))"

section \<open>The subscription interface\<close>

text \<open>
  What a server relies on: subscribing adds one identifier, unsubscribing removes it, and
  neither touches the other subscriptions.
\<close>

locale subscription =
  fixes sub :: "'c \<Rightarrow> 's \<Rightarrow> 's"
    and unsub :: "int \<Rightarrow> 's \<Rightarrow> 's"
    and subed :: "int \<Rightarrow> 's \<Rightarrow> bool"
    and cid :: "'c \<Rightarrow> int"
    and wf :: "'s \<Rightarrow> bool"
  assumes subed_sub: "wf s \<Longrightarrow> subed i (sub c s) \<longleftrightarrow> i = cid c \<or> subed i s"
    and subed_unsub: "wf s \<Longrightarrow> subed i (unsub j s) \<longleftrightarrow> i \<noteq> j \<and> subed i s"
    and wf_sub: "wf s \<Longrightarrow> wf (sub c s)"
    and wf_unsub: "wf s \<Longrightarrow> wf (unsub j s)"
begin

lemma subed_switch:
  assumes "wf s"
  shows "subed i (if subed (cid c) s = b then s else if b then sub c s else unsub (cid c) s) \<longleftrightarrow>
    (if i = cid c then b else subed i s)"
  using assms by (auto simp: subed_sub subed_unsub)

lemma wf_switch: "wf s \<Longrightarrow> wf (if subed (cid c) s = b then s else if b then sub c s else unsub (cid c) s)"
  by (simp add: wf_sub wf_unsub)

lemma unsub_sub: "\<lbrakk>wf s; \<not> subed (cid c) s\<rbrakk> \<Longrightarrow> subed i (unsub (cid c) (sub c s)) = subed i s"
  by (auto simp: subed_sub subed_unsub wf_sub)

lemma subed_sub_many: "wf s \<Longrightarrow> subed i (fold sub cs s) \<longleftrightarrow> i \<in> cid ` set cs \<or> subed i s"
  by (induction cs arbitrary: s) (auto simp: subed_sub wf_sub)

lemma subed_unsub_many: "wf s \<Longrightarrow> subed i (fold unsub js s) \<longleftrightarrow> i \<notin> set js \<and> subed i s"
  by (induction js arbitrary: s) (auto simp: subed_unsub wf_unsub)

end

section \<open>Well-formed services\<close>

text \<open>
  Connections are filed under their identifier, nobody is subscriber and newcomer at once, and
  there are no newcomers unless the service takes snapshots.
\<close>

definition filed :: "(int, ConnInner) hashmap \<Rightarrow> bool" where
  "filed m \<longleftrightarrow> hm_ok m \<and> (\<forall>i c. hm_get m i = Some c \<longrightarrow> conn_inner_id c = i)"

definition svc_wf :: "ServiceInner \<Rightarrow> bool" where
  "svc_wf s \<longleftrightarrow> filed (subscribes s) \<and> filed (new_subscribes s) \<and>
     (\<forall>i. hm_get (subscribes s) i \<noteq> None \<longrightarrow> hm_get (new_subscribes s) i = None) \<and>
     (\<not> need_snapshot s \<longrightarrow> new_subscribes s = [])"

lemma filed_Nil [simp]: "filed []"
  by (simp add: filed_def)

lemma filed_insert [simp]: "filed m \<Longrightarrow> filed (hm_insert (conn_inner_id c) c m)"
  by (auto simp: filed_def)

lemma filed_remove [simp]: "filed m \<Longrightarrow> filed (hm_remove i m)"
  by (auto simp: filed_def)

lemma hm_remove_Nil [simp]: "hm_remove k [] = []"
  by (simp add: hm_remove_def)

lemma svc_wf_new [simp]: "svc_wf (ServiceTmpl_new nm snap)"
  by (simp add: svc_wf_def ServiceTmpl_new_def)

lemma svc_wf_subscribe: "svc_wf s \<Longrightarrow> svc_wf (on_subscribe c s)"
  by (auto simp: svc_wf_def on_subscribe_def)

lemma svc_wf_unsubscribe: "svc_wf s \<Longrightarrow> svc_wf (on_unsubscribe i s)"
  by (auto simp: svc_wf_def on_unsubscribe_def split: option.splits)

interpretation svc: subscription on_subscribe on_unsubscribe is_subed conn_inner_id svc_wf
proof unfold_locales
  fix s i c
  assume "svc_wf s"
  then show "is_subed i (on_subscribe c s) \<longleftrightarrow> i = conn_inner_id c \<or> is_subed i s"
    by (auto simp: is_subed_def on_subscribe_def)
next
  fix s i j
  assume "svc_wf s"
  then show "is_subed i (on_unsubscribe j s) \<longleftrightarrow> i \<noteq> j \<and> is_subed i s"
    by (auto simp: is_subed_def on_unsubscribe_def svc_wf_def split: option.splits)
qed (simp_all add: svc_wf_subscribe svc_wf_unsubscribe)

lemma filed_fold_insert: "filed m \<Longrightarrow> filed (fold (\<lambda>c. hm_insert (conn_inner_id c) c) cs m)"
  by (induction cs arbitrary: m) auto

lemma get_fold_subscribers:
  "hm_get (fold (\<lambda>c. hm_insert (conn_inner_id c) c) cs m) i \<noteq> None \<longleftrightarrow> i \<in> conn_inner_id ` set cs \<or> hm_get m i \<noteq> None"
  by (induction cs arbitrary: m) auto

lemma filed_ids: "filed m \<Longrightarrow> i \<in> conn_inner_id ` set (hm_values m) \<longleftrightarrow> hm_get m i \<noteq> None"
  unfolding filed_def image_iff by (metis hm_get_value option.exhaust_sel values_iff_get option.distinct(1))

lemma svc_wf_swap: "svc_wf s \<Longrightarrow> svc_wf (swap_new_subscribes s)"
  by (auto simp: svc_wf_def swap_new_subscribes_def filed_fold_insert)

lemma is_subed_swap: "svc_wf s \<Longrightarrow> is_subed i (swap_new_subscribes s) = is_subed i s"
  using get_fold_subscribers [of "hm_values (new_subscribes s)" "subscribes s" i] filed_ids [of "new_subscribes s" i]
  by (auto simp: is_subed_def swap_new_subscribes_def svc_wf_def)

section \<open>Deliveries\<close>

definition channel_of :: "message_union \<Rightarrow> ConnInner \<Rightarrow> nat option" where
  "channel_of m c = (if tx_by_video m then tx_video c else tx c)"

lemma get_conn_send:
  "hm_get (conn_send m s ch) c = (if channel_of m s = Some c then map_option (\<lambda>q. q @ [m]) (hm_get ch c) else hm_get ch c)"
  by (auto simp: conn_send_def channel_of_def channel_send_def get_adjust split: option.splits)

text \<open>Every connection of a list gets the message once.\<close>

lemma get_send_all:
  "hm_get (fold (conn_send m) cs ch) c =
     map_option (\<lambda>q. q @ replicate (length (filter (\<lambda>s. channel_of m s = Some c) cs)) m) (hm_get ch c)"
proof (induction cs arbitrary: ch)
  case (Cons s cs)
  then show ?case
    by (cases "hm_get ch c") (auto simp: get_conn_send replicate_append_same)
qed (simp add: option.map_ident)

lemma fold_if: "fold (\<lambda>x s. if P x then f x s else s) xs s = fold f (filter P xs) s"
  by (induction xs arbitrary: s) auto

lemma send_to_others_filter:
  "send_to_others m i s ch = fold (conn_send m) (map snd (filter (\<lambda>e. fst e \<noteq> i) (subscribes s))) ch"
proof -
  have "fold (\<lambda>(sid, c) ch. if sid \<noteq> i then conn_send m c ch else ch) xs ch =
     fold (conn_send m) (map snd (filter (\<lambda>e. fst e \<noteq> i) xs)) ch" for xs
    by (induction xs arbitrary: ch) auto
  then show ?thesis by (simp add: send_to_others_def)
qed

lemma send_without_filter:
  "send_without m i s ch = fold (conn_send m) (filter (\<lambda>c. i \<noteq> conn_inner_id c) (hm_values (subscribes s))) ch"
  by (simp add: send_without_def fold_if)

lemma video_frame_fold:
  "fold (\<lambda>c (ids, ch). (insert (conn_inner_id c) ids, conn_send m c ch)) cs (ids, ch) =
     (ids \<union> conn_inner_id ` set cs, fold (conn_send m) cs ch)"
  by (induction cs arbitrary: ids ch) auto

lemma send_video_frame_shared_eq:
  "send_video_frame_shared m s ch = (conn_inner_id ` set (hm_values (subscribes s)), send_shared m s ch)"
  by (simp add: send_video_frame_shared_def send_shared_def video_frame_fold)

text \<open>
  Within one service, \<open>send_without\<close> and \<open>send_to_others\<close> are the same broadcast to everybody but one
  connection, and \<open>send_video_frame\<close> is \<open>send_shared\<close> that also reports the identifiers of exactly
  the subscribers (not the newcomers).
\<close>

theorem broadcasts_agree:
  assumes "svc_wf s"
  shows "send_without m i s ch = send_to_others m i s ch \<and>
    send_video_frame_shared m s ch = ({j. hm_get (subscribes s) j \<noteq> None}, send_shared m s ch)"
proof
  have "map snd (filter (\<lambda>e. fst e \<noteq> i) xs) = filter (\<lambda>c. i \<noteq> conn_inner_id c) (map snd xs)"
    if "\<forall>e \<in> set xs. conn_inner_id (snd e) = fst e" for xs :: "(int \<times> ConnInner) list"
    using that by (induction xs) auto
  moreover have "\<forall>e \<in> set (subscribes s). conn_inner_id (snd e) = fst e"
    using assms by (auto simp: svc_wf_def filed_def hm_ok_def hm_get_def)
  ultimately show "send_without m i s ch = send_to_others m i s ch"
    by (simp add: send_without_filter send_to_others_filter hm_values_def)
  show "send_video_frame_shared m s ch = ({j. hm_get (subscribes s) j \<noteq> None}, send_shared m s ch)"
    using filed_ids [of "subscribes s"] assms by (auto simp: send_video_frame_shared_eq svc_wf_def)
qed

text \<open>A broadcast and a selective broadcast on two subscribers and a newcomer.\<close>

definition example_service :: ServiceInner where
  "example_service =
     on_subscribe (ConnInner_new 3 (Some 30) None)
       (swap_new_subscribes
         (on_subscribe (ConnInner_new 2 (Some 20) None)
           (on_subscribe (ConnInner_new 1 (Some 10) None) (ServiceTmpl_new ''display'' True))))"

definition example_channels :: channels where
  "example_channels = [(10, []), (20, []), (30, [])]"

lemma example_service_wf: "svc_wf example_service"
  by (simp add: example_service_def svc_wf_subscribe svc_wf_swap)

theorem broadcasts_agree_witness:
  "send_without (OtherUnion [1]) 1 example_service example_channels = [(10, []), (20, [OtherUnion [1]]), (30, [])] \<and>
   send_to_others (OtherUnion [1]) 1 example_service example_channels = [(10, []), (20, [OtherUnion [1]]), (30, [])] \<and>
   fst (send_video_frame_shared (VideoFrame []) example_service example_channels) = {j. hm_get (subscribes example_service) j \<noteq> None}"
proof -
  have "send_to_others (OtherUnion [1]) 1 example_service example_channels = [(10, []), (20, [OtherUnion [1]]), (30, [])]"
    by code_simp
  with broadcasts_agree [OF example_service_wf] show ?thesis by simp
qed

section \<open>Snapshots come first\<close>

datatype svc_event =
  EvSubscribe ConnInner
| EvUnsubscribe int
| EvSend message_union
| EvSendTo message_union int
| EvSendToOthers message_union int
| EvSendWithout message_union int
| EvSendVideoFrame message_union
| EvSnapshot "message_union list" "string + unit"
| EvSetOption string string
| EvJoin

fun svc_step :: "svc_event \<Rightarrow> ServiceInner \<times> channels \<Rightarrow> ServiceInner \<times> channels" where
  "svc_step (EvSubscribe c) (s, ch) = (on_subscribe c s, ch)"
| "svc_step (EvUnsubscribe i) (s, ch) = (on_unsubscribe i s, ch)"
| "svc_step (EvSend m) (s, ch) = (s, send_shared m s ch)"
| "svc_step (EvSendTo m i) (s, ch) = (s, send_to m i s ch)"
| "svc_step (EvSendToOthers m i) (s, ch) = (s, send_to_others m i s ch)"
| "svc_step (EvSendWithout m i) (s, ch) = (s, send_without m i s ch)"
| "svc_step (EvSendVideoFrame m) (s, ch) = (s, snd (send_video_frame_shared m s ch))"
| "svc_step (EvSnapshot ms r) (s, ch) = snd (snapshot ms r s ch)"
| "svc_step (EvSetOption opt val) (s, ch) = (snd (svc_set_option opt val s), ch)"
| "svc_step EvJoin (s, ch) = (svc_join s, ch)"

fun sent_in :: "svc_event \<Rightarrow> message_union list" where
  "sent_in (EvSend m) = [m]"
| "sent_in (EvSendTo m _) = [m]"
| "sent_in (EvSendToOthers m _) = [m]"
| "sent_in (EvSendWithout m _) = [m]"
| "sent_in (EvSendVideoFrame m) = [m]"
| "sent_in (EvSnapshot ms _) = ms"
| "sent_in _ = []"

fun snapshot_in :: "svc_event \<Rightarrow> message_union list option" where
  "snapshot_in (EvSnapshot ms _) = Some ms"
| "snapshot_in _ = None"

text \<open>Every sender to subscribers sends to some of them.\<close>

lemma sends_to_subscribers:
  "send_shared m s ch = fold (conn_send m) (hm_values (subscribes s)) ch"
  "\<exists>cs. set cs \<subseteq> set (hm_values (subscribes s)) \<and> send_to m i s ch = fold (conn_send m) cs ch"
  "\<exists>cs. set cs \<subseteq> set (hm_values (subscribes s)) \<and> send_to_others m i s ch = fold (conn_send m) cs ch"
  "\<exists>cs. set cs \<subseteq> set (hm_values (subscribes s)) \<and> send_without m i s ch = fold (conn_send m) cs ch"
proof -
  show "send_shared m s ch = fold (conn_send m) (hm_values (subscribes s)) ch" by (simp add: send_shared_def)
  show "\<exists>cs. set cs \<subseteq> set (hm_values (subscribes s)) \<and> send_to m i s ch = fold (conn_send m) cs ch"
  proof (cases "hm_get (subscribes s) i")
    case None
    then show ?thesis by (intro exI [of _ "[]"]) (simp add: send_to_def)
  next
    case (Some c)
    then show ?thesis by (intro exI [of _ "[c]"]) (simp add: send_to_def hm_get_value)
  qed
  show "\<exists>cs. set cs \<subseteq> set (hm_values (subscribes s)) \<and> send_to_others m i s ch = fold (conn_send m) cs ch"
    unfolding send_to_others_filter by (intro exI conjI) (auto simp: hm_values_def)
  show "\<exists>cs. set cs \<subseteq> set (hm_values (subscribes s)) \<and> send_without m i s ch = fold (conn_send m) cs ch"
    unfolding send_without_filter by (intro exI conjI) auto
qed

definition starts_in :: "message_union set \<Rightarrow> message_union list \<Rightarrow> bool" where
  "starts_in S q \<longleftrightarrow> q \<noteq> [] \<and> hd q \<in> S"

text \<open>
  The invariant: queues are empty or start with a snapshot message, and those of a subscriber are
  not empty.  \<open>v\<close> says which of a connection's two channels the service uses.
\<close>

definition line :: "bool \<Rightarrow> ConnInner \<Rightarrow> nat option" where
  "line v c = (if v then tx_video c else tx c)"

definition welcomed :: "message_union set \<Rightarrow> bool \<Rightarrow> ServiceInner \<times> channels \<Rightarrow> bool" where
  "welcomed S v sc \<longleftrightarrow> need_snapshot (fst sc) \<and>
     (\<forall>c q. hm_get (snd sc) c = Some q \<longrightarrow> q = [] \<or> starts_in S q) \<and>
     (\<forall>s \<in> set (hm_values (subscribes (fst sc))). \<forall>c q. line v s = Some c \<longrightarrow> hm_get (snd sc) c = Some q \<longrightarrow> starts_in S q)"

lemma starts_in_append [simp]: "starts_in S q \<Longrightarrow> starts_in S (q @ r)"
  by (simp add: starts_in_def)

lemma welcomedD:
  assumes "welcomed S v (s, ch)"
  shows "need_snapshot s" "hm_get ch c = Some q \<Longrightarrow> q = [] \<or> starts_in S q"
    "\<lbrakk>x \<in> set (hm_values (subscribes s)); line v x = Some c; hm_get ch c = Some q\<rbrakk> \<Longrightarrow> starts_in S q"
  using assms by (simp_all add: welcomed_def)

text \<open>Appending \<open>f c\<close> to each channel keeps the invariant when it starts right where the queue was empty.\<close>

lemma welcomed_append:
  assumes "welcomed S v (s, ch)" "\<And>c. hm_get ch' c = map_option (\<lambda>q. q @ f c) (hm_get ch c)" "need_snapshot s'"
    "\<And>c q. \<lbrakk>hm_get ch c = Some q; q = []\<rbrakk> \<Longrightarrow> f c = [] \<or> starts_in S (f c)"
    "\<And>x c q. \<lbrakk>x \<in> set (hm_values (subscribes s')); line v x = Some c\<rbrakk> \<Longrightarrow>
       x \<in> set (hm_values (subscribes s)) \<or> f c \<noteq> []"
  shows "welcomed S v (s', ch')"
proof -
  have q: "q @ f c = [] \<or> starts_in S (q @ f c)" if "hm_get ch c = Some q" for c q
    using welcomedD(2) [OF assms(1) that] assms(4) [OF that] by auto
  have "starts_in S (q @ f c)" if "x \<in> set (hm_values (subscribes s'))" "line v x = Some c" "hm_get ch c = Some q" for x c q
    using assms(5) [OF that(1,2)] welcomedD(3) [OF assms(1) _ that(2,3)] q [OF that(3)] by auto
  with q assms(2,3) show ?thesis unfolding welcomed_def by auto
qed

lemma welcomed_send:
  assumes "welcomed S v (s, ch)" "set cs \<subseteq> set (hm_values (subscribes s))" "tx_by_video m = v"
  shows "welcomed S v (s, fold (conn_send m) cs ch)"
proof (rule welcomed_append [OF assms(1) get_send_all welcomedD(1) [OF assms(1)]])
  fix c q assume *: "hm_get ch c = Some q" "q = []"
  have "\<not> (s' \<in> set cs \<and> channel_of m s' = Some c)" for s'
    using welcomedD(3) [OF assms(1), of s' c q] assms(2,3) * by (auto simp: channel_of_def line_def starts_in_def)
  then have "filter (\<lambda>s. channel_of m s = Some c) cs = []" by (auto simp: filter_empty_conv)
  then show "replicate (length (filter (\<lambda>s. channel_of m s = Some c) cs)) m = [] \<or>
    starts_in S (replicate (length (filter (\<lambda>s. channel_of m s = Some c) cs)) m)" by simp
qed simp

lemma fold_send_many:
  "hm_get (fold (\<lambda>m. fold (conn_send m) cs) ms ch) c =
     map_option (\<lambda>q. q @ concat (map (\<lambda>m. replicate (length (filter (\<lambda>s. channel_of m s = Some c) cs)) m) ms)) (hm_get ch c)"
proof (induction ms arbitrary: ch)
  case (Cons m ms)
  then show ?case by (cases "hm_get ch c") (simp_all add: get_send_all)
qed (simp add: option.map_ident)

lemma values_swap: "svc_wf s \<Longrightarrow> set (hm_values (subscribes (swap_new_subscribes s))) \<subseteq> set (hm_values (subscribes s)) \<union> set (hm_values (new_subscribes s))"
proof -
  have "set (hm_values (fold (\<lambda>c. hm_insert (conn_inner_id c) c) cs m)) \<subseteq> set (hm_values m) \<union> set cs"
    for cs :: "ConnInner list" and m
  proof (induction cs arbitrary: m)
    case (Cons c cs)
    have "set (hm_values (hm_insert (conn_inner_id c) c m)) \<subseteq> insert c (set (hm_values m))" by (rule values_insert)
    with Cons [of "hm_insert (conn_inner_id c) c m"] show ?case by auto
  qed simp
  then show ?thesis by (simp add: swap_new_subscribes_def)
qed

lemma welcomed_snapshot:
  assumes "welcomed S v (s, ch)" "svc_wf s" "ms \<noteq> []" "set ms \<subseteq> S" "\<forall>m \<in> set ms. tx_by_video m = v"
  shows "welcomed S v (snd (snapshot ms r s ch))"
proof (cases "new_subscribes s = []")
  case True
  then show ?thesis using assms(1) by (simp add: snapshot_def)
next
  case False
  let ?cs = "hm_values (new_subscribes s)"
  let ?add = "\<lambda>c. concat (map (\<lambda>m. replicate (length (filter (\<lambda>s. channel_of m s = Some c) ?cs)) m) ms)"
  have add: "?add c = [] \<or> starts_in S (?add c)" for c
  proof (cases "?add c")
    case (Cons m _)
    then have "m \<in> set (?add c)" by simp
    then have "m \<in> set ms" by auto
    then show ?thesis using Cons assms(4) by (auto simp: starts_in_def)
  qed simp
  have full: "?add c \<noteq> []" if "x \<in> set ?cs" "line v x = Some c" for x c
  proof -
    obtain m ms' where ms: "ms = m # ms'" using assms(3) by (cases ms) auto
    have "channel_of m x = Some c" using that(2) assms(5) ms by (simp add: channel_of_def line_def)
    then have "filter (\<lambda>s. channel_of m s = Some c) ?cs \<noteq> []" using that(1) by (auto simp: filter_empty_conv)
    then show ?thesis using ms by simp
  qed
  have e: "snd (snapshot ms r s ch) = (swap_new_subscribes s, fold (\<lambda>m. fold (conn_send m) ?cs) ms ch)"
    using False by (simp add: snapshot_def swap_send_shared_def send_new_subscribes_def [abs_def])
  show ?thesis
    unfolding e
  proof (rule welcomed_append [OF assms(1) fold_send_many])
    show "need_snapshot (swap_new_subscribes s)" using welcomedD(1) [OF assms(1)] by (simp add: swap_new_subscribes_def)
    show "?add c = [] \<or> starts_in S (?add c)" for c by (rule add)
    fix x c q assume x: "x \<in> set (hm_values (subscribes (swap_new_subscribes s)))" "line v x = Some c"
    then have "x \<in> set (hm_values (subscribes s)) \<or> x \<in> set ?cs" using values_swap [OF assms(2)] by blast
    with full [OF _ x(2)] show "x \<in> set (hm_values (subscribes s)) \<or> ?add c \<noteq> []" by blast
  qed
qed

lemma values_subscribe:
  assumes "need_snapshot s"
  shows "need_snapshot (on_subscribe c s)" "subscribes (on_subscribe c s) = subscribes s"
    "need_snapshot (on_unsubscribe i s)" "set (hm_values (subscribes (on_unsubscribe i s))) \<subseteq> set (hm_values (subscribes s))"
  using assms values_remove [of i "subscribes s"] by (auto simp: on_subscribe_def on_unsubscribe_def split: option.splits)

definition event_ok :: "message_union set \<Rightarrow> bool \<Rightarrow> svc_event \<Rightarrow> bool" where
  "event_ok S v e \<longleftrightarrow> list_all (\<lambda>m. tx_by_video m = v) (sent_in e) \<and>
     (case snapshot_in e of Some ms \<Rightarrow> ms \<noteq> [] \<and> set ms \<subseteq> S | None \<Rightarrow> True)"

lemma welcomed_step:
  assumes "svc_wf s" "welcomed S v (s, ch)" "event_ok S v e"
  shows "svc_wf (fst (svc_step e (s, ch))) \<and> welcomed S v (svc_step e (s, ch))"
proof -
  note d = welcomedD(1) [OF assms(2)]
  note to_some = welcomed_send [OF assms(2)]
  show ?thesis
  proof (cases e)
    case (EvSubscribe c)
    then show ?thesis using assms values_subscribe [OF d] by (auto simp: svc_wf_subscribe welcomed_def)
  next
    case (EvUnsubscribe i)
    have "welcomed S v (on_unsubscribe i s, ch)"
      using assms(2) values_subscribe(3,4) [OF d, of i] unfolding welcomed_def fst_conv snd_conv by blast
    then show ?thesis using EvUnsubscribe assms(1) by (simp add: svc_wf_unsubscribe)
  next
    case (EvSend m)
    then show ?thesis using assms to_some [OF order_refl] by (simp add: send_shared_def event_ok_def)
  next
    case (EvSendTo m i)
    then show ?thesis using assms to_some sends_to_subscribers(2) [of s m i ch] by (auto simp: event_ok_def)
  next
    case (EvSendToOthers m i)
    then show ?thesis using assms to_some sends_to_subscribers(3) [of s m i ch] by (auto simp: event_ok_def)
  next
    case (EvSendWithout m i)
    then show ?thesis using assms to_some sends_to_subscribers(4) [of s m i ch] by (auto simp: event_ok_def)
  next
    case (EvSendVideoFrame m)
    then show ?thesis using assms to_some [OF order_refl] by (simp add: send_video_frame_shared_eq send_shared_def event_ok_def)
  next
    case (EvSnapshot ms r)
    have "svc_wf (fst (snd (snapshot ms r s ch)))" using assms(1) by (simp add: snapshot_def svc_wf_swap)
    with EvSnapshot assms welcomed_snapshot [OF assms(2,1), of ms r] show ?thesis by (simp add: event_ok_def list_all_iff)
  next
    case (EvSetOption opt val)
    then show ?thesis using assms by (simp add: svc_set_option_def svc_wf_def welcomed_def)
  next
    case EvJoin
    then show ?thesis using assms by (simp add: svc_join_def svc_wf_def welcomed_def)
  qed
qed

lemma welcomed_run:
  "\<lbrakk>svc_wf (fst sc); welcomed S v sc; list_all (event_ok S v) es\<rbrakk> \<Longrightarrow> welcomed S v (fold svc_step es sc)"
proof (induction es arbitrary: sc)
  case (Cons e es)
  obtain s ch where sc: "sc = (s, ch)" by (cases sc)
  have "svc_wf (fst (svc_step e sc)) \<and> welcomed S v (svc_step e sc)"
    using welcomed_step [of s S v ch e] Cons.prems by (simp add: sc)
  with Cons.IH [of "svc_step e sc"] Cons.prems(3) show ?case by simp
qed simp


definition example_run :: "svc_event list" where
  "example_run = [EvSubscribe (ConnInner_new 1 (Some 10) None), EvSnapshot [OtherUnion [0]] (Inr ()), EvSend (OtherUnion [1]),
     EvSubscribe (ConnInner_new 2 (Some 20) None), EvSend (OtherUnion [2]), EvSnapshot [OtherUnion [7]] (Inl ''late''),
     EvSend (OtherUnion [3]), EvUnsubscribe 1, EvSend (OtherUnion [4])]"


section \<open>The service threads\<close>

text \<open>
  The loop of \<open>repeat\<close>: before each iteration other threads act on the service; the loop ends when
  the service is no longer active.
\<close>

fun repeat_loop ::
  "nat \<Rightarrow> ('s \<Rightarrow> 's) \<Rightarrow> ('s \<Rightarrow> 's) \<Rightarrow> (ServiceInner \<times> channels \<times> 's) callback \<Rightarrow> (svc_event list \<times> nat) list \<Rightarrow>
   ServiceInner \<times> channels \<Rightarrow> 's repeat_thread \<Rightarrow> (ServiceInner \<times> channels) \<times> 's repeat_thread" where
  "repeat_loop interval ini res cb [] sc t = (sc, t)"
| "repeat_loop interval ini res cb ((es, elapsed) # rest) sc t =
     (let sc = fold svc_step es sc in
      if active (fst sc)
      then (case repeat_iter interval elapsed ini res cb sc t of (sc, t) \<Rightarrow> repeat_loop interval ini res cb rest sc t)
      else (sc, t))"

fun phased :: "bool \<Rightarrow> thread_call list \<Rightarrow> bool" where
  "phased ready [] = True"
| "phased ready (CallInit # cs) = (\<not> ready \<and> phased True cs)"
| "phased ready (CallBack # cs) = (ready \<and> phased True cs)"
| "phased ready (CallReset # cs) = (ready \<and> phased False cs)"
| "phased ready (Sleep n # cs) = phased ready cs"

fun phase_after :: "bool \<Rightarrow> thread_call list \<Rightarrow> bool" where
  "phase_after ready [] = ready"
| "phase_after ready (CallInit # cs) = phase_after True cs"
| "phase_after ready (CallBack # cs) = phase_after True cs"
| "phase_after ready (CallReset # cs) = phase_after False cs"
| "phase_after ready (Sleep n # cs) = phase_after ready cs"

lemma phased_append [simp]: "phased b (xs @ ys) \<longleftrightarrow> phased b xs \<and> phased (phase_after b xs) ys"
  by (induction b xs rule: phased.induct) auto

lemma phase_after_append [simp]: "phase_after b (xs @ ys) = phase_after (phase_after b xs) ys"
  by (induction b xs rule: phased.induct) auto

definition in_phase :: "'s repeat_thread \<Rightarrow> bool" where
  "in_phase t \<longleftrightarrow> phased False (calls t) \<and> phase_after False (calls t) = may_reset t"

lemma repeat_iter_in_phase:
  assumes "in_phase t" "repeat_iter interval elapsed ini res cb sc t = (sc', t')"
  shows "in_phase t'"
proof -
  obtain s ch where "sc = (s, ch)" by (cases sc)
  with assms show ?thesis
    by (auto simp: repeat_iter_def Let_def in_phase_def log_call_def split: if_splits prod.splits sum.splits)
qed

text \<open>
  Whatever the callback does and however other threads subscribe, unsubscribe or stop the
  service in between, the thread of \<open>repeat\<close> initialises its state before the first callback after
  an idle period, never twice, and resets it only when it was initialised.
\<close>

theorem repeat_keeps_phase:
  "phased False (calls (snd (repeat_loop interval ini res cb sched sc \<lparr>thread_state = st, may_reset = False, calls = []\<rparr>)))"
proof -
  have "in_phase t \<Longrightarrow> in_phase (snd (repeat_loop interval ini res cb sched sc t))" for t
  proof (induction sched arbitrary: sc t)
    case (Cons x sched)
    obtain es el where x: "x = (es, el)" by (cases x)
    obtain sc' t' where "repeat_iter interval el ini res cb (fold svc_step es sc) t = (sc', t')" by fastforce
    with Cons.IH [OF repeat_iter_in_phase [OF Cons.prems this]] Cons.prems x show ?case by (simp add: Let_def)
  qed simp
  from this [of "\<lparr>thread_state = st, may_reset = False, calls = []\<rparr>"] show ?thesis by (simp add: in_phase_def)
qed

text \<open>The loop of \<open>run\<close>.\<close>

fun run_loop ::
  "(ServiceInner \<times> channels) callback \<Rightarrow> (svc_event list \<times> nat) list \<Rightarrow> ServiceInner \<times> channels \<Rightarrow> nat \<Rightarrow>
   (ServiceInner \<times> channels) \<times> thread_call list" where
  "run_loop cb [] sc t = (sc, [])"
| "run_loop cb ((es, elapsed) # rest) sc t =
     (let sc = fold svc_step es sc in
      if active (fst sc)
      then (case run_iter elapsed cb sc t of
              (sc, t, cs) \<Rightarrow> (case run_loop cb rest sc t of (sc, cs') \<Rightarrow> (sc, cs @ cs')))
      else (sc, []))"

lemma run_error_timeout_bounds:
  "\<lbrakk>HIBERNATE_TIMEOUT \<le> t; t \<le> MAX_ERROR_TIMEOUT\<rbrakk> \<Longrightarrow>
   HIBERNATE_TIMEOUT \<le> run_error_timeout e t \<and> run_error_timeout e t \<le> MAX_ERROR_TIMEOUT"
  by (auto simp: run_error_timeout_def Let_def HIBERNATE_TIMEOUT_def MAX_ERROR_TIMEOUT_def)

lemma run_iter_bounds:
  assumes "HIBERNATE_TIMEOUT \<le> t" "t \<le> MAX_ERROR_TIMEOUT" "run_iter e cb sc t = (sc', t', cs)"
  shows "HIBERNATE_TIMEOUT \<le> t' \<and> t' \<le> MAX_ERROR_TIMEOUT \<and> (\<forall>n. Sleep n \<in> set cs \<longrightarrow> HIBERNATE_TIMEOUT \<le> n \<and> n \<le> MAX_ERROR_TIMEOUT)"
  using assms run_error_timeout_bounds [OF assms(1,2)]
  by (auto simp: run_iter_def Let_def HIBERNATE_TIMEOUT_def MAX_ERROR_TIMEOUT_def split: if_splits prod.splits sum.splits)

lemma run_loop_bounds:
  "\<lbrakk>HIBERNATE_TIMEOUT \<le> t; t \<le> MAX_ERROR_TIMEOUT; Sleep n \<in> set (snd (run_loop cb sched sc t))\<rbrakk> \<Longrightarrow>
   HIBERNATE_TIMEOUT \<le> n \<and> n \<le> MAX_ERROR_TIMEOUT"
proof (induction sched arbitrary: sc t)
  case (Cons x sched)
  obtain es el where x: "x = (es, el)" by (cases x)
  obtain sc' t' cs where it: "run_iter el cb (fold svc_step es sc) t = (sc', t', cs)" by (metis prod_cases3)
  from run_iter_bounds [OF Cons.prems(1,2) it] Cons.IH [of t' sc'] Cons.prems(3) x it show ?case
    by (auto simp: Let_def split: if_splits prod.splits)
qed simp

lemma run_loop_failing:
  assumes "\<And>sc. cb sc = (Inl e, sc)" "has_subscribes (fst sc)" "active (fst sc)" "\<forall>el \<in> set els. el \<le> MAX_ERROR_TIMEOUT"
  shows "snd (run_loop cb (map (Pair []) els) sc (min MAX_ERROR_TIMEOUT (HIBERNATE_TIMEOUT * 2 ^ k))) =
    concat (map (\<lambda>n. [CallBack, Sleep (min MAX_ERROR_TIMEOUT (HIBERNATE_TIMEOUT * 2 ^ Suc (k + n))), Sleep HIBERNATE_TIMEOUT]) [0..<length els])"
  using assms(4)
proof (induction els arbitrary: k)
  case (Cons el els)
  have t: "run_error_timeout el (min MAX_ERROR_TIMEOUT (HIBERNATE_TIMEOUT * 2 ^ k)) = min MAX_ERROR_TIMEOUT (HIBERNATE_TIMEOUT * 2 ^ Suc k)"
    using Cons.prems by (auto simp: run_error_timeout_def Let_def min_def)
  have "[0..<length (el # els)] = 0 # map Suc [0..<length els]" by (simp add: upt_conv_Cons map_Suc_upt del: upt_Suc)
  then show ?case
    using Cons.IH [of "Suc k"] Cons.prems assms(1-3) t by (simp add: run_iter_def Let_def comp_def case_prod_unfold)
qed simp

text \<open>
  The thread of \<open>run\<close> never sleeps less than the hibernation time nor longer than the maximal
  error time-out, whatever happens; and while its callback keeps failing quickly the pause doubles
  each time up to that maximum.
\<close>

theorem run_backs_off:
  "(\<forall>n. Sleep n \<in> set (snd (run_loop cb sched sc HIBERNATE_TIMEOUT)) \<longrightarrow> HIBERNATE_TIMEOUT \<le> n \<and> n \<le> MAX_ERROR_TIMEOUT) \<and>
   ((\<forall>sc. cb sc = (Inl e, sc)) \<and> has_subscribes (fst sc) \<and> active (fst sc) \<and> (\<forall>el \<in> set els. el \<le> MAX_ERROR_TIMEOUT) \<longrightarrow>
    snd (run_loop cb (map (Pair []) els) sc HIBERNATE_TIMEOUT) =
      concat (map (\<lambda>n. [CallBack, Sleep (min MAX_ERROR_TIMEOUT (HIBERNATE_TIMEOUT * 2 ^ Suc n)), Sleep HIBERNATE_TIMEOUT]) [0..<length els]))"
proof -
  have h: "HIBERNATE_TIMEOUT \<le> MAX_ERROR_TIMEOUT" by (simp add: HIBERNATE_TIMEOUT_def MAX_ERROR_TIMEOUT_def)
  show ?thesis
    using run_loop_bounds [OF order_refl h] run_loop_failing [of cb e sc els 0] h by (auto simp: min_absorb2)
qed

theorem run_backs_off_witness:
  "snd (run_loop (\<lambda>sc. (Inl ''no display'', sc)) (map (Pair []) [1, 1, 1, 1, 1, 1]) (example_service, example_channels) HIBERNATE_TIMEOUT) =
     concat (map (\<lambda>n. [CallBack, Sleep n, Sleep 30]) [60, 120, 240, 480, 960, 1000])"
proof -
  have "has_subscribes (fst (example_service, example_channels))" "active (fst (example_service, example_channels))"
    "\<forall>el \<in> set [1, 1, 1, 1, 1, 1]. el \<le> MAX_ERROR_TIMEOUT" by code_simp+
  with run_backs_off [of "\<lambda>sc. (Inl ''no display'', sc)" _ _ "''no display''" "[1, 1, 1, 1, 1, 1]"]
  have "snd (run_loop (\<lambda>sc. (Inl ''no display'', sc)) (map (Pair []) [1, 1, 1, 1, 1, 1]) (example_service, example_channels) HIBERNATE_TIMEOUT) =
      concat (map (\<lambda>n. [CallBack, Sleep (min MAX_ERROR_TIMEOUT (HIBERNATE_TIMEOUT * 2 ^ Suc n)), Sleep HIBERNATE_TIMEOUT]) [0..<length [1, 1, 1, 1, 1, 1 :: nat]])"
    by blast
  then show ?thesis by (simp add: HIBERNATE_TIMEOUT_def MAX_ERROR_TIMEOUT_def upt_rec)
qed

end
