(* ===== verification/Server_Core.thy ===== *)
theory Server_Core
  imports Service Rust_Strings
begin

text \<open>
  The server's bookkeeping (\<open>src/server.rs\<close>): the connections, the services by name and who is
  subscribed to what.  A service behind \<open>Box<dyn Service>\<close> is a \<open>ServiceInner\<close>; whether a camera
  exists and which display is the primary one come from the platform and are arguments.
  Starting a service's thread and the macOS retina flag are not modelled.
\<close>

section \<open>State and operations\<close>

datatype VideoSource = Monitor | Camera

fun service_name_prefix :: "VideoSource \<Rightarrow> string" where
  "service_name_prefix Monitor = ''monitor''"
| "service_name_prefix Camera = ''camera''"

definition get_service_name :: "VideoSource \<Rightarrow> nat \<Rightarrow> string" where
  "get_service_name source idx = service_name_prefix source @ nat_to_string idx"

definition video_service_new :: "VideoSource \<Rightarrow> nat \<Rightarrow> ServiceInner" where
  "video_service_new source idx = (ServiceTmpl_new (get_service_name source idx) True)\<lparr>svc_handle := True\<rparr>"

definition PRIMARY_CAMERA_IDX :: nat where "PRIMARY_CAMERA_IDX = 0"

record Server =
  connections :: "(int, ConnInner) hashmap"
  services :: "(string, ServiceInner) hashmap"
  id_count :: int

definition is_video_service_name :: "string \<Rightarrow> bool" where
  "is_video_service_name name \<longleftrightarrow>
     starts_with name (service_name_prefix Monitor) \<or> starts_with name (service_name_prefix Camera)"

definition add_service :: "ServiceInner \<Rightarrow> Server \<Rightarrow> Server" where
  "add_service s sv = sv\<lparr>services := hm_insert (svc_name s) s (services sv)\<rparr>"

definition contains :: "string \<Rightarrow> Server \<Rightarrow> bool" where
  "contains name sv \<longleftrightarrow> hm_get (services sv) name \<noteq> None"

text \<open>\<open>rand::random::<i32>() % 1000 + 1000\<close>: Rust's remainder takes the sign of the dividend.\<close>

definition rem_i32 :: "int \<Rightarrow> int \<Rightarrow> int" where
  "rem_i32 a b = sgn a * (\<bar>a\<bar> mod \<bar>b\<bar>)"

text \<open>
  The services a desktop server on Linux starts with, by name and need for a snapshot; whether the
  cursor is drawn into the frames and whether the session is X11 are questions to the platform.
\<close>

definition audio_NAME :: string where "audio_NAME = ''audio''"
definition display_NAME :: string where "display_NAME = ''display''"
definition CLIPBOARD_NAME :: string where "CLIPBOARD_NAME = ''clipboard''"
definition NAME_CURSOR :: string where "NAME_CURSOR = ''mouse_cursor''"
definition NAME_POS :: string where "NAME_POS = ''mouse_pos''"
definition NAME_WINDOW_FOCUS :: string where "NAME_WINDOW_FOCUS = ''window_focus''"

definition Server_new :: "int \<Rightarrow> bool \<Rightarrow> bool \<Rightarrow> Server" where
  "Server_new random capture_cursor_embedded is_x11 =
     (let sv = \<lparr>connections = [], services = [], id_count = add_i32 (rem_i32 random 1000) 1000\<rparr>;
          sv = add_service (ServiceTmpl_new audio_NAME True) sv;
          sv = add_service (ServiceTmpl_new display_NAME True) sv;
          sv = add_service (ServiceTmpl_new CLIPBOARD_NAME False) sv
      in if capture_cursor_embedded then sv
         else let sv = add_service (ServiceTmpl_new NAME_CURSOR True) sv;
                  sv = add_service (ServiceTmpl_new NAME_POS False) sv
              in if is_x11 then add_service (ServiceTmpl_new NAME_WINDOW_FOCUS False) sv else sv)"

definition try_add_primary_camera_service :: "bool \<Rightarrow> Server \<Rightarrow> Server" where
  "try_add_primary_camera_service camera_exists sv =
     (if \<not> camera_exists then sv
      else if contains (get_service_name Camera PRIMARY_CAMERA_IDX) sv then sv
      else add_service (video_service_new Camera PRIMARY_CAMERA_IDX) sv)"

definition try_add_primay_video_service :: "nat \<Rightarrow> Server \<Rightarrow> Server" where
  "try_add_primay_video_service primary sv =
     (if contains (get_service_name Monitor primary) sv then sv
      else add_service (video_service_new Monitor primary) sv)"

definition map_services :: "(string \<Rightarrow> ServiceInner \<Rightarrow> ServiceInner) \<Rightarrow> Server \<Rightarrow> Server" where
  "map_services f sv = sv\<lparr>services := map (\<lambda>(k, s). (k, f k s)) (services sv)\<rparr>"

definition insert_connection :: "ConnInner \<Rightarrow> Server \<Rightarrow> Server" where
  "insert_connection c sv = sv\<lparr>connections := hm_insert (conn_inner_id c) c (connections sv)\<rparr>"

definition add_camera_connection :: "bool \<Rightarrow> ConnInner \<Rightarrow> Server \<Rightarrow> Server" where
  "add_camera_connection camera_exists c sv =
     insert_connection c
       (if camera_exists
        then sv\<lparr>services := hm_adjust (get_service_name Camera PRIMARY_CAMERA_IDX) (on_subscribe c) (services sv)\<rparr>
        else sv)"

definition add_connection :: "nat \<Rightarrow> ConnInner \<Rightarrow> string list \<Rightarrow> Server \<Rightarrow> Server" where
  "add_connection primary c noperms sv =
     insert_connection c
       (map_services (\<lambda>_ s.
          if is_video_service_name (svc_name s) \<and> svc_name s \<noteq> get_service_name Monitor primary then s
          else if svc_name s \<notin> set noperms then on_subscribe c s
          else s) sv)"

definition remove_connection :: "ConnInner \<Rightarrow> Server \<Rightarrow> Server" where
  "remove_connection c sv =
     (let sv = map_services (\<lambda>_. on_unsubscribe (conn_inner_id c)) sv
      in sv\<lparr>connections := hm_remove (conn_inner_id c) (connections sv)\<rparr>)"

definition stop_service_msg :: message_union where
  "stop_service_msg = MiscOther []"

definition close_connections :: "Server \<Rightarrow> channels \<Rightarrow> channels" where
  "close_connections sv ch = fold (conn_send stop_service_msg) (hm_values (connections sv)) ch"

definition subscribe :: "string \<Rightarrow> ConnInner \<Rightarrow> bool \<Rightarrow> Server \<Rightarrow> Server" where
  "subscribe name c sub sv =
     (case hm_get (services sv) name of
        None \<Rightarrow> sv
      | Some s \<Rightarrow>
          if is_subed (conn_inner_id c) s = sub then sv
          else sv\<lparr>services := hm_insert name (if sub then on_subscribe c s else on_unsubscribe (conn_inner_id c) s) (services sv)\<rparr>)"

definition get_new_id :: "Server \<Rightarrow> int \<times> Server" where
  "get_new_id sv = (let n = add_i32 (id_count sv) 1 in (n, sv\<lparr>id_count := n\<rparr>))"

definition set_video_service_opt :: "(VideoSource \<times> nat) option \<Rightarrow> string \<Rightarrow> string \<Rightarrow> Server \<Rightarrow> Server" where
  "set_video_service_opt display opt val sv =
     map_services (\<lambda>k s.
       if (case display of Some (source, d) \<Rightarrow> k \<noteq> get_service_name source d | None \<Rightarrow> False) then s
       else if is_video_service_name k then snd (svc_set_option opt val s) else s) sv"

definition get_subbed_displays_count :: "int \<Rightarrow> Server \<Rightarrow> nat" where
  "get_subbed_displays_count conn_id sv =
     length (filter (\<lambda>k. is_video_service_name k \<and>
        (case hm_get (services sv) k of Some s \<Rightarrow> is_subed conn_id s | None \<Rightarrow> False)) (hm_keys (services sv)))"

definition capture_one :: "ConnInner \<Rightarrow> string list \<Rightarrow> bool \<Rightarrow> bool \<Rightarrow> string \<Rightarrow> Server \<Rightarrow> Server" where
  "capture_one c displays include exclude name sv =
     (if is_video_service_name name then
        if name \<in> set displays then (if include then subscribe name c True sv else sv)
        else (if exclude then subscribe name c False sv else sv)
      else sv)"

definition capture_displays :: "ConnInner \<Rightarrow> VideoSource \<Rightarrow> nat list \<Rightarrow> bool \<Rightarrow> bool \<Rightarrow> Server \<Rightarrow> Server" where
  "capture_displays c source displays include exclude sv =
     fold (capture_one c (map (get_service_name source) displays) include exclude) (hm_keys (services sv)) sv"

definition Server_drop :: "Server \<Rightarrow> Server" where
  "Server_drop sv = map_services (\<lambda>_. svc_join) sv"

section \<open>Well-formed servers\<close>

text \<open>Services are filed under their name and are well formed.\<close>

definition server_wf :: "Server \<Rightarrow> bool" where
  "server_wf sv \<longleftrightarrow> hm_ok (services sv) \<and> filed (connections sv) \<and>
     (\<forall>k s. hm_get (services sv) k = Some s \<longrightarrow> svc_name s = k \<and> svc_wf s)"

definition subed_to :: "Server \<Rightarrow> int \<Rightarrow> string \<Rightarrow> bool" where
  "subed_to sv i name \<longleftrightarrow> (case hm_get (services sv) name of Some s \<Rightarrow> is_subed i s | None \<Rightarrow> False)"

lemma get_map_services: "hm_get (services (map_services f sv)) k = map_option (f k) (hm_get (services sv) k)"
proof -
  have "map_of (map (\<lambda>(k, s). (k, f k s)) m) k = map_option (f k) (map_of m k)" for m
    by (induction m) auto
  then show ?thesis by (simp add: map_services_def hm_get_def)
qed

lemma ok_map_services: "hm_ok (services (map_services f sv)) = hm_ok (services sv)"
proof -
  have "map fst (map (\<lambda>(k, s). (k, f k s)) m) = map fst m" for m by (induction m) auto
  then show ?thesis by (simp add: map_services_def hm_ok_def del: map_map)
qed

lemma connections_map_services [simp]: "connections (map_services f sv) = connections sv"
  by (simp add: map_services_def)

lemma svc_name_simps [simp]:
  "svc_name (on_subscribe c s) = svc_name s" "svc_name (on_unsubscribe i s) = svc_name s"
  "svc_name (snd (svc_set_option opt val s)) = svc_name s"
  by (simp_all add: on_subscribe_def on_unsubscribe_def svc_set_option_def split: option.splits)

lemma svc_wf_set_option: "svc_wf s \<Longrightarrow> svc_wf (snd (svc_set_option opt val s))"
  by (simp add: svc_wf_def svc_set_option_def)

lemma server_wf_map:
  "\<lbrakk>server_wf sv; \<And>k s. \<lbrakk>svc_wf s; svc_name s = k\<rbrakk> \<Longrightarrow> svc_wf (f k s) \<and> svc_name (f k s) = k\<rbrakk> \<Longrightarrow> server_wf (map_services f sv)"
  by (auto simp: server_wf_def get_map_services ok_map_services)

lemma subed_to_connections [simp]:
  "subed_to (sv\<lparr>connections := m\<rparr>) = subed_to sv" "subed_to (sv\<lparr>id_count := n\<rparr>) = subed_to sv"
  "subed_to (insert_connection c sv) = subed_to sv"
  by (auto simp: subed_to_def insert_connection_def fun_eq_iff)

lemma services_insert_connection [simp]: "services (insert_connection c sv) = services sv"
  by (simp add: insert_connection_def)

lemma server_wf_connection: "server_wf sv \<Longrightarrow> server_wf (insert_connection c sv)"
  by (simp add: server_wf_def insert_connection_def)

lemma subscribe_facts:
  assumes "server_wf sv"
  shows "server_wf (subscribe name c b sv) \<and> hm_keys (services (subscribe name c b sv)) = hm_keys (services sv) \<and>
    subed_to (subscribe name c b sv) i k =
      (if k = name \<and> i = conn_inner_id c \<and> contains name sv then b else subed_to sv i k)"
proof (cases "hm_get (services sv) name")
  case None
  then show ?thesis using assms by (simp add: subscribe_def contains_def)
next
  case (Some s)
  let ?s = "if is_subed (conn_inner_id c) s = b then s else if b then on_subscribe c s else on_unsubscribe (conn_inner_id c) s"
  have s: "svc_wf s" "svc_name s = name" using assms Some by (auto simp: server_wf_def)
  have keys: "hm_keys (hm_insert name x (services sv)) = hm_keys (services sv)" for x
    using Some by (simp add: hm_keys_def hm_insert_def hm_get_def update_keys weak_map_of_SomeI map_of_SomeD image_iff) (force dest: map_of_SomeD)
  have eq: "subscribe name c b sv = (if is_subed (conn_inner_id c) s = b then sv else sv\<lparr>services := hm_insert name ?s (services sv)\<rparr>)"
    using Some by (simp add: subscribe_def)
  have "server_wf (subscribe name c b sv)"
    using assms s by (auto simp: eq server_wf_def svc_wf_subscribe svc_wf_unsubscribe)
  moreover have "subed_to (subscribe name c b sv) i k = (if k = name \<and> i = conn_inner_id c then b else subed_to sv i k)"
    using svc.subed_switch [OF s(1), of i c b] Some by (auto simp: eq subed_to_def)
  ultimately show ?thesis using Some keys by (simp add: eq contains_def)
qed

section \<open>Who is subscribed to what\<close>

text \<open>The services a new connection is given: no other display than the primary one, nothing forbidden.\<close>

definition granted :: "nat \<Rightarrow> string list \<Rightarrow> string \<Rightarrow> bool" where
  "granted primary noperms name \<longleftrightarrow>
     name \<notin> set noperms \<and> (is_video_service_name name \<longrightarrow> name = get_service_name Monitor primary)"

lemma add_connection_wf: "server_wf sv \<Longrightarrow> server_wf (add_connection primary c noperms sv)"
  unfolding add_connection_def by (intro server_wf_connection server_wf_map) (auto simp: svc_wf_subscribe)

lemma subed_to_add_connection:
  assumes "server_wf sv"
  shows "subed_to (add_connection primary c noperms sv) i name \<longleftrightarrow>
    subed_to sv i name \<or> (i = conn_inner_id c \<and> contains name sv \<and> granted primary noperms name)"
proof (cases "hm_get (services sv) name")
  case (Some s)
  with assms have "svc_wf s" "svc_name s = name" by (auto simp: server_wf_def)
  with Some show ?thesis
    by (auto simp: add_connection_def get_map_services subed_to_def contains_def granted_def svc.subed_sub)
qed (simp add: add_connection_def get_map_services subed_to_def contains_def)

lemma remove_connection_wf: "server_wf sv \<Longrightarrow> server_wf (remove_connection c sv)"
proof -
  assume "server_wf sv"
  then have "server_wf (map_services (\<lambda>_. on_unsubscribe (conn_inner_id c)) sv)"
    by (rule server_wf_map) (auto simp: svc_wf_unsubscribe)
  then show ?thesis by (simp add: remove_connection_def Let_def server_wf_def)
qed

lemma subed_to_remove_connection:
  "server_wf sv \<Longrightarrow> subed_to (remove_connection c sv) i name \<longleftrightarrow> i \<noteq> conn_inner_id c \<and> subed_to sv i name"
  by (auto simp: remove_connection_def Let_def get_map_services subed_to_def server_wf_def svc.subed_unsub split: option.splits)

lemma capture_one_facts:
  assumes "server_wf sv"
  shows "server_wf (capture_one c ds inc exc name sv) \<and> hm_keys (services (capture_one c ds inc exc name sv)) = hm_keys (services sv) \<and>
    subed_to (capture_one c ds inc exc name sv) i k =
      (if k = name \<and> i = conn_inner_id c \<and> contains name sv \<and> is_video_service_name name
       then (if name \<in> set ds then inc \<or> subed_to sv i k else \<not> exc \<and> subed_to sv i k) else subed_to sv i k)"
  using subscribe_facts [OF assms, of name c] assms by (auto simp: capture_one_def)

lemma contains_keys: "contains name sv \<longleftrightarrow> name \<in> set (hm_keys (services sv))"
  by (simp add: contains_def keys_iff_get)

lemma capture_all:
  assumes "server_wf sv" "distinct names"
  shows "server_wf (fold (capture_one c ds inc exc) names sv) \<and>
    hm_keys (services (fold (capture_one c ds inc exc) names sv)) = hm_keys (services sv) \<and>
    subed_to (fold (capture_one c ds inc exc) names sv) i k =
      (if k \<in> set names \<and> i = conn_inner_id c \<and> contains k sv \<and> is_video_service_name k
       then (if k \<in> set ds then inc \<or> subed_to sv i k else \<not> exc \<and> subed_to sv i k) else subed_to sv i k)"
  using assms
proof (induction names arbitrary: sv)
  case (Cons n names)
  note 1 = capture_one_facts [OF Cons.prems(1), of c ds inc exc n]
  then have "server_wf (capture_one c ds inc exc n sv)" by blast
  from Cons.IH [OF this] Cons.prems(2) 1 show ?case by (auto simp: contains_keys)
qed simp

lemma capture_displays_facts:
  assumes "server_wf sv"
  shows "server_wf (capture_displays c source ds inc exc sv) \<and>
    hm_keys (services (capture_displays c source ds inc exc sv)) = hm_keys (services sv) \<and>
    subed_to (capture_displays c source ds inc exc sv) i k =
      (if i = conn_inner_id c \<and> contains k sv \<and> is_video_service_name k
       then (if k \<in> get_service_name source ` set ds then inc \<or> subed_to sv i k else \<not> exc \<and> subed_to sv i k)
       else subed_to sv i k)"
proof -
  have "distinct (hm_keys (services sv))" using assms by (simp add: server_wf_def hm_ok_def hm_keys_def)
  from capture_all [OF assms this, of c "map (get_service_name source) ds" inc exc i k] show ?thesis
    by (simp add: capture_displays_def contains_keys)
qed

text \<open>
  C11. A new connection is subscribed to exactly the services it may use: everything that is not in
  its list of missing permissions, and of the displays and cameras only the primary display;
  nobody else's subscriptions change, and closing the connection later takes exactly its
  subscriptions away.
\<close>

theorem connection_lifecycle:
  assumes "server_wf sv" "\<And>name. \<not> subed_to sv (conn_inner_id c) name"
  shows "(\<forall>i name. subed_to (add_connection primary c noperms sv) i name \<longleftrightarrow>
      subed_to sv i name \<or> (i = conn_inner_id c \<and> contains name sv \<and> granted primary noperms name)) \<and>
    (\<forall>i name. subed_to (remove_connection c (add_connection primary c noperms sv)) i name = subed_to sv i name) \<and>
    hm_get (connections (add_connection primary c noperms sv)) (conn_inner_id c) = Some c \<and>
    hm_get (connections (remove_connection c (add_connection primary c noperms sv))) (conn_inner_id c) = None"
  using assms subed_to_add_connection [OF assms(1)] subed_to_remove_connection [OF add_connection_wf [OF assms(1)]]
  by (auto simp: add_connection_def insert_connection_def remove_connection_def Let_def)

text \<open>
  Choosing displays with inclusion and exclusion leaves a connection subscribed to exactly the
  chosen displays that have a service, and the count of its displays agrees; the other
  connections and the other services are not affected.
\<close>

theorem capture_displays_exact:
  assumes "server_wf sv"
  shows "(\<forall>i k. subed_to (capture_displays c source ds True True sv) i k \<longleftrightarrow>
      (if i = conn_inner_id c \<and> is_video_service_name k \<and> contains k sv then k \<in> get_service_name source ` set ds else subed_to sv i k)) \<and>
    get_subbed_displays_count (conn_inner_id c) (capture_displays c source ds True True sv) =
      card {k. k \<in> get_service_name source ` set ds \<and> contains k sv}"
proof -
  let ?sv = "capture_displays c source ds True True sv"
  note f = capture_displays_facts [OF assms, of c source ds True True]
  have sub: "subed_to ?sv i k \<longleftrightarrow>
      (if i = conn_inner_id c \<and> is_video_service_name k \<and> contains k sv then k \<in> get_service_name source ` set ds else subed_to sv i k)" for i k
    using f by auto
  have vid: "is_video_service_name (get_service_name source d)" for d
    by (cases source) (simp_all add: is_video_service_name_def get_service_name_def starts_with_def)
  have "distinct (hm_keys (services sv))" using assms by (simp add: server_wf_def hm_ok_def hm_keys_def)
  then have "length (filter P (hm_keys (services sv))) = card {k \<in> set (hm_keys (services sv)). P k}" for P
    by (metis distinct_card distinct_filter set_filter)
  moreover have "get_subbed_displays_count (conn_inner_id c) ?sv =
      length (filter (\<lambda>k. is_video_service_name k \<and> subed_to ?sv (conn_inner_id c) k) (hm_keys (services sv)))"
    using f by (simp add: get_subbed_displays_count_def subed_to_def)
  ultimately have "get_subbed_displays_count (conn_inner_id c) ?sv =
      card {k \<in> set (hm_keys (services sv)). is_video_service_name k \<and> subed_to ?sv (conn_inner_id c) k}" by simp
  also have "{k \<in> set (hm_keys (services sv)). is_video_service_name k \<and> subed_to ?sv (conn_inner_id c) k} =
      {k. k \<in> get_service_name source ` set ds \<and> contains k sv}"
    using vid by (auto simp: sub contains_keys)
  finally show ?thesis using sub by simp
qed

definition example_server_state :: Server where
  "example_server_state =
     add_connection 0 (ConnInner_new 1 (Some 10) (Some 11)) []
       (add_service (video_service_new Monitor 1) (add_service (video_service_new Monitor 0) (Server_new 7 False True)))"

lemma add_service_wf: "\<lbrakk>server_wf sv; svc_wf s\<rbrakk> \<Longrightarrow> server_wf (add_service s sv)"
  by (simp add: server_wf_def add_service_def)

lemma Server_new_wf: "server_wf (Server_new r emb x11)"
proof -
  have "server_wf \<lparr>connections = [], services = [], id_count = n\<rparr>" for n
    by (simp add: server_wf_def)
  then show ?thesis unfolding Server_new_def Let_def
    by (auto intro!: add_service_wf svc_wf_new)
qed

lemma video_service_new_wf [simp]: "svc_wf (video_service_new source i)" "svc_name (video_service_new source i) = get_service_name source i"
  using svc_wf_new by (simp_all add: video_service_new_def svc_wf_def ServiceTmpl_new_def)

lemma example_server_state_wf: "server_wf example_server_state"
  unfolding example_server_state_def by (intro add_connection_wf add_service_wf Server_new_wf video_service_new_wf)

theorem connection_lifecycle_witness:
  "subed_to (add_connection 0 (ConnInner_new 2 (Some 20) None) [''clipboard''] example_server_state) 2 ''audio'' \<and>
   \<not> subed_to (add_connection 0 (ConnInner_new 2 (Some 20) None) [''clipboard''] example_server_state) 2 ''clipboard'' \<and>
   \<not> subed_to (add_connection 0 (ConnInner_new 2 (Some 20) None) [''clipboard''] example_server_state) 2 ''monitor1'' \<and>
   \<not> subed_to (remove_connection (ConnInner_new 2 (Some 20) None)
        (add_connection 0 (ConnInner_new 2 (Some 20) None) [''clipboard''] example_server_state)) 2 ''audio''"
proof -
  have none: "\<not> subed_to example_server_state (conn_inner_id (ConnInner_new 2 (Some 20) None)) name" for name
  proof -
    have "list_all (\<lambda>(k, s). \<not> is_subed 2 s) (services example_server_state)" by code_simp
    then show ?thesis
      by (auto simp: subed_to_def ConnInner_new_def list_all_iff hm_get_def split: option.splits dest!: map_of_SomeD)
  qed
  have "contains ''audio'' example_server_state" "granted 0 [''clipboard''] ''audio''"
    "\<not> granted 0 [''clipboard''] ''clipboard''" "\<not> granted 0 [''clipboard''] ''monitor1''" by code_simp+
  with connection_lifecycle [OF example_server_state_wf none, of 0 "[''clipboard'']"] none show ?thesis
    by (auto simp: ConnInner_new_def)
qed

theorem capture_displays_exact_witness:
  "subed_to (capture_displays (ConnInner_new 1 (Some 10) (Some 11)) Monitor [1, 5] True True example_server_state) 1 ''monitor1'' \<and>
   \<not> subed_to (capture_displays (ConnInner_new 1 (Some 10) (Some 11)) Monitor [1, 5] True True example_server_state) 1 ''monitor0'' \<and>
   subed_to (capture_displays (ConnInner_new 1 (Some 10) (Some 11)) Monitor [1, 5] True True example_server_state) 1 ''audio''"
proof -
  have "contains ''monitor1'' example_server_state" "contains ''monitor0'' example_server_state"
    "is_video_service_name ''monitor1''" "is_video_service_name ''monitor0''" "\<not> is_video_service_name ''audio''"
    "subed_to example_server_state 1 ''audio''" by code_simp+
  moreover have "''monitor1'' \<in> get_service_name Monitor ` set [1, 5]" "''monitor0'' \<notin> get_service_name Monitor ` set [1, 5]"
    by code_simp+
  moreover note capture_displays_exact [OF example_server_state_wf, of "ConnInner_new 1 (Some 10) (Some 11)" Monitor "[1, 5]"]
  ultimately show ?thesis by (auto simp: ConnInner_new_def)
qed

section \<open>A closed connection stays out\<close>

datatype server_op =
  OpTryAddCamera bool
| OpTryAddVideo nat
| OpAddCameraConnection bool ConnInner
| OpAddConnection nat ConnInner "string list"
| OpRemoveConnection ConnInner
| OpSubscribe string ConnInner bool
| OpCaptureDisplays ConnInner VideoSource "nat list" bool bool
| OpSetVideoServiceOpt "(VideoSource \<times> nat) option" string string
| OpGetNewId

fun server_apply :: "server_op \<Rightarrow> Server \<Rightarrow> Server" where
  "server_apply (OpTryAddCamera cam) sv = try_add_primary_camera_service cam sv"
| "server_apply (OpTryAddVideo primary) sv = try_add_primay_video_service primary sv"
| "server_apply (OpAddCameraConnection cam c) sv = add_camera_connection cam c sv"
| "server_apply (OpAddConnection primary c noperms) sv = add_connection primary c noperms sv"
| "server_apply (OpRemoveConnection c) sv = remove_connection c sv"
| "server_apply (OpSubscribe name c b) sv = subscribe name c b sv"
| "server_apply (OpCaptureDisplays c source ds inc exc) sv = capture_displays c source ds inc exc sv"
| "server_apply (OpSetVideoServiceOpt d opt val) sv = set_video_service_opt d opt val sv"
| "server_apply OpGetNewId sv = snd (get_new_id sv)"

fun op_conn :: "server_op \<Rightarrow> int option" where
  "op_conn (OpAddCameraConnection _ c) = Some (conn_inner_id c)"
| "op_conn (OpAddConnection _ c _) = Some (conn_inner_id c)"
| "op_conn (OpRemoveConnection c) = Some (conn_inner_id c)"
| "op_conn (OpSubscribe _ c _) = Some (conn_inner_id c)"
| "op_conn (OpCaptureDisplays c _ _ _ _) = Some (conn_inner_id c)"
| "op_conn _ = None"

lemma add_video_service:
  assumes "server_wf sv" "\<not> contains (get_service_name source idx) sv"
  shows "server_wf (add_service (video_service_new source idx) sv) \<and>
    subed_to (add_service (video_service_new source idx) sv) i k = subed_to sv i k"
  using assms
  by (auto simp: server_wf_def add_service_def subed_to_def contains_def is_subed_def video_service_new_def ServiceTmpl_new_def
      svc_wf_def split: option.splits)

lemma set_video_service_opt_facts:
  assumes "server_wf sv"
  shows "server_wf (set_video_service_opt d opt val sv) \<and> subed_to (set_video_service_opt d opt val sv) i k = subed_to sv i k"
proof -
  have "is_subed i (snd (svc_set_option opt val s)) = is_subed i s" for s
    by (simp add: is_subed_def svc_set_option_def)
  then show ?thesis
    unfolding set_video_service_opt_def using assms
    by (auto simp: subed_to_def get_map_services svc_wf_set_option intro!: server_wf_map split: option.splits)
qed

lemma add_camera_connection_facts:
  assumes "server_wf sv"
  shows "server_wf (add_camera_connection cam c sv) \<and>
    (i \<noteq> conn_inner_id c \<longrightarrow> subed_to (add_camera_connection cam c sv) i k = subed_to sv i k)"
  using assms
  by (auto simp: add_camera_connection_def server_wf_def subed_to_def get_adjust ok_adjust svc_wf_subscribe svc.subed_sub
      insert_connection_def split: option.splits if_splits)

text \<open>Every operation keeps the server well formed and leaves the subscriptions of other connections alone.\<close>

lemma server_apply_frame:
  assumes "server_wf sv"
  shows "server_wf (server_apply oper sv) \<and> (op_conn oper \<noteq> Some i \<longrightarrow> subed_to (server_apply oper sv) i k = subed_to sv i k)"
proof (cases oper)
  case (OpTryAddCamera cam)
  then show ?thesis using assms add_video_service [OF assms] by (simp add: try_add_primary_camera_service_def)
next
  case (OpTryAddVideo primary)
  then show ?thesis using assms add_video_service [OF assms] by (simp add: try_add_primay_video_service_def)
next
  case (OpAddCameraConnection cam c)
  then show ?thesis using add_camera_connection_facts [OF assms, of cam c i k] by auto
next
  case (OpSetVideoServiceOpt d opt val)
  then show ?thesis using set_video_service_opt_facts [OF assms] by simp
next
  case OpGetNewId
  then show ?thesis using assms by (simp add: get_new_id_def Let_def server_wf_def)
next
  case (OpCaptureDisplays c source ds inc exc)
  then show ?thesis using capture_displays_facts [OF assms, of c source ds inc exc i k] by auto
qed (use assms subscribe_facts [OF assms, of _ _ _ i k] in \<open>auto simp: add_connection_wf subed_to_add_connection
      remove_connection_wf subed_to_remove_connection\<close>)

text \<open>
  Once a connection is removed it gets nothing any more: after any further operations of the
  server on behalf of other connections it is subscribed to no service.
\<close>

theorem removed_stays_out:
  assumes "server_wf sv" "list_all (\<lambda>oper. op_conn oper \<noteq> Some (conn_inner_id c)) ops"
  shows "server_wf (fold server_apply ops (remove_connection c sv)) \<and>
    \<not> subed_to (fold server_apply ops (remove_connection c sv)) (conn_inner_id c) name"
proof -
  have "\<lbrakk>server_wf sv; \<not> subed_to sv (conn_inner_id c) name; list_all (\<lambda>oper. op_conn oper \<noteq> Some (conn_inner_id c)) ops\<rbrakk> \<Longrightarrow>
    server_wf (fold server_apply ops sv) \<and> \<not> subed_to (fold server_apply ops sv) (conn_inner_id c) name" for sv
  proof (induction ops arbitrary: sv)
    case (Cons oper ops)
    from server_apply_frame [OF Cons.prems(1), of oper "conn_inner_id c" name] Cons.IH [of "server_apply oper sv"] Cons.prems
    show ?case by simp
  qed simp
  from this [OF remove_connection_wf [OF assms(1)]] subed_to_remove_connection [OF assms(1)] assms(2) show ?thesis by simp
qed

theorem removed_stays_out_witness:
  "\<not> subed_to (fold server_apply [OpGetNewId, OpAddConnection 0 (ConnInner_new 2 None None) []]
        (remove_connection (ConnInner_new 1 None None) example_server_state)) 1 ''audio'' \<and>
   subed_to (fold server_apply [OpGetNewId, OpAddConnection 0 (ConnInner_new 2 None None) []]
        (remove_connection (ConnInner_new 1 None None) example_server_state)) 2 ''audio''"
proof -
  have "list_all (\<lambda>oper. op_conn oper \<noteq> Some (conn_inner_id (ConnInner_new 1 None None))) [OpGetNewId, OpAddConnection 0 (ConnInner_new 2 None None) []]"
    by code_simp
  from removed_stays_out [OF example_server_state_wf this, of "''audio''"]
  have "\<not> subed_to (fold server_apply [OpGetNewId, OpAddConnection 0 (ConnInner_new 2 None None) []]
        (remove_connection (ConnInner_new 1 None None) example_server_state)) 1 ''audio''"
    by (simp add: ConnInner_new_def)
  moreover have "subed_to (fold server_apply [OpGetNewId, OpAddConnection 0 (ConnInner_new 2 None None) []]
        (remove_connection (ConnInner_new 1 None None) example_server_state)) 2 ''audio''" by code_simp
  ultimately show ?thesis by blast
qed

end
