(* ===== verification/Server_Spec.thy ===== *)
theory Server_Spec
  imports Server_Core
begin

text \<open>
  What the server promises, without its maps and without snapshots: a set of services and a
  relation between connections and services.  Every operation of \<open>Server\<close> (\<open>src/server.rs\<close>) refines
  one operation on this relation.
\<close>

section \<open>The relation\<close>

record sub_table =
  tab_services :: "string set"
  tab_subs :: "(int \<times> string) set"

definition abs_server :: "Server \<Rightarrow> sub_table" where
  "abs_server sv = \<lparr>tab_services = {name. contains name sv}, tab_subs = {(i, name). subed_to sv i name}\<rparr>"

definition open_service :: "string \<Rightarrow> sub_table \<Rightarrow> sub_table" where
  "open_service name T = T\<lparr>tab_services := insert name (tab_services T)\<rparr>"

definition relate :: "int \<Rightarrow> (string \<Rightarrow> bool) \<Rightarrow> sub_table \<Rightarrow> sub_table" where
  "relate i P T = T\<lparr>tab_subs := tab_subs T \<union> {(i, name) | name. name \<in> tab_services T \<and> P name}\<rparr>"

definition unrelate :: "int \<Rightarrow> (string \<Rightarrow> bool) \<Rightarrow> sub_table \<Rightarrow> sub_table" where
  "unrelate i P T = T\<lparr>tab_subs := {(j, name) \<in> tab_subs T. \<not> (j = i \<and> P name)}\<rparr>"

fun spec_apply :: "server_op \<Rightarrow> sub_table \<Rightarrow> sub_table" where
  "spec_apply (OpTryAddCamera cam) T = (if cam then open_service (get_service_name Camera PRIMARY_CAMERA_IDX) T else T)"
| "spec_apply (OpTryAddVideo primary) T = open_service (get_service_name Monitor primary) T"
| "spec_apply (OpAddCameraConnection cam c) T =
     (if cam then relate (conn_inner_id c) (\<lambda>name. name = get_service_name Camera PRIMARY_CAMERA_IDX) T else T)"
| "spec_apply (OpAddConnection primary c noperms) T = relate (conn_inner_id c) (granted primary noperms) T"
| "spec_apply (OpRemoveConnection c) T = unrelate (conn_inner_id c) (\<lambda>_. True) T"
| "spec_apply (OpSubscribe name c b) T =
     (if b then relate (conn_inner_id c) (\<lambda>n. n = name) T else unrelate (conn_inner_id c) (\<lambda>n. n = name) T)"
| "spec_apply (OpCaptureDisplays c source ds inc exc) T =
     (let named = (\<lambda>n. n \<in> get_service_name source ` set ds);
          T1 = (if inc then relate (conn_inner_id c) named T else T)
      in if exc then unrelate (conn_inner_id c) (\<lambda>n. is_video_service_name n \<and> \<not> named n) T1 else T1)"
| "spec_apply (OpSetVideoServiceOpt _ _ _) T = T"
| "spec_apply OpGetNewId T = T"

lemma subed_contains: "subed_to sv i name \<Longrightarrow> contains name sv"
  by (auto simp: subed_to_def contains_def split: option.splits)

lemma contains_map_services [simp]: "contains name (map_services f sv) = contains name sv"
  by (simp add: contains_def get_map_services)

lemma contains_connections [simp]:
  "contains name (insert_connection c sv) = contains name sv" "contains name (sv\<lparr>connections := m\<rparr>) = contains name sv"
  by (simp_all add: contains_def)

lemma sub_table_eqI: "\<lbrakk>tab_services S = tab_services T; tab_subs S = tab_subs T\<rbrakk> \<Longrightarrow> S = (T :: sub_table)"
  by simp

section \<open>Refinement\<close>

locale refinement =
  fixes inv :: "'s \<Rightarrow> bool" and abs :: "'s \<Rightarrow> 'a" and conc :: "'o \<Rightarrow> 's \<Rightarrow> 's" and spec :: "'o \<Rightarrow> 'a \<Rightarrow> 'a"
  assumes inv_step: "inv s \<Longrightarrow> inv (conc oper s)"
    and abs_step: "inv s \<Longrightarrow> abs (conc oper s) = spec oper (abs s)"
begin

lemma simulates: "inv s \<Longrightarrow> inv (fold conc ops s) \<and> abs (fold conc ops s) = fold spec ops (abs s)"
  by (induction ops arbitrary: s) (simp_all add: inv_step abs_step)

end

lemma contains_add_service: "svc_name s = n \<Longrightarrow> contains name (add_service s sv) \<longleftrightarrow> name = n \<or> contains name sv"
  by (simp add: contains_def add_service_def)

lemma abs_open:
  assumes "server_wf sv" "\<not> contains (get_service_name source i) sv"
  shows "abs_server (add_service (video_service_new source i) sv) = open_service (get_service_name source i) (abs_server sv)"
  using add_video_service [OF assms] by (auto simp: abs_server_def open_service_def contains_add_service)

lemma open_present: "name \<in> tab_services T \<Longrightarrow> open_service name T = T"
  by (simp add: open_service_def insert_absorb)

lemma abs_camera_connection:
  assumes "server_wf sv"
  shows "abs_server (add_camera_connection cam c sv) = spec_apply (OpAddCameraConnection cam c) (abs_server sv)"
proof -
  have "subed_to (add_camera_connection cam c sv) i k \<longleftrightarrow> subed_to sv i k \<or>
      cam \<and> i = conn_inner_id c \<and> k = get_service_name Camera PRIMARY_CAMERA_IDX \<and> contains k sv" for i k
    using assms
    by (auto simp: add_camera_connection_def server_wf_def subed_to_def contains_def get_adjust svc.subed_sub split: option.splits)
  moreover have "contains k (add_camera_connection cam c sv) = contains k sv" for k
    by (simp add: add_camera_connection_def contains_def get_adjust split: option.splits)
  ultimately show ?thesis by (auto simp: abs_server_def relate_def)
qed

lemma abs_subscribe:
  assumes "server_wf sv"
  shows "abs_server (subscribe name c b sv) = spec_apply (OpSubscribe name c b) (abs_server sv)"
  using subscribe_facts [OF assms, of name c b] subed_contains [of sv]
  by (auto simp: abs_server_def relate_def unrelate_def contains_keys)

lemma abs_capture:
  assumes "server_wf sv"
  shows "abs_server (capture_displays c source ds inc exc sv) = spec_apply (OpCaptureDisplays c source ds inc exc) (abs_server sv)"
proof -
  have v: "is_video_service_name (get_service_name source d)" for d
    by (cases source) (simp_all add: is_video_service_name_def get_service_name_def starts_with_def)
  show ?thesis
    using capture_displays_facts [OF assms, of c source ds inc exc] subed_contains [of sv] v
    by (auto simp: abs_server_def relate_def unrelate_def contains_keys Let_def)
qed

lemma server_op_refines:
  assumes "server_wf sv"
  shows "abs_server (server_apply oper sv) = spec_apply oper (abs_server sv)"
proof (cases oper)
  case (OpTryAddCamera cam)
  then show ?thesis using abs_open [OF assms] open_present
    by (auto simp: try_add_primary_camera_service_def abs_server_def)
next
  case (OpTryAddVideo primary)
  then show ?thesis using abs_open [OF assms] open_present
    by (auto simp: try_add_primay_video_service_def abs_server_def)
next
  case (OpAddConnection primary c noperms)
  then show ?thesis using subed_to_add_connection [OF assms]
    by (auto simp: abs_server_def relate_def add_connection_def)
next
  case (OpRemoveConnection c)
  then show ?thesis using subed_to_remove_connection [OF assms]
    by (auto simp: abs_server_def unrelate_def remove_connection_def Let_def)
next
  case (OpSetVideoServiceOpt d opt val)
  then show ?thesis using set_video_service_opt_facts [OF assms, of d opt val]
    by (auto simp: abs_server_def set_video_service_opt_def)
next
  case OpGetNewId
  then show ?thesis by (simp add: abs_server_def get_new_id_def Let_def contains_def)
qed (use abs_camera_connection [OF assms] abs_subscribe [OF assms] abs_capture [OF assms] in simp_all)

interpretation srv: refinement server_wf abs_server server_apply spec_apply
  by unfold_locales (simp_all add: server_op_refines server_apply_frame)

text \<open>
  C22. The server refines a relation.  After any sequence of operations, opening services, adding, removing
  and subscribing connections, choosing displays and setting options, the services it knows and who is subscribed to
  which of them are what the same operations do to a plain set of pairs; snapshots, the two
  subscriber maps of a service, and the order of the hash maps never show.
\<close>

theorem server_refines_relation:
  assumes "server_wf sv"
  shows "abs_server (fold server_apply ops sv) = fold spec_apply ops (abs_server sv)"
  using srv.simulates [OF assms] by blast

theorem server_refines_relation_witness:
  "(7, ''audio'') \<in> tab_subs (abs_server (fold server_apply [OpTryAddVideo 0, OpAddConnection 0 (ConnInner_new 7 None None) [''clipboard'']]
      (Server_new 5 False True)))
   \<and> (7, ''clipboard'') \<notin> tab_subs (abs_server (fold server_apply [OpTryAddVideo 0, OpAddConnection 0 (ConnInner_new 7 None None) [''clipboard'']]
      (Server_new 5 False True)))"
proof -
  have "contains ''audio'' (Server_new 5 False True)" "\<not> is_video_service_name ''audio''"
    "\<not> subed_to (Server_new 5 False True) 7 ''clipboard''" by code_simp+
  then show ?thesis unfolding server_refines_relation [OF Server_new_wf]
    by (simp add: relate_def open_service_def abs_server_def granted_def ConnInner_new_def)
qed

end
