(* ===== verification/Login_Guard.thy ===== *)
theory Login_Guard
  imports Rust_Prelude Rust_Maps
begin

text \<open>
  The tables of failed logins (\<open>LOGIN_FAILURES\<close>, \<open>check_failure\<close> and \<open>update_failure\<close> of
  \<open>src/server/connection.rs\<close>).  A failure entry holds the minute of the last failure, the number of
  failures within it and the number of all failures.  The tables' keys are strings in the source,
  an address or a network written as \<open>prefix/length\<close>; here they are values of \<open>failure_key\<close>, which
  those strings denote one to one.  A connection's \<open>ip\<close> is the printed \<open>IpAddr\<close>, so parsing it as an
  IPv6 address succeeds exactly for the IPv6 addresses.
\<close>

section \<open>State\<close>

datatype ip_addr = IpV4 u32 | IpV6 u128

datatype failure_key = FullIp ip_addr | Ip6Prefix nat u128

type_synonym failure = "int \<times> int \<times> int"

type_synonym failure_table = "(failure_key, failure) hashmap"

section \<open>Operations\<close>

definition mask_u128 :: "u128 \<Rightarrow> nat \<Rightarrow> u128" where
  "mask_u128 addr pre = (addr AND (if pre = 0 \<or> pre > 128 then 0 else push_bit (128 - pre) (- 1)))"

definition get_ipv6_prefixes :: "ip_addr \<Rightarrow> (failure_key \<times> failure_key \<times> failure_key) option" where
  "get_ipv6_prefixes ip =
     (case ip of
        IpV4 _ \<Rightarrow> None
      | IpV6 a \<Rightarrow> Some (Ip6Prefix 64 (mask_u128 a 64), Ip6Prefix 56 (mask_u128 a 56), Ip6Prefix 48 (mask_u128 a 48)))"

definition bump :: "failure \<Rightarrow> int \<Rightarrow> failure" where
  "bump cur time =
     (case cur of (m, k, n) \<Rightarrow>
        if m = time then (m, add_i32 k 1, add_i32 n 1) else (time, 1, add_i32 n 1))"

definition get_failure :: "failure_table \<Rightarrow> failure_key \<Rightarrow> failure" where
  "get_failure tbl k = (case hm_get tbl k of Some f \<Rightarrow> f | None \<Rightarrow> (0, 0, 0))"

definition update_failure :: "ip_addr \<Rightarrow> failure \<times> int \<Rightarrow> bool \<Rightarrow> failure_table \<Rightarrow> failure_table" where
  "update_failure ip ft remove tbl =
     (case ft of (failure, time) \<Rightarrow>
        if remove then
          (if fst failure \<noteq> 0 then
             (case get_ipv6_prefixes ip of
                Some (p64, p56, p48) \<Rightarrow> hm_remove (FullIp ip) (hm_remove p48 (hm_remove p56 (hm_remove p64 tbl)))
              | None \<Rightarrow> hm_remove (FullIp ip) tbl)
           else tbl)
        else
          hm_insert (FullIp ip) (bump failure time)
            (case get_ipv6_prefixes ip of
               Some (p64, p56, p48) \<Rightarrow> fold (\<lambda>key m. hm_insert key (bump (get_failure m key) time) m) [p64, p56, p48] tbl
             | None \<Rightarrow> tbl))"

text \<open>The messages and alarms of a refusal.\<close>

datatype refusal = TooManyForPrefix nat | TooManyAttempts | TryOneMinuteLater

definition check_failure_ipv6_prefix :: "int \<Rightarrow> failure_key \<Rightarrow> nat \<Rightarrow> int \<Rightarrow> failure_table \<Rightarrow> ((failure \<times> int) \<times> refusal option) option" where
  "check_failure_ipv6_prefix time key prefix_num thresh tbl =
     (let failure_prefix = get_failure tbl key in
      if snd (snd failure_prefix) > thresh
      then Some ((failure_prefix, time), Some (TooManyForPrefix prefix_num)) else None)"

definition check_failure :: "int \<Rightarrow> ip_addr \<Rightarrow> failure_table \<Rightarrow> (failure \<times> int) \<times> refusal option" where
  "check_failure time ip tbl =
     (let blocked =
            (case get_ipv6_prefixes ip of
               None \<Rightarrow> None
             | Some (p64, p56, p48) \<Rightarrow>
                 (case check_failure_ipv6_prefix time p64 64 60 tbl of
                    Some r \<Rightarrow> Some r
                  | None \<Rightarrow>
                      (case check_failure_ipv6_prefix time p56 56 80 tbl of
                         Some r \<Rightarrow> Some r
                       | None \<Rightarrow> check_failure_ipv6_prefix time p48 48 100 tbl)))
      in case blocked of
           Some r \<Rightarrow> r
         | None \<Rightarrow>
             (let failure = get_failure tbl (FullIp ip) in
              ((failure, time),
               if snd (snd failure) > 30 then Some TooManyAttempts
               else if time = fst failure \<and> fst (snd failure) > 6 then Some TryOneMinuteLater
               else None)))"

text \<open>\<open>(get_time() / 60_000) as i32\<close>, of a time in milliseconds.\<close>

definition minute_of :: "nat \<Rightarrow> int" where
  "minute_of ms = (int (ms div 60000) + 2 ^ 31) mod 2 ^ 32 - 2 ^ 31"

section \<open>How many guesses get through\<close>

text \<open>A wrong guess: it is only tested, and counted, when \<open>check_failure\<close> lets it pass.\<close>

definition wrong_guess :: "int \<Rightarrow> ip_addr \<Rightarrow> failure_table \<Rightarrow> bool \<times> failure_table" where
  "wrong_guess time ip tbl =
     (case check_failure time ip tbl of
        (f, None) \<Rightarrow> (True, update_failure ip f False tbl)
      | (f, Some _) \<Rightarrow> (False, tbl))"

fun tested :: "(int \<times> ip_addr) list \<Rightarrow> failure_table \<Rightarrow> (int \<times> ip_addr) list" where
  "tested [] tbl = []"
| "tested ((t, ip) # gs) tbl =
     (case wrong_guess t ip tbl of (ok, tbl') \<Rightarrow> if ok then (t, ip) # tested gs tbl' else tested gs tbl')"

definition all_count :: "failure_table \<Rightarrow> failure_key \<Rightarrow> int" where
  "all_count tbl k = snd (snd (get_failure tbl k))"

text \<open>The networks of an address with their limits, and its own.\<close>

definition limits :: "ip_addr \<Rightarrow> (failure_key \<times> int) list" where
  "limits ip =
     (FullIp ip, 30) #
     (case get_ipv6_prefixes ip of Some (p64, p56, p48) \<Rightarrow> [(p64, 60), (p56, 80), (p48, 100)] | None \<Rightarrow> [])"

lemma get_failure_insert: "get_failure (hm_insert k f tbl) k' = (if k' = k then f else get_failure tbl k')"
  by (simp add: get_failure_def)

lemma wrong_guess_tested:
  assumes "wrong_guess t ip tbl = (True, tbl')" "(k, l) \<in> set (limits ip)"
  shows "all_count tbl k \<le> l"
  using assms
  by (auto simp: wrong_guess_def check_failure_def Let_def check_failure_ipv6_prefix_def limits_def all_count_def
      get_ipv6_prefixes_def split: ip_addr.splits if_splits option.splits prod.splits)

lemma wrong_guess_minute:
  assumes "wrong_guess t ip tbl = (True, tbl')" "fst (get_failure tbl (FullIp ip)) = t"
  shows "fst (snd (get_failure tbl (FullIp ip))) \<le> 6"
  using assms
  by (auto simp: wrong_guess_def check_failure_def Let_def check_failure_ipv6_prefix_def
      split: if_splits option.splits prod.splits)

lemma check_failure_passed:
  assumes "check_failure t ip tbl = (f, None)"
  shows "f = (get_failure tbl (FullIp ip), t)"
  using assms
  by (auto simp: check_failure_def Let_def check_failure_ipv6_prefix_def split: if_splits option.splits prod.splits)

lemma wrong_guess_table:
  assumes "wrong_guess t ip tbl = (True, tbl')"
  shows "get_failure tbl' k = (if k \<in> fst ` set (limits ip) then bump (get_failure tbl k) t else get_failure tbl k)"
proof -
  from assms obtain f where f: "check_failure t ip tbl = (f, None)" "tbl' = update_failure ip f False tbl"
    by (auto simp: wrong_guess_def split: prod.splits option.splits)
  show ?thesis
  proof (cases ip)
    case (IpV4 a)
    then show ?thesis using f(2) check_failure_passed [OF f(1)]
      by (auto simp: update_failure_def limits_def get_ipv6_prefixes_def get_failure_insert)
  next
    case (IpV6 a)
    then show ?thesis using f(2) check_failure_passed [OF f(1)]
      by (auto simp: update_failure_def limits_def get_ipv6_prefixes_def get_failure_insert)
  qed
qed

lemma wrong_guess_refused: "wrong_guess t ip tbl = (False, tbl') \<Longrightarrow> tbl' = tbl"
  by (auto simp: wrong_guess_def split: prod.splits option.splits)

fun key_limit :: "failure_key \<Rightarrow> int" where
  "key_limit (FullIp _) = 30"
| "key_limit (Ip6Prefix n _) = (if n = 64 then 60 else if n = 56 then 80 else 100)"

definition counts_for :: "failure_key \<Rightarrow> int \<times> ip_addr \<Rightarrow> bool" where
  "counts_for k g \<longleftrightarrow> k \<in> fst ` set (limits (snd g))"

lemma limits_limit: "(k, l) \<in> set (limits ip) \<Longrightarrow> l = key_limit k"
  by (auto simp: limits_def get_ipv6_prefixes_def split: ip_addr.splits)

lemma key_limit_bounds: "0 \<le> key_limit k" "key_limit k \<le> 100"
  by (cases k; simp)+

lemma bump_count: "\<lbrakk>0 \<le> snd (snd f); snd (snd f) \<le> 100\<rbrakk> \<Longrightarrow> snd (snd (bump f t)) = snd (snd f) + 1"
  by (auto simp: bump_def add_i32_small split: prod.splits)

lemma tested_bound:
  assumes "0 \<le> all_count tbl k" "all_count tbl k \<le> key_limit k + 1"
  shows "int (length (filter (counts_for k) (tested gs tbl))) \<le> key_limit k + 1 - all_count tbl k"
  using assms
proof (induction gs arbitrary: tbl)
  case (Cons g gs)
  obtain t ip where g: "g = (t, ip)" by (cases g)
  obtain ok tbl' where w: "wrong_guess t ip tbl = (ok, tbl')" by (cases "wrong_guess t ip tbl")
  show ?case
  proof (cases "ok \<and> counts_for k g")
    case True
    then obtain l where l: "(k, l) \<in> set (limits ip)" by (auto simp: counts_for_def g)
    have le: "all_count tbl k \<le> key_limit k" using wrong_guess_tested [OF _ l] w True limits_limit [OF l] by simp
    then have "all_count tbl' k = all_count tbl k + 1"
      using wrong_guess_table [of t ip tbl tbl' k] w True l Cons.prems key_limit_bounds [of k]
      by (auto simp: all_count_def bump_count counts_for_def g image_iff)
    with Cons.IH [of tbl'] Cons.prems le True w g show ?thesis by simp
  next
    case False
    then have "get_failure tbl' k = get_failure tbl k"
      using wrong_guess_table [of t ip tbl tbl' k] wrong_guess_refused [of t ip tbl tbl'] w by (cases ok) (auto simp: counts_for_def g)
    then have "all_count tbl' k = all_count tbl k" by (simp add: all_count_def)
    with Cons.IH [of tbl'] Cons.prems False w g show ?thesis by (auto simp: all_count_def)
  qed
qed simp

text \<open>Within one minute, as long as the clock does not go back.\<close>

definition guess_at :: "int \<Rightarrow> ip_addr \<Rightarrow> int \<times> ip_addr \<Rightarrow> bool" where
  "guess_at t a g \<longleftrightarrow> g = (t, a)"

lemma tested_per_minute:
  assumes "get_failure tbl (FullIp a) = (m, k, n)" "0 \<le> k" "k \<le> 7" "sorted (map fst gs)" "\<forall>g \<in> set gs. m \<le> fst g"
  shows "int (length (filter (guess_at t a) (tested gs tbl))) \<le> (if t = m then 7 - k else if t < m then 0 else 7)"
  using assms
proof (induction gs arbitrary: tbl m k n)
  case (Cons g gs)
  obtain u ip where g: "g = (u, ip)" by (cases g)
  obtain ok tbl' where w: "wrong_guess u ip tbl = (ok, tbl')" by (cases "wrong_guess u ip tbl")
  have mem: "FullIp a \<in> fst ` set (limits ip) \<longleftrightarrow> ip = a"
    by (auto simp: limits_def get_ipv6_prefixes_def split: ip_addr.splits)
  show ?case
  proof (cases "ok \<and> ip = a")
    case False
    have e: "get_failure tbl' (FullIp a) = (m, k, n)"
      using wrong_guess_table [of u ip tbl tbl' "FullIp a"] wrong_guess_refused [of u ip tbl tbl'] w False mem Cons.prems(1)
      by (cases ok) auto
    have "filter (guess_at t a) (tested (g # gs) tbl) = filter (guess_at t a) (tested gs tbl')"
      using False w g by (auto simp: guess_at_def)
    then show ?thesis using Cons.IH [OF e] Cons.prems by simp
  next
    case True
    have k: "u = m \<Longrightarrow> k \<le> 6" using wrong_guess_minute [of u ip tbl tbl'] w True Cons.prems(1) by simp
    have e: "get_failure tbl' (FullIp a) = (if u = m then (m, k + 1, add_i32 n 1) else (u, 1, add_i32 n 1))"
      using wrong_guess_table [of u ip tbl tbl' "FullIp a"] w True mem Cons.prems(1,2) k by (auto simp: bump_def add_i32_small)
    have le: "\<forall>g \<in> set gs. u \<le> fst g" using Cons.prems(4) g by simp
    have "filter (guess_at t a) (tested (g # gs) tbl) = (if u = t then [(t, a)] else []) @ filter (guess_at t a) (tested gs tbl')"
      using True w g by (auto simp: guess_at_def)
    moreover have "int (length (filter (guess_at t a) (tested gs tbl'))) \<le> (if t = u then (if u = m then 6 - k else 6) else if t < u then 0 else 7)"
      using Cons.IH [of tbl' u "if u = m then k + 1 else 1" "add_i32 n 1"] e le k Cons.prems by (auto split: if_splits)
    moreover have "m \<le> u" using Cons.prems(5) g by simp
    ultimately show ?thesis using k Cons.prems(2,3) by (auto split: if_splits)
  qed
qed simp

text \<open>
  C9. The login guard bounds guessing: of any sequence of wrong passwords (one after the other, the
  clock not going back, starting with empty tables), at most 31 from one address are ever tested,
  at most 7 of them in one minute, and at most 61, 81 and 101 from one IPv6 network of 64, 56 and
  48 bits; everything beyond is refused without looking at the password.
\<close>

theorem guesses_bounded:
  assumes "sorted (map fst gs)" "\<forall>g \<in> set gs. 0 \<le> fst g"
  shows "length (filter (counts_for (FullIp a)) (tested gs [])) \<le> 31 \<and>
    length (filter (guess_at t a) (tested gs [])) \<le> 7 \<and>
    length (filter (counts_for (Ip6Prefix 64 p)) (tested gs [])) \<le> 61 \<and>
    length (filter (counts_for (Ip6Prefix 56 p)) (tested gs [])) \<le> 81 \<and>
    length (filter (counts_for (Ip6Prefix 48 p)) (tested gs [])) \<le> 101"
proof -
  have e: "get_failure [] k = (0, 0, 0)" for k by (simp add: get_failure_def)
  then have z: "all_count [] k = 0" for k by (simp add: all_count_def)
  have "int (length (filter (counts_for k) (tested gs []))) \<le> key_limit k + 1" for k
    using tested_bound [of "[]" k gs] key_limit_bounds [of k] z by simp
  from this [of "FullIp a"] this [of "Ip6Prefix 64 p"] this [of "Ip6Prefix 56 p"] this [of "Ip6Prefix 48 p"]
    tested_per_minute [OF e [of "FullIp a"] _ _ assms, of t]
  show ?thesis by (auto split: if_splits)
qed

theorem guesses_bounded_witness:
  "tested (replicate 9 (5, IpV4 7) @ [(6, IpV4 7)]) [] = replicate 7 (5, IpV4 7) @ [(6, IpV4 7)] \<and>
   length (filter (counts_for (FullIp (IpV4 7))) (tested (replicate 9 (5, IpV4 7) @ [(6, IpV4 7)]) [])) \<le> 31"
proof -
  have "tested (replicate 9 (5, IpV4 7) @ [(6, IpV4 7)]) [] = replicate 7 (5, IpV4 7) @ [(6, IpV4 7)]" by code_simp
  moreover have "sorted (map fst (replicate 9 (5 :: int, IpV4 7) @ [(6, IpV4 7)]))"
    "\<forall>g \<in> set (replicate 9 (5 :: int, IpV4 7) @ [(6, IpV4 7)]). 0 \<le> fst g" by code_simp+
  ultimately show ?thesis using guesses_bounded [of "replicate 9 (5, IpV4 7) @ [(6, IpV4 7)]" "IpV4 7"] by blast
qed



end
