(* ===== verification/Permissions.thy ===== *)
theory Permissions
  imports Rust_Prelude Rust_Maps Passwords
begin

text \<open>
  What a peer may do: the permission bitmap a controlling server may attach to a connection
  (\<open>ControlPermissions\<close>, \<open>get_control_permission\<close> of \<open>src/common.rs\<close>), the local options it overrides
  (\<open>Connection::permission\<close> and \<open>is_permission_enabled_locally\<close> of \<open>src/server/connection.rs\<close>, for the
  desktop with the flutter feature), and the table of the bitmaps of all connections.
\<close>

section \<open>Options and permissions\<close>

definition OPTION_ENABLE_KEYBOARD :: string where "OPTION_ENABLE_KEYBOARD = ''enable-keyboard''"
definition OPTION_ENABLE_REMOTE_PRINTER :: string where "OPTION_ENABLE_REMOTE_PRINTER = ''enable-remote-printer''"
definition OPTION_ENABLE_CLIPBOARD :: string where "OPTION_ENABLE_CLIPBOARD = ''enable-clipboard''"
definition OPTION_ENABLE_FILE_TRANSFER :: string where "OPTION_ENABLE_FILE_TRANSFER = ''enable-file-transfer''"
definition OPTION_ENABLE_AUDIO :: string where "OPTION_ENABLE_AUDIO = ''enable-audio''"
definition OPTION_ENABLE_CAMERA :: string where "OPTION_ENABLE_CAMERA = ''enable-camera''"
definition OPTION_ENABLE_TERMINAL :: string where "OPTION_ENABLE_TERMINAL = ''enable-terminal''"
definition OPTION_ENABLE_TUNNEL :: string where "OPTION_ENABLE_TUNNEL = ''enable-tunnel''"
definition OPTION_ENABLE_REMOTE_RESTART :: string where "OPTION_ENABLE_REMOTE_RESTART = ''enable-remote-restart''"
definition OPTION_ENABLE_RECORD_SESSION :: string where "OPTION_ENABLE_RECORD_SESSION = ''enable-record-session''"
definition OPTION_ENABLE_BLOCK_INPUT :: string where "OPTION_ENABLE_BLOCK_INPUT = ''enable-block-input''"

lemmas OPTION_names =
  OPTION_ENABLE_KEYBOARD_def OPTION_ENABLE_REMOTE_PRINTER_def OPTION_ENABLE_CLIPBOARD_def
  OPTION_ENABLE_FILE_TRANSFER_def OPTION_ENABLE_AUDIO_def OPTION_ENABLE_CAMERA_def
  OPTION_ENABLE_TERMINAL_def OPTION_ENABLE_TUNNEL_def OPTION_ENABLE_REMOTE_RESTART_def
  OPTION_ENABLE_RECORD_SESSION_def OPTION_ENABLE_BLOCK_INPUT_def

datatype Permission =
    P_keyboard | P_remote_printer | P_clipboard | P_file | P_audio | P_camera | P_terminal | P_tunnel
  | P_restart | P_recording | P_block_input | P_remote_modify

fun Permission_value :: "Permission \<Rightarrow> int" where
  "Permission_value P_keyboard = 0"
| "Permission_value P_remote_printer = 1"
| "Permission_value P_clipboard = 2"
| "Permission_value P_file = 3"
| "Permission_value P_audio = 4"
| "Permission_value P_camera = 5"
| "Permission_value P_terminal = 6"
| "Permission_value P_tunnel = 7"
| "Permission_value P_restart = 8"
| "Permission_value P_recording = 9"
| "Permission_value P_block_input = 10"
| "Permission_value P_remote_modify = 11"

definition get_control_permission :: "u64 \<Rightarrow> Permission \<Rightarrow> bool option" where
  "get_control_permission permissions p =
     (let index = Permission_value p
      in if 0 \<le> index \<and> index < 32 then
           (let v = drop_bit (nat (index * 2)) permissions AND 3
            in if v = 1 then Some False else if v = 2 then Some True else None)
         else None)"

definition option_permission :: "string \<Rightarrow> Permission option" where
  "option_permission opt =
     (if opt = OPTION_ENABLE_KEYBOARD then Some P_keyboard
      else if opt = OPTION_ENABLE_REMOTE_PRINTER then Some P_remote_printer
      else if opt = OPTION_ENABLE_CLIPBOARD then Some P_clipboard
      else if opt = OPTION_ENABLE_FILE_TRANSFER then Some P_file
      else if opt = OPTION_ENABLE_AUDIO then Some P_audio
      else if opt = OPTION_ENABLE_CAMERA then Some P_camera
      else if opt = OPTION_ENABLE_TERMINAL then Some P_terminal
      else if opt = OPTION_ENABLE_TUNNEL then Some P_tunnel
      else if opt = OPTION_ENABLE_REMOTE_RESTART then Some P_restart
      else if opt = OPTION_ENABLE_RECORD_SESSION then Some P_recording
      else if opt = OPTION_ENABLE_BLOCK_INPUT then Some P_block_input
      else None)"

definition is_permission_enabled_locally :: "option_fn \<Rightarrow> string \<Rightarrow> bool" where
  "is_permission_enabled_locally cfg opt =
     (let access_mode = cfg ''access-mode''
      in if access_mode = ''full'' then True
         else if access_mode = ''view'' then False
         else option2bool opt (cfg opt))"

definition permission :: "option_fn \<Rightarrow> string \<Rightarrow> u64 option \<Rightarrow> bool" where
  "permission cfg opt control_permissions =
     (case (case control_permissions of
              None \<Rightarrow> None
            | Some cp \<Rightarrow> (case option_permission opt of
                            None \<Rightarrow> None
                          | Some p \<Rightarrow> get_control_permission cp p)) of
        Some enabled \<Rightarrow> enabled
      | None \<Rightarrow> is_permission_enabled_locally cfg opt)"

section \<open>The bitmaps of all connections\<close>

type_synonym permissions_array = "(int \<times> u64) list"

definition ControlPermissionsID_new :: "int \<Rightarrow> u64 option \<Rightarrow> permissions_array \<Rightarrow> permissions_array" where
  "ControlPermissionsID_new i cp arr = (case cp of None \<Rightarrow> arr | Some s \<Rightarrow> arr @ [(i, s)])"

definition ControlPermissionsID_drop :: "int \<Rightarrow> u64 option \<Rightarrow> permissions_array \<Rightarrow> permissions_array" where
  "ControlPermissionsID_drop i cp arr = (case cp of None \<Rightarrow> arr | Some _ \<Rightarrow> filter (\<lambda>(c, _). c \<noteq> i) arr)"

fun scan_permissions :: "Permission \<Rightarrow> permissions_array \<Rightarrow> bool \<Rightarrow> bool \<Rightarrow> bool \<times> bool" where
  "scan_permissions p [] has_enable has_disable = (has_enable, has_disable)"
| "scan_permissions p ((_, cp) # arr) has_enable has_disable =
     (case get_control_permission cp p of
        Some False \<Rightarrow> scan_permissions p arr has_enable True
      | Some True \<Rightarrow> scan_permissions p arr True has_disable
      | None \<Rightarrow> scan_permissions p arr has_enable has_disable)"

definition get_control_permission_state :: "Permission \<Rightarrow> bool \<Rightarrow> permissions_array \<Rightarrow> bool option" where
  "get_control_permission_state p disable_if_has_disabled arr =
     (let (has_enable, has_disable) = scan_permissions p arr False False
      in if disable_if_has_disabled then
           (if has_disable then Some False else if has_enable then Some True else None)
         else (if has_enable then Some True else if has_disable then Some False else None))"

section \<open>What the bitmap decides\<close>

text \<open>The reference: entry \<open>i\<close> of the bitmap read as a number in base four.\<close>

definition base4_digit :: "u64 \<Rightarrow> nat \<Rightarrow> nat" where
  "base4_digit cp i = unat cp div 4 ^ i mod 4"

definition digit_says :: "nat \<Rightarrow> bool option" where
  "digit_says d = (if d = 1 then Some False else if d = 2 then Some True else None)"

lemma Permission_value_range: "0 \<le> Permission_value p \<and> Permission_value p < 12"
  by (cases p) simp_all

lemma unat_pair: "unat (drop_bit (2 * i) cp AND 3) = base4_digit cp i"
proof -
  have "unat (drop_bit (2 * i) cp AND (3 :: u64)) = unat (drop_bit (2 * i) cp) mod 4"
    unfolding and_three_eq unsigned_take_bit_eq by (simp add: take_bit_eq_mod)
  also have "unat (drop_bit (2 * i) cp) = unat cp div 4 ^ i"
    by (simp only: unat_drop_bit_eq) (simp add: drop_bit_eq_div power_mult)
  finally show ?thesis by (simp add: base4_digit_def)
qed

lemma get_control_permission_digit:
  "get_control_permission cp p = digit_says (base4_digit cp (nat (Permission_value p)))"
proof -
  let ?v = "drop_bit (nat (Permission_value p * 2)) cp AND 3 :: u64"
  have "nat (Permission_value p * 2) = 2 * nat (Permission_value p)"
    using Permission_value_range [of p] by simp
  then have u: "unat ?v = base4_digit cp (nat (Permission_value p))"
    by (simp only: unat_pair)
  have "?v = 1 \<longleftrightarrow> unat ?v = 1" "?v = 2 \<longleftrightarrow> unat ?v = 2"
    by (simp_all add: word_unat_eq_iff)
  then show ?thesis
    using u Permission_value_range [of p]
    by (simp add: get_control_permission_def digit_says_def Let_def)
qed

lemma scan_permissions_ex:
  "scan_permissions p arr e d =
     (e \<or> (\<exists>(i, m) \<in> set arr. get_control_permission m p = Some True),
      d \<or> (\<exists>(i, m) \<in> set arr. get_control_permission m p = Some False))"
proof (induction p arr e d rule: scan_permissions.induct)
  case (2 p i cp arr e d)
  show ?case
  proof (cases "get_control_permission cp p")
    case None then show ?thesis using 2 by simp
  next
    case (Some b) then show ?thesis using 2 by (cases b) auto
  qed
qed simp



end
