(* ===== verification/F32.thy ===== *)
theory F32
  imports Complex_Main "HOL-Library.Log_Nat"
begin

text \<open>
  Rust's \<open>f32\<close> as IEEE-754 binary32 arithmetic on finite values: a value is a rational
  number, every operation is the exact rational operation followed by \<open>rnd\<close>, rounding to
  nearest with ties to even, with 24 bits of precision and gradual underflow at
  \<open>2 powi -149\<close>.  Infinities and NaN are outside the model: the component that uses it keeps
  its values between \<open>0.1\<close> and \<open>40\<close>, which its invariant shows.
\<close>

type_synonym f32 = rat

section \<open>Rounding\<close>

definition floor_log2 :: "rat \<Rightarrow> int" where
  "floor_log2 x =
     (let (a, b) = quotient_of x; k = bitlen a - bitlen b
      in if 2 powi k \<le> x then k else k - 1)"

definition round_half_even :: "rat \<Rightarrow> int" where
  "round_half_even x =
     (let f = \<lfloor>x\<rfloor>; d = x - of_int f
      in if d < 1 / 2 then f else if d > 1 / 2 then f + 1 else if even f then f else f + 1)"

definition quantum :: "rat \<Rightarrow> int" where
  "quantum x = max (floor_log2 x - 23) (- 149)"

definition rnd :: "rat \<Rightarrow> f32" where
  "rnd x =
     (if x = 0 then 0
      else let u = 2 powi quantum \<bar>x\<bar> in of_int (round_half_even (x / u)) * u)"

definition is_f32 :: "rat \<Rightarrow> bool" where
  "is_f32 x \<longleftrightarrow> rnd x = x"

section \<open>Operations\<close>

definition f32_mul :: "f32 \<Rightarrow> f32 \<Rightarrow> f32" where
  "f32_mul a b = rnd (a * b)"

definition f32_div :: "f32 \<Rightarrow> f32 \<Rightarrow> f32" where
  "f32_div a b = rnd (a / b)"

definition f32_add :: "f32 \<Rightarrow> f32 \<Rightarrow> f32" where
  "f32_add a b = rnd (a + b)"

definition f32_sub :: "f32 \<Rightarrow> f32 \<Rightarrow> f32" where
  "f32_sub a b = rnd (a - b)"

text \<open>\<open>n as f32\<close>, and \<open>x as u32\<close>, which truncates and saturates.\<close>

definition f32_of_nat :: "nat \<Rightarrow> f32" where
  "f32_of_nat n = rnd (of_nat n)"

definition f32_to_u32 :: "f32 \<Rightarrow> nat" where
  "f32_to_u32 x = (if x < 0 then 0 else min (nat \<lfloor>x\<rfloor>) (2 ^ 32 - 1))"

definition f32_ceil :: "f32 \<Rightarrow> f32" where
  "f32_ceil x = of_int \<lceil>x\<rceil>"

text \<open>\<open>f32::clamp\<close> panics when the bounds are crossed; \<open>None\<close> is the panic.\<close>

definition f32_clamp :: "f32 \<Rightarrow> f32 \<Rightarrow> f32 \<Rightarrow> f32 option" where
  "f32_clamp x lo hi = (if lo \<le> hi then Some (if x < lo then lo else if x > hi then hi else x) else None)"

section \<open>The exponent\<close>

lemma powi_less_iff: "(2 :: rat) powi a < 2 powi b \<longleftrightarrow> a < b"
  by (metis linorder_less_linear order_less_asym one_less_numeral_iff power_int_strict_increasing semiring_norm(76))

lemma powi_le_iff: "(2 :: rat) powi a \<le> 2 powi b \<longleftrightarrow> a \<le> b"
  by (simp add: powi_less_iff flip: not_less)

lemma floor_log2_bounds:
  assumes "x > 0"
  shows "2 powi floor_log2 x \<le> x" "x < 2 powi (floor_log2 x + 1)"
proof -
  obtain a b where q: "quotient_of x = (a, b)" by (cases "quotient_of x")
  have x: "x = of_int a / of_int b" using quotient_of_div [OF q] .
  have b: "b > 0" using quotient_of_denom_pos [OF q] .
  have a: "a > 0" using assms b unfolding x by (simp add: zero_less_divide_iff)
  have powi: "(2 :: rat) powi bitlen c = of_int (2 ^ nat (bitlen c))"
    "(2 :: rat) powi (bitlen c - 1) = of_int (2 ^ nat (bitlen c - 1))" if "c > 0" for c
    using that bitlen_nonneg [of c] bitlen_le_iff_power [of c 0] by (auto simp: power_int_def)
  have la: "2 powi (bitlen a - 1) \<le> (of_int a :: rat)" "(of_int a :: rat) < 2 powi bitlen a"
    and lb: "2 powi (bitlen b - 1) \<le> (of_int b :: rat)" "(of_int b :: rat) < 2 powi bitlen b"
    using bitlen_bounds [OF a] bitlen_bounds [OF b] unfolding powi [OF a] powi [OF b]
    by (simp_all only: of_int_le_iff of_int_less_iff)
  have bp: "(of_int b :: rat) > 0" using b by simp
  have lower: "2 powi (bitlen a - bitlen b - 1) < x"
  proof -
    have "2 powi (bitlen a - bitlen b - 1) * of_int b < 2 powi (bitlen a - bitlen b - 1) * (2 powi bitlen b :: rat)"
      using lb(2) by (intro mult_strict_left_mono) simp_all
    also have "\<dots> = 2 powi (bitlen a - 1)" by (simp flip: power_int_add)
    also have "\<dots> \<le> of_int a" by (rule la(1))
    finally show ?thesis unfolding x using bp by (simp add: pos_less_divide_eq)
  qed
  have upper: "x < 2 powi (bitlen a - bitlen b + 1)"
  proof -
    have "of_int a < (2 powi bitlen a :: rat)" by (rule la(2))
    also have "\<dots> = 2 powi (bitlen a - bitlen b + 1) * 2 powi (bitlen b - 1)" by (simp flip: power_int_add)
    also have "\<dots> \<le> 2 powi (bitlen a - bitlen b + 1) * of_int b"
      using lb(1) by (intro mult_left_mono) simp_all
    finally show ?thesis unfolding x using bp by (simp add: pos_divide_less_eq)
  qed
  show "2 powi floor_log2 x \<le> x" "x < 2 powi (floor_log2 x + 1)"
    using lower upper by (auto simp: floor_log2_def q Let_def)
qed

lemma floor_log2_mono: "\<lbrakk>0 < x; x \<le> y\<rbrakk> \<Longrightarrow> floor_log2 x \<le> floor_log2 y"
proof -
  assume "0 < x" "x \<le> y"
  then have "(2 :: rat) powi floor_log2 x < 2 powi (floor_log2 y + 1)"
    using floor_log2_bounds [of x] floor_log2_bounds [of y] by linarith
  then show ?thesis by (simp only: powi_less_iff)
qed

lemma floor_log2_less: "\<lbrakk>0 < x; x < 2 powi k\<rbrakk> \<Longrightarrow> floor_log2 x < k"
proof -
  assume "0 < x" "x < 2 powi k"
  then have "(2 :: rat) powi floor_log2 x < 2 powi k"
    using floor_log2_bounds(1) [of x] by linarith
  then show ?thesis by (simp only: powi_less_iff)
qed

section \<open>Rounding to an integer\<close>

lemma round_half_even_of_int [simp]: "round_half_even (of_int n) = n"
  by (simp add: round_half_even_def)

lemma round_half_even_mono: "x \<le> y \<Longrightarrow> round_half_even x \<le> round_half_even y"
proof -
  assume le: "x \<le> y"
  then have "\<lfloor>x\<rfloor> \<le> \<lfloor>y\<rfloor>" by (rule floor_mono)
  then consider "\<lfloor>x\<rfloor> = \<lfloor>y\<rfloor>" | "\<lfloor>x\<rfloor> + 1 \<le> \<lfloor>y\<rfloor>" by linarith
  then show ?thesis
  proof cases
    case 1
    with le show ?thesis by (auto simp: round_half_even_def Let_def)
  next
    case 2
    moreover have "round_half_even x \<le> \<lfloor>x\<rfloor> + 1" "\<lfloor>y\<rfloor> \<le> round_half_even y"
      by (auto simp: round_half_even_def Let_def)
    ultimately show ?thesis by linarith
  qed
qed

lemma round_half_even_le: "x \<le> of_int n \<Longrightarrow> round_half_even x \<le> n"
  using round_half_even_mono [of x "of_int n"] by simp

lemma round_half_even_ge: "of_int n \<le> x \<Longrightarrow> n \<le> round_half_even x"
  using round_half_even_mono [of "of_int n" x] by simp

section \<open>Rounding to a float\<close>

lemma rnd_pos: "x > 0 \<Longrightarrow> rnd x = of_int (round_half_even (x / 2 powi quantum x)) * 2 powi quantum x"
  by (simp add: rnd_def Let_def)

lemma powi_quotient_int:
  assumes "q \<le> k"
  shows "(2 :: rat) powi k / 2 powi q = of_int (2 ^ nat (k - q))"
proof -
  have "(2 :: rat) powi k / 2 powi q = 2 powi (k - q)" by (simp add: power_int_diff)
  also have "\<dots> = of_int (2 ^ nat (k - q))" using assms by (simp add: power_int_def)
  finally show ?thesis .
qed

lemma rnd_le_powi:
  assumes "0 < x" "x \<le> 2 powi k" "quantum x \<le> k"
  shows "rnd x \<le> 2 powi k"
proof -
  let ?u = "(2 :: rat) powi quantum x"
  have "x / ?u \<le> 2 powi k / ?u"
    using assms(2) by (intro divide_right_mono) simp_all
  then have "round_half_even (x / ?u) \<le> 2 ^ nat (k - quantum x)"
    unfolding powi_quotient_int [OF assms(3)] by (rule round_half_even_le)
  then have "of_int (round_half_even (x / ?u)) * ?u \<le> of_int (2 ^ nat (k - quantum x)) * ?u"
    by (intro mult_right_mono) (simp_all only: of_int_le_iff, simp_all)
  also have "\<dots> = 2 powi k"
    unfolding powi_quotient_int [OF assms(3), symmetric] by simp
  finally show ?thesis using assms(1) by (simp add: rnd_pos)
qed

lemma rnd_ge_powi:
  assumes "0 < x" "2 powi k \<le> x" "quantum x \<le> k"
  shows "2 powi k \<le> rnd x"
proof -
  let ?u = "(2 :: rat) powi quantum x"
  have "2 powi k / ?u \<le> x / ?u"
    using assms(2) by (intro divide_right_mono) simp_all
  then have "2 ^ nat (k - quantum x) \<le> round_half_even (x / ?u)"
    unfolding powi_quotient_int [OF assms(3)] by (rule round_half_even_ge)
  then have "of_int (2 ^ nat (k - quantum x)) * ?u \<le> of_int (round_half_even (x / ?u)) * ?u"
    by (intro mult_right_mono) (simp_all only: of_int_le_iff, simp_all)
  moreover have "of_int (2 ^ nat (k - quantum x)) * ?u = 2 powi k"
    unfolding powi_quotient_int [OF assms(3), symmetric] by simp
  ultimately show ?thesis unfolding rnd_pos [OF assms(1)] by (simp only:)
qed

text \<open>Rounding is monotone on the non-negative numbers, also across powers of two.\<close>

lemma rnd_mono_pos:
  assumes "0 < x" "x \<le> y"
  shows "rnd x \<le> rnd y"
proof -
  have y: "0 < y" using assms by simp
  have fl: "floor_log2 x \<le> floor_log2 y" by (rule floor_log2_mono [OF assms])
  then have "quantum x \<le> quantum y" by (simp add: quantum_def)
  then consider "quantum x = quantum y" | "quantum x < quantum y" by linarith
  then show ?thesis
  proof cases
    case 1
    have "round_half_even (x / 2 powi quantum y) \<le> round_half_even (y / 2 powi quantum y)"
      using assms(2) by (intro round_half_even_mono divide_right_mono) simp_all
    then show ?thesis
      unfolding rnd_pos [OF assms(1)] rnd_pos [OF y] 1
      by (intro mult_right_mono) simp_all
  next
    case 2
    then have "floor_log2 x < floor_log2 y" and k: "quantum x \<le> floor_log2 y" "quantum y \<le> floor_log2 y"
      using fl by (auto simp: quantum_def max_def split: if_splits)
    then have "(2 :: rat) powi (floor_log2 x + 1) \<le> 2 powi floor_log2 y"
      by (simp only: powi_le_iff)
    then have "x \<le> 2 powi floor_log2 y"
      using floor_log2_bounds(2) [OF assms(1)] by linarith
    from rnd_le_powi [OF assms(1) this k(1)] rnd_ge_powi [OF y floor_log2_bounds(1) [OF y] k(2)]
    show ?thesis by (rule order_trans)
  qed
qed

lemma rnd_0 [simp]: "rnd 0 = 0"
  by (simp add: rnd_def)

lemma rnd_nonneg: "0 \<le> x \<Longrightarrow> 0 \<le> rnd x"
proof (cases "x = 0")
  case False
  assume "0 \<le> x"
  with False have "0 < x" by simp
  moreover from this have "0 \<le> round_half_even (x / 2 powi quantum x)"
    by (intro round_half_even_ge) simp
  ultimately show ?thesis by (simp add: rnd_pos)
qed simp

lemma rnd_mono: "\<lbrakk>0 \<le> x; x \<le> y\<rbrakk> \<Longrightarrow> rnd x \<le> rnd y"
  using rnd_mono_pos [of x y] rnd_nonneg [of y] by (cases "x = 0") auto

text \<open>Numbers of at most 24 significant bits are represented exactly.\<close>

lemma rnd_exact:
  assumes "0 < n" "n \<le> 2 ^ 24" "- 149 \<le> q"
  shows "rnd (of_int n * 2 powi q) = of_int n * 2 powi q"
proof -
  let ?z = "of_int n * 2 powi q :: rat"
  have z: "0 < ?z" using assms(1) by simp
  have int: "rnd ?z = ?z" if "?z / 2 powi quantum ?z = of_int m" for m
  proof -
    have "of_int m * 2 powi quantum ?z = ?z"
      unfolding that [symmetric] by simp
    then show ?thesis
      unfolding rnd_pos [OF z] that round_half_even_of_int .
  qed
  show ?thesis
  proof (cases "n = 2 ^ 24")
    case True
    have "?z = 2 powi (24 + q)" by (simp add: True power_int_add)
    then have "floor_log2 ?z = 24 + q"
      using floor_log2_bounds [OF z] by (simp only: powi_le_iff powi_less_iff)
    then have "quantum ?z \<le> 24 + q" using assms(3) by (simp add: quantum_def)
    from powi_quotient_int [OF this] \<open>?z = 2 powi (24 + q)\<close> show ?thesis
      by (metis int)
  next
    case False
    with assms(2) have "(of_int n :: rat) < of_int (2 ^ 24)" by (simp only: of_int_less_iff)
    then have "?z < of_int (2 ^ 24) * 2 powi q"
      by (intro mult_strict_right_mono) simp_all
    also have "\<dots> = 2 powi (24 + q)" by (simp add: power_int_add)
    finally have "floor_log2 ?z < 24 + q" by (rule floor_log2_less [OF z])
    then have le: "quantum ?z \<le> q" using assms(3) by (simp add: quantum_def)
    have "?z / 2 powi quantum ?z = of_int n * (2 powi q / 2 powi quantum ?z)" by simp
    also have "\<dots> = of_int (n * 2 ^ nat (q - quantum ?z))"
      unfolding powi_quotient_int [OF le] by simp
    finally show ?thesis by (rule int)
  qed
qed

lemma rnd_idem_pos:
  assumes "0 < x"
  shows "rnd (rnd x) = rnd x"
proof -
  let ?n = "round_half_even (x / 2 powi quantum x)"
  have q: "- 149 \<le> quantum x" by (simp add: quantum_def)
  have "floor_log2 x + 1 \<le> 24 + quantum x" by (simp add: quantum_def)
  then have "(2 :: rat) powi (floor_log2 x + 1) \<le> 2 powi (24 + quantum x)"
    by (simp only: powi_le_iff)
  then have "x \<le> of_int (2 ^ 24) * 2 powi quantum x"
    using floor_log2_bounds(2) [OF assms] by (simp add: power_int_add)
  then have "x / 2 powi quantum x \<le> of_int (2 ^ 24)"
    by (simp add: pos_divide_le_eq)
  then have le: "?n \<le> 2 ^ 24" by (rule round_half_even_le)
  have ge: "0 \<le> ?n" using assms by (intro round_half_even_ge) simp
  show ?thesis
  proof (cases "?n = 0")
    case True
    then show ?thesis using assms by (simp add: rnd_pos)
  next
    case False
    with rnd_exact [of ?n "quantum x"] le ge q show ?thesis
      by (simp add: rnd_pos [OF assms])
  qed
qed

lemma is_f32_rnd: "0 \<le> x \<Longrightarrow> is_f32 (rnd x)"
  using rnd_idem_pos [of x] by (cases "x = 0") (auto simp: is_f32_def)

text \<open>Scaling a float by a factor of at most (at least) one does not increase (decrease) it.\<close>

lemma f32_mul_le: "\<lbrakk>is_f32 r; 0 \<le> r; 0 \<le> a; a \<le> 1\<rbrakk> \<Longrightarrow> f32_mul r a \<le> r"
  using rnd_mono [of "r * a" r] by (simp add: f32_mul_def is_f32_def mult_left_le)

lemma f32_mul_ge: "\<lbrakk>is_f32 r; 0 \<le> r; 1 \<le> a\<rbrakk> \<Longrightarrow> r \<le> f32_mul r a"
  using rnd_mono [of r "r * a"] mult_left_mono [of 1 a r] by (simp add: f32_mul_def is_f32_def)

lemma f32_clamp_Some: "lo \<le> hi \<Longrightarrow> \<exists>y. f32_clamp x lo hi = Some y \<and> lo \<le> y \<and> y \<le> hi"
  by (auto simp: f32_clamp_def)

end
