(* ===== verification/Video_QoS.thy ===== *)
theory Video_QoS
  imports F32 Rust_Maps "HOL-Library.Monad_Syntax"
begin

text \<open>
  The quality-of-service controller of \<open>src/server/video_qos.rs\<close>: it adapts the frame rate
  and the bitrate ratio of the video services to the network delays that the connected users
  report.  \<open>u32\<close> and \<open>usize\<close> values are natural numbers, with the wrap-around written out
  where a sum can leave the width; \<open>f32\<close> values are those of \<open>F32\<close>; an \<open>Instant\<close> is a
  number of nanoseconds.  What the code reads from its environment (the clock, the
  \<open>enable-abr\<close> option, the target system) is an argument.  \<open>None\<close> is a panic: the two
  \<open>clamp\<close> functions panic when their bounds are crossed.
\<close>

section \<open>Constants and data\<close>

definition FPS :: nat where "FPS = 30"
definition MIN_FPS :: nat where "MIN_FPS = 1"
definition MAX_FPS :: nat where "MAX_FPS = 120"
definition INIT_FPS :: nat where "INIT_FPS = 15"
definition BR_MAX :: f32 where "BR_MAX = rnd 40"
definition BR_MIN :: f32 where "BR_MIN = rnd (2 / 10)"
definition BR_MIN_HIGH_RESOLUTION :: f32 where "BR_MIN_HIGH_RESOLUTION = rnd (1 / 10)"
definition MAX_BR_MULTIPLE :: f32 where "MAX_BR_MULTIPLE = rnd 1"
definition HISTORY_DELAY_LEN :: nat where "HISTORY_DELAY_LEN = 2"
definition ADJUST_RATIO_INTERVAL :: nat where "ADJUST_RATIO_INTERVAL = 3"
definition DYNAMIC_SCREEN_THRESHOLD :: nat where "DYNAMIC_SCREEN_THRESHOLD = 2"
definition DELAY_THRESHOLD_150MS :: nat where "DELAY_THRESHOLD_150MS = 150"
definition BR_BEST :: f32 where "BR_BEST = rnd (15 / 10)"
definition BR_BALANCED :: f32 where "BR_BALANCED = rnd (67 / 100)"
definition BR_SPEED :: f32 where "BR_SPEED = rnd (5 / 10)"
definition WINDOW_SAMPLES :: nat where "WINDOW_SAMPLES = 60"
definition MIN_SAMPLES :: nat where "MIN_SAMPLES = 10"
definition ALPHA :: f32 where "ALPHA = rnd (5 / 10)"

lemmas qos_consts = FPS_def MIN_FPS_def MAX_FPS_def INIT_FPS_def HISTORY_DELAY_LEN_def
  ADJUST_RATIO_INTERVAL_def DYNAMIC_SCREEN_THRESHOLD_def DELAY_THRESHOLD_150MS_def
  WINDOW_SAMPLES_def MIN_SAMPLES_def

datatype Quality = Best | Balanced | Low | Custom f32

fun Quality_ratio :: "Quality \<Rightarrow> f32" where
  "Quality_ratio Best = BR_BEST"
| "Quality_ratio Balanced = BR_BALANCED"
| "Quality_ratio Low = BR_SPEED"
| "Quality_ratio (Custom v) = v"

record RttCalculator =
  min_rtt :: "nat option"
  window_min_rtt :: "nat option"
  smoothed_rtt :: "nat option"
  samples :: "nat list"

record UserDelay =
  response_delayed :: bool
  delay_history :: "nat list"
  delay_fps :: "nat option"
  rtt_calculator :: RttCalculator
  quick_increase_fps_count :: nat
  increase_fps_count :: nat

record UserData =
  auto_adjust_fps :: "nat option"
  custom_fps :: "nat option"
  quality :: "(int \<times> Quality) option"
  delay :: UserDelay
  record_on :: bool

record DisplayData =
  send_counter :: nat
  support_changing_quality :: bool

record VideoQoS =
  qos_fps :: nat
  qos_ratio :: f32
  users :: "(int, UserData) hashmap"
  displays :: "(string, DisplayData) hashmap"
  bitrate_store :: nat
  adjust_ratio_instant :: nat
  abr_config :: bool
  new_user_instant :: nat

definition RttCalculator_default :: RttCalculator where
  "RttCalculator_default = \<lparr>min_rtt = None, window_min_rtt = None, smoothed_rtt = None, samples = []\<rparr>"

definition UserDelay_default :: UserDelay where
  "UserDelay_default = \<lparr>response_delayed = False, delay_history = [], delay_fps = None,
     rtt_calculator = RttCalculator_default, quick_increase_fps_count = 0, increase_fps_count = 0\<rparr>"

definition UserData_default :: UserData where
  "UserData_default = \<lparr>auto_adjust_fps = None, custom_fps = None, quality = None,
     delay = UserDelay_default, record_on = False\<rparr>"

definition DisplayData_default :: DisplayData where
  "DisplayData_default = \<lparr>send_counter = 0, support_changing_quality = False\<rparr>"

definition VideoQoS_default :: "nat \<Rightarrow> VideoQoS" where
  "VideoQoS_default now = \<lparr>qos_fps = FPS, qos_ratio = BR_BALANCED, users = [], displays = [],
     bitrate_store = 0, adjust_ratio_instant = now, abr_config = True, new_user_instant = now\<rparr>"

section \<open>Standard-library pieces\<close>

text \<open>\<open>Ord::clamp\<close>, \<open>Iterator::min\<close>, the wrapping \<open>sum::<u32>()\<close>, and \<open>elapsed().as_secs()\<close>.\<close>

definition u32_clamp :: "nat \<Rightarrow> nat \<Rightarrow> nat \<Rightarrow> nat option" where
  "u32_clamp x lo hi = (if lo \<le> hi then Some (if x < lo then lo else if x > hi then hi else x) else None)"

fun min_opt :: "nat list \<Rightarrow> nat option" where
  "min_opt [] = None"
| "min_opt (x # xs) = Some (fold min xs x)"

fun max_opt :: "nat list \<Rightarrow> nat option" where
  "max_opt [] = None"
| "max_opt (x # xs) = Some (fold max xs x)"

definition sum_u32 :: "nat list \<Rightarrow> nat" where
  "sum_u32 xs = sum_list xs mod 2 ^ 32"

definition elapsed_secs :: "nat \<Rightarrow> nat \<Rightarrow> nat" where
  "elapsed_secs now t = (now - t) div 10 ^ 9"

section \<open>Round-trip time\<close>

definition rtt_update :: "nat \<Rightarrow> RttCalculator \<Rightarrow> RttCalculator" where
  "rtt_update d r =
     (let r = (case min_rtt r of
                 Some m \<Rightarrow> if d < m then r\<lparr>min_rtt := Some d\<rparr> else r
               | None \<Rightarrow> r\<lparr>min_rtt := Some d\<rparr>);
          s = (if length (samples r) \<ge> WINDOW_SAMPLES then tl (samples r) else samples r);
          r = r\<lparr>samples := s @ [d]\<rparr>;
          r = r\<lparr>window_min_rtt := min_opt (samples r)\<rparr>
      in if length (samples r) \<ge> WINDOW_SAMPLES then
           (case (min_rtt r, window_min_rtt r) of
              (Some m, Some w) \<Rightarrow>
                r\<lparr>smoothed_rtt := Some (f32_to_u32
                    (f32_add (f32_mul (f32_sub 1 ALPHA) (f32_of_nat m)) (f32_mul ALPHA (f32_of_nat w))))\<rparr>
            | _ \<Rightarrow> r)
         else r)"

definition get_rtt :: "RttCalculator \<Rightarrow> nat option" where
  "get_rtt r =
     (case smoothed_rtt r of
        Some rtt \<Rightarrow> Some rtt
      | None \<Rightarrow> if length (samples r) \<ge> MIN_SAMPLES then min_rtt r else None)"

section \<open>Delay history of a user\<close>

definition add_delay :: "nat \<Rightarrow> UserDelay \<Rightarrow> UserDelay" where
  "add_delay d u =
     (let h = (if length (delay_history u) > HISTORY_DELAY_LEN then tl (delay_history u) else delay_history u)
      in u\<lparr>rtt_calculator := rtt_update d (rtt_calculator u), delay_history := h @ [d]\<rparr>)"

definition avg_delay :: "UserDelay \<Rightarrow> nat" where
  "avg_delay u =
     (let len = length (delay_history u) in
      if len > 0 then
        let avg = sum_u32 (delay_history u) div len in
        (case get_rtt (rtt_calculator u) of
           Some rtt \<Rightarrow> if avg > rtt then avg - rtt else avg
         | None \<Rightarrow> avg)
      else DELAY_THRESHOLD_150MS)"

section \<open>Reading the controller\<close>

definition VideoQoS_fps :: "VideoQoS \<Rightarrow> nat" where
  "VideoQoS_fps q = (if qos_fps q \<ge> MIN_FPS \<and> qos_fps q \<le> MAX_FPS then qos_fps q else FPS)"

definition spf :: "VideoQoS \<Rightarrow> f32" where
  "spf q = f32_div 1 (f32_of_nat (VideoQoS_fps q))"

definition store_bitrate :: "nat \<Rightarrow> VideoQoS \<Rightarrow> VideoQoS" where
  "store_bitrate b q = q\<lparr>bitrate_store := b\<rparr>"

definition VideoQoS_ratio :: "VideoQoS \<Rightarrow> VideoQoS \<times> f32" where
  "VideoQoS_ratio q =
     (let q = (if qos_ratio q < BR_MIN_HIGH_RESOLUTION \<or> qos_ratio q > BR_MAX
               then q\<lparr>qos_ratio := BR_BALANCED\<rparr> else q)
      in (q, qos_ratio q))"

definition VideoQoS_record :: "VideoQoS \<Rightarrow> bool" where
  "VideoQoS_record q \<longleftrightarrow> list_ex record_on (hm_values (users q))"

definition set_support_changing_quality :: "string \<Rightarrow> bool \<Rightarrow> VideoQoS \<Rightarrow> VideoQoS" where
  "set_support_changing_quality name support q =
     q\<lparr>displays := hm_adjust name (\<lambda>d. d\<lparr>support_changing_quality := support\<rparr>) (displays q)\<rparr>"

definition in_vbr_state :: "VideoQoS \<Rightarrow> bool" where
  "in_vbr_state q \<longleftrightarrow> abr_config q \<and> list_all support_changing_quality (hm_values (displays q))"

definition user_fps :: "UserData \<Rightarrow> nat" where
  "user_fps u =
     (let fps = (case custom_fps u of Some f \<Rightarrow> f | None \<Rightarrow> FPS) in
      case auto_adjust_fps u of
        Some a \<Rightarrow> if fps = 0 \<or> a < fps then a else fps
      | None \<Rightarrow> fps)"

definition highest_fps :: "VideoQoS \<Rightarrow> nat" where
  "highest_fps q =
     (let fps = (case min_opt (filter (\<lambda>u. u \<ge> MIN_FPS) (map user_fps (hm_values (users q)))) of
                   Some f \<Rightarrow> f | None \<Rightarrow> FPS)
      in if fps < MIN_FPS then MIN_FPS else if fps > MAX_FPS then MAX_FPS else fps)"

text \<open>\<open>max_by\<close> on the time stamp: the last of the greatest elements in iteration order.\<close>

fun latest_of :: "(int \<times> Quality) list \<Rightarrow> (int \<times> Quality) option" where
  "latest_of [] = None"
| "latest_of (x # xs) =
     Some (fold (\<lambda>y best. if fst best \<le> fst y then y else best) xs x)"

definition latest_quality :: "VideoQoS \<Rightarrow> Quality" where
  "latest_quality q =
     (case latest_of (List.map_filter quality (hm_values (users q))) of
        Some (_, qu) \<Rightarrow> qu | None \<Rightarrow> Balanced)"

section \<open>Adjusting the frame rate and the ratio\<close>

definition adjust_fps :: "nat \<Rightarrow> VideoQoS \<Rightarrow> VideoQoS option" where
  "adjust_fps now q =
     (let highest = highest_fps q;
          us = hm_values (users q);
          fps = (case min_opt (map (\<lambda>u. case delay_fps (delay u) of Some f \<Rightarrow> f | None \<Rightarrow> INIT_FPS) us) of
                   Some f \<Rightarrow> f | None \<Rightarrow> INIT_FPS);
          fps = (if list_ex (\<lambda>u. response_delayed (delay u)) us
                 then (if fps > MIN_FPS + 1 then MIN_FPS + 1 else fps) else fps);
          fps = (if elapsed_secs now (new_user_instant q) < 1
                 then (if fps > INIT_FPS then INIT_FPS else fps) else fps)
      in do {
        fps \<leftarrow> u32_clamp fps MIN_FPS highest;
        Some (q\<lparr>qos_fps := fps\<rparr>)
      })"

definition ratio_1mbps :: "VideoQoS \<Rightarrow> f32 option" where
  "ratio_1mbps q =
     (if bitrate_store q > 0 then
        Some (max (f32_div (f32_mul (qos_ratio q) 1000) (f32_of_nat (bitrate_store q))) BR_MIN_HIGH_RESOLUTION)
      else None)"

definition ratio_add_150kbps :: "VideoQoS \<Rightarrow> f32 option" where
  "ratio_add_150kbps q =
     (if bitrate_store q > 0 then
        Some (f32_div (f32_mul (f32_of_nat ((bitrate_store q + 150) mod 2 ^ 32)) (qos_ratio q))
                      (f32_of_nat (bitrate_store q)))
      else None)"

definition min_ratio :: "VideoQoS \<Rightarrow> f32" where
  "min_ratio q =
     (case latest_quality q of
        Best \<Rightarrow>
          (let m = f32_div BR_BEST (rnd (25 / 10));
               m = (case ratio_1mbps q of Some r \<Rightarrow> if m > r then r else m | None \<Rightarrow> m)
           in max m BR_MIN)
      | Balanced \<Rightarrow>
          (let m = min (f32_div BR_BALANCED 2) (rnd (4 / 10));
               m = (case ratio_1mbps q of Some r \<Rightarrow> if m > r then r else m | None \<Rightarrow> m)
           in max m BR_MIN_HIGH_RESOLUTION)
      | Low \<Rightarrow> BR_MIN_HIGH_RESOLUTION
      | Custom _ \<Rightarrow> BR_MIN_HIGH_RESOLUTION)"

definition scaled_ratio :: "bool \<Rightarrow> nat \<Rightarrow> f32 \<Rightarrow> f32" where
  "scaled_ratio dynamic_screen max_delay current_ratio =
     (if max_delay < 50 then
        (if dynamic_screen then f32_mul current_ratio (rnd (115 / 100)) else current_ratio)
      else if max_delay < 100 then
        (if dynamic_screen then f32_mul current_ratio (rnd (11 / 10)) else current_ratio)
      else if max_delay < DELAY_THRESHOLD_150MS then
        (if dynamic_screen then f32_mul current_ratio (rnd (105 / 100)) else current_ratio)
      else if max_delay < 200 then f32_mul current_ratio (rnd (95 / 100))
      else if max_delay < 300 then f32_mul current_ratio (rnd (9 / 10))
      else if max_delay < 500 then f32_mul current_ratio (rnd (85 / 100))
      else f32_mul current_ratio (rnd (8 / 10)))"

definition adjust_ratio :: "nat \<Rightarrow> bool \<Rightarrow> VideoQoS \<Rightarrow> VideoQoS option" where
  "adjust_ratio now dynamic_screen q =
     (if \<not> in_vbr_state q then Some q
      else case max_opt (map (\<lambda>u. avg_delay (delay u)) (hm_values (users q))) of
        None \<Rightarrow> Some q
      | Some max_delay \<Rightarrow>
          (let target_ratio = Quality_ratio (latest_quality q);
               current_ratio = qos_ratio q;
               mx = f32_mul target_ratio MAX_BR_MULTIPLE;
               v = scaled_ratio dynamic_screen max_delay current_ratio;
               v = (case ratio_add_150kbps q of
                      Some r \<Rightarrow> if v > r \<and> r > current_ratio \<and> current_ratio \<ge> BR_SPEED then r else v
                    | None \<Rightarrow> v)
           in do {
             r \<leftarrow> f32_clamp v (min_ratio q) mx;
             Some (q\<lparr>qos_ratio := r, adjust_ratio_instant := now\<rparr>)
           }))"

section \<open>User sessions\<close>

definition on_connection_open :: "nat \<Rightarrow> string \<Rightarrow> int \<Rightarrow> VideoQoS \<Rightarrow> VideoQoS" where
  "on_connection_open now enable_abr i q =
     q\<lparr>users := hm_insert i UserData_default (users q), abr_config := (enable_abr \<noteq> ''N''), new_user_instant := now\<rparr>"

definition on_connection_close :: "nat \<Rightarrow> int \<Rightarrow> VideoQoS \<Rightarrow> VideoQoS" where
  "on_connection_close now i q =
     (let q = q\<lparr>users := hm_remove i (users q)\<rparr>
      in if users q = [] then VideoQoS_default now else q)"

definition user_custom_fps :: "int \<Rightarrow> nat \<Rightarrow> VideoQoS \<Rightarrow> VideoQoS" where
  "user_custom_fps i fps q =
     (if fps < MIN_FPS \<or> fps > MAX_FPS then q
      else q\<lparr>users := hm_adjust i (\<lambda>u. u\<lparr>custom_fps := Some fps\<rparr>) (users q)\<rparr>)"

definition user_auto_adjust_fps :: "int \<Rightarrow> nat \<Rightarrow> VideoQoS \<Rightarrow> VideoQoS" where
  "user_auto_adjust_fps i fps q =
     (if fps < MIN_FPS \<or> fps > MAX_FPS then q
      else q\<lparr>users := hm_adjust i (\<lambda>u. u\<lparr>auto_adjust_fps := Some fps\<rparr>) (users q)\<rparr>)"

text \<open>The protobuf values of \<open>ImageQuality\<close> are \<open>Low = 2\<close>, \<open>Balanced = 3\<close>, \<open>Best = 4\<close>.\<close>

definition convert_quality :: "int \<Rightarrow> Quality option" where
  "convert_quality q =
     (if q = 3 then Some Balanced
      else if q = 2 then Some Low
      else if q = 4 then Some Best
      else
        let b = f32_div (f32_of_nat (nat (((q div 2 ^ 8) mod 2 ^ 12) * 2))) 100
        in map_option Custom (f32_clamp b BR_MIN BR_MAX))"

definition user_image_quality :: "int \<Rightarrow> int \<Rightarrow> int \<Rightarrow> VideoQoS \<Rightarrow> VideoQoS option" where
  "user_image_quality time i image_quality q =
     do {
       qu \<leftarrow> convert_quality image_quality;
       Some (case hm_get (users q) i of
               Some _ \<Rightarrow>
                 (let q = q\<lparr>users := hm_adjust i (\<lambda>u. u\<lparr>quality := Some (time, qu)\<rparr>) (users q)\<rparr>
                  in q\<lparr>qos_ratio := Quality_ratio (latest_quality q)\<rparr>)
             | None \<Rightarrow> q)
     }"

definition user_record :: "int \<Rightarrow> bool \<Rightarrow> VideoQoS \<Rightarrow> VideoQoS" where
  "user_record i v q = q\<lparr>users := hm_adjust i (\<lambda>u. u\<lparr>record_on := v\<rparr>) (users q)\<rparr>"

text \<open>The thresholds \<open>user_network_delay\<close> derives from the target ratio.\<close>

definition fps_thresholds :: "f32 \<Rightarrow> nat \<times> nat" where
  "fps_thresholds target_ratio =
     (if target_ratio \<ge> BR_BEST then (8, 16)
      else if target_ratio \<ge> BR_BALANCED then (10, 20)
      else (12, 24))"

definition divide_fps :: "nat \<Rightarrow> nat \<Rightarrow> nat" where
  "divide_fps fps avg =
     f32_to_u32 (f32_ceil (f32_div (f32_of_nat fps) (f32_div (f32_of_nat avg) (f32_of_nat DELAY_THRESHOLD_150MS))))"

text \<open>The frame rate for an average delay, with the counter of quick increases it updates.\<close>

definition fps_for_delay :: "nat \<Rightarrow> nat \<Rightarrow> nat \<Rightarrow> nat \<Rightarrow> nat \<Rightarrow> nat \<Rightarrow> nat \<times> nat" where
  "fps_for_delay min_fps normal_fps old_avg avg quick fps =
     (let dividend_ms = DELAY_THRESHOLD_150MS * min_fps in
      if avg < 50 then
        (let quick = quick + 1;
             step = (if fps < normal_fps then 1 else 0);
             (quick, step) = (if quick \<ge> 3 then (0, 5) else (quick, step))
         in (max min_fps (fps + step), quick))
      else if avg < 100 then
        (let step = (if avg < old_avg then (if fps < normal_fps then 1 else 0) else 0)
         in (max min_fps (fps + step), quick))
      else if avg < DELAY_THRESHOLD_150MS then (max min_fps fps, quick)
      else
        (let devide_fps = divide_fps fps avg in
         (if avg < 200 then max min_fps devide_fps
          else if avg < 300 then min min_fps devide_fps
          else if avg < 600 then dividend_ms div avg
          else min (dividend_ms div avg) devide_fps, quick)))"

text \<open>The update of one user's delay data on a network-delay report.\<close>

definition user_delay_update :: "nat \<Rightarrow> nat \<Rightarrow> nat \<Rightarrow> nat \<Rightarrow> nat \<Rightarrow> UserDelay \<Rightarrow> UserDelay option" where
  "user_delay_update min_fps normal_fps highest fps d u =
     (let d = max d 10;
          old_avg = avg_delay u;
          u = add_delay d u;
          avg = max (avg_delay u) 10;
          (fps, quick) = fps_for_delay min_fps normal_fps old_avg avg (quick_increase_fps_count u) fps;
          inc = (if avg < DELAY_THRESHOLD_150MS then increase_fps_count u + 1 else 0);
          (inc, fps) = (if inc \<ge> 3 then (0, fps + 1) else (inc, fps));
          quick = (if avg > 50 then 0 else quick)
      in do {
        fps \<leftarrow> u32_clamp fps MIN_FPS highest;
        Some (u\<lparr>quick_increase_fps_count := quick, increase_fps_count := inc, delay_fps := Some fps\<rparr>)
      })"

definition user_network_delay :: "bool \<Rightarrow> nat \<Rightarrow> int \<Rightarrow> nat \<Rightarrow> VideoQoS \<Rightarrow> VideoQoS option" where
  "user_network_delay is_linux now i d q =
     (let highest = highest_fps q;
          (min_fps, normal_fps) = fps_thresholds (Quality_ratio (latest_quality q))
      in do {
        (q', adjust) \<leftarrow>
          (case hm_get (users q) i of
             Some user \<Rightarrow> do {
               u \<leftarrow> user_delay_update min_fps normal_fps highest (qos_fps q) d (delay user);
               Some (q\<lparr>users := hm_insert i (user\<lparr>delay := u\<rparr>) (users q)\<rparr>, delay_fps (delay user) = None)
             }
           | None \<Rightarrow> Some (q, False));
        q'' \<leftarrow> adjust_fps now q';
        if adjust \<and> \<not> is_linux then adjust_ratio now False q'' else Some q''
      })"

definition user_delay_response_elapsed :: "nat \<Rightarrow> int \<Rightarrow> nat \<Rightarrow> VideoQoS \<Rightarrow> VideoQoS option" where
  "user_delay_response_elapsed now i elapsed q =
     (case hm_get (users q) i of
        Some user \<Rightarrow>
          (let late = elapsed > 2000;
               u = (delay user)\<lparr>response_delayed := late\<rparr>;
               u = (if late then add_delay (elapsed mod 2 ^ 32) u else u);
               q = q\<lparr>users := hm_insert i (user\<lparr>delay := u\<rparr>) (users q)\<rparr>
           in if late then adjust_fps now q else Some q)
      | None \<Rightarrow> Some q)"

section \<open>Displays\<close>

definition new_display :: "string \<Rightarrow> VideoQoS \<Rightarrow> VideoQoS" where
  "new_display name q = q\<lparr>displays := hm_insert name DisplayData_default (displays q)\<rparr>"

definition remove_display :: "string \<Rightarrow> VideoQoS \<Rightarrow> VideoQoS" where
  "remove_display name q = q\<lparr>displays := hm_remove name (displays q)\<rparr>"

definition update_display_data :: "nat \<Rightarrow> string \<Rightarrow> nat \<Rightarrow> VideoQoS \<Rightarrow> VideoQoS option" where
  "update_display_data now name counter q =
     do {
       q \<leftarrow> adjust_fps now (q\<lparr>displays := hm_adjust name (\<lambda>d. d\<lparr>send_counter := send_counter d + counter\<rparr>) (displays q)\<rparr>);
       if in_vbr_state q then
         (if elapsed_secs now (adjust_ratio_instant q) \<ge> ADJUST_RATIO_INTERVAL then
            (let dynamic_screen = list_ex (\<lambda>d. send_counter d \<ge> ADJUST_RATIO_INTERVAL * DYNAMIC_SCREEN_THRESHOLD)
                                    (hm_values (displays q));
                 q = q\<lparr>displays := map (\<lambda>(k, d). (k, d\<lparr>send_counter := 0\<rparr>)) (displays q)\<rparr>
             in adjust_ratio now dynamic_screen q)
          else Some q)
       else Some (q\<lparr>qos_ratio := Quality_ratio (latest_quality q)\<rparr>)
     }"

section \<open>The invariant\<close>

definition fps_ok :: "nat option \<Rightarrow> bool" where
  "fps_ok f \<longleftrightarrow> (case f of Some n \<Rightarrow> MIN_FPS \<le> n \<and> n \<le> MAX_FPS | None \<Rightarrow> True)"

definition quality_ok :: "Quality \<Rightarrow> bool" where
  "quality_ok qu \<longleftrightarrow> is_f32 (Quality_ratio qu) \<and> BR_MIN \<le> Quality_ratio qu \<and> Quality_ratio qu \<le> BR_MAX"

definition delay_ok :: "UserDelay \<Rightarrow> bool" where
  "delay_ok u \<longleftrightarrow> fps_ok (delay_fps u) \<and> length (delay_history u) \<le> HISTORY_DELAY_LEN + 1
     \<and> length (samples (rtt_calculator u)) \<le> WINDOW_SAMPLES
     \<and> quick_increase_fps_count u < 3 \<and> increase_fps_count u < 3"

definition user_ok :: "UserData \<Rightarrow> bool" where
  "user_ok u \<longleftrightarrow> fps_ok (auto_adjust_fps u) \<and> fps_ok (custom_fps u)
     \<and> (case quality u of Some (_, qu) \<Rightarrow> quality_ok qu | None \<Rightarrow> True) \<and> delay_ok (delay u)"

definition ratio_ok :: "f32 \<Rightarrow> bool" where
  "ratio_ok r \<longleftrightarrow> is_f32 r \<and> BR_MIN_HIGH_RESOLUTION \<le> r \<and> r \<le> BR_MAX"

definition qos_ok :: "VideoQoS \<Rightarrow> bool" where
  "qos_ok q \<longleftrightarrow> MIN_FPS \<le> qos_fps q \<and> qos_fps q \<le> MAX_FPS \<and> ratio_ok (qos_ratio q)
     \<and> hm_ok (users q) \<and> hm_ok (displays q) \<and> (\<forall>u \<in> set (hm_values (users q)). user_ok u)"

lemma BR_values:
  "BR_MIN = 13421773 / 67108864" "BR_MIN_HIGH_RESOLUTION = 13421773 / 134217728"
  "BR_BEST = 3 / 2" "BR_SPEED = 1 / 2" "BR_MAX = 40" "MAX_BR_MULTIPLE = 1"
  "BR_BALANCED = 11240735 / 16777216"
  by code_simp+

lemma BR_is_f32:
  "is_f32 BR_MIN" "is_f32 BR_MIN_HIGH_RESOLUTION" "is_f32 BR_BEST" "is_f32 BR_SPEED" "is_f32 BR_MAX"
  "is_f32 BR_BALANCED"
  by code_simp+

lemma u32_clamp_Some:
  "lo \<le> hi \<Longrightarrow> \<exists>y. u32_clamp x lo hi = Some y \<and> lo \<le> y \<and> y \<le> hi"
  by (auto simp: u32_clamp_def)

lemma min_opt_le: "\<lbrakk>min_opt xs = Some m; x \<in> set xs\<rbrakk> \<Longrightarrow> m \<le> x"
  by (cases xs) (auto simp flip: Min.set_eq_fold)

lemma min_opt_in: "min_opt xs = Some m \<Longrightarrow> m \<in> set xs"
  by (cases xs) (auto simp flip: Min.set_eq_fold Min_insert intro!: Min_in [of "set (_ # _)", simplified])

lemma max_opt_in: "max_opt xs = Some m \<Longrightarrow> m \<in> set xs"
  by (cases xs) (auto simp flip: Max.set_eq_fold Max_insert intro!: Max_in [of "set (_ # _)", simplified])

lemma max_opt_ge: "\<lbrakk>max_opt xs = Some m; x \<in> set xs\<rbrakk> \<Longrightarrow> x \<le> m"
  by (cases xs) (auto simp flip: Max.set_eq_fold)

lemma opt_None [simp]: "min_opt xs = None \<longleftrightarrow> xs = []" "max_opt xs = None \<longleftrightarrow> xs = []"
  by (cases xs; simp)+

lemma fold_latest:
  fixes b :: "int \<times> Quality"
  defines "f \<equiv> \<lambda>y best. if fst best \<le> fst y then y else best"
  shows "fold f ys b \<in> insert b (set ys) \<and> (\<forall>y \<in> insert b (set ys). fst y \<le> fst (fold f ys b))"
proof (induction ys arbitrary: b)
  case (Cons y ys)
  from Cons [of "f y b"] show ?case by (auto simp: f_def split: if_splits)
qed simp

lemma latest_of_greatest:
  assumes "latest_of xs = Some x"
  shows "x \<in> set xs" "y \<in> set xs \<Longrightarrow> fst y \<le> fst x"
  using assms fold_latest by (cases xs; auto)+

lemma hm_ball_insert: "\<lbrakk>\<forall>u \<in> set (hm_values m). P u; P v\<rbrakk> \<Longrightarrow> \<forall>u \<in> set (hm_values (hm_insert k v m)). P u"
  using values_insert [of k v m] by auto

lemma hm_ball_remove: "\<forall>u \<in> set (hm_values m). P u \<Longrightarrow> \<forall>u \<in> set (hm_values (hm_remove k m)). P u"
  using values_remove [of k m] by auto

lemma hm_ball_adjust:
  "\<lbrakk>\<forall>u \<in> set (hm_values m). P u; \<And>u. P u \<Longrightarrow> P (f u)\<rbrakk> \<Longrightarrow> \<forall>u \<in> set (hm_values (hm_adjust k f m)). P u"
  by (auto simp: hm_adjust_def hm_get_value split: option.splits dest!: values_insert [THEN subsetD])

lemma highest_fps_bounds: "MIN_FPS \<le> highest_fps q" "highest_fps q \<le> MAX_FPS"
  by (auto simp: highest_fps_def Let_def qos_consts)

lemma latest_quality_ok: "qos_ok q \<Longrightarrow> quality_ok (latest_quality q)"
proof -
  assume ok: "qos_ok q"
  have "quality_ok Balanced" by (simp add: quality_ok_def BR_is_f32) (simp add: BR_values)
  moreover have "quality_ok qu" if "latest_of (List.map_filter quality (hm_values (users q))) = Some (t, qu)" for t qu
    using latest_of_greatest(1) [OF that] ok
    by (auto simp: qos_ok_def user_ok_def List.map_filter_def split: option.splits)
  ultimately show ?thesis by (auto simp: latest_quality_def split: option.splits)
qed

lemma quality_ratio_ok: "quality_ok qu \<Longrightarrow> ratio_ok (Quality_ratio qu)"
  by (auto simp: quality_ok_def ratio_ok_def BR_values)

subsection \<open>Adjusting keeps the invariant and does not panic\<close>

lemma adjust_fps_Some:
  "\<exists>f. adjust_fps now q = Some (q\<lparr>qos_fps := f\<rparr>) \<and> MIN_FPS \<le> f \<and> f \<le> highest_fps q"
  using highest_fps_bounds(1) [of q] by (auto simp: adjust_fps_def Let_def u32_clamp_def)

lemma adjust_fps_ok: "qos_ok q \<Longrightarrow> \<exists>q'. adjust_fps now q = Some q' \<and> qos_ok q'"
  using adjust_fps_Some [of now q] highest_fps_bounds(2) [of q] by (fastforce simp: qos_ok_def)

lemma is_f32_op: "0 \<le> a \<Longrightarrow> 0 \<le> b \<Longrightarrow> is_f32 (f32_mul a b)" "0 \<le> a \<Longrightarrow> 0 \<le> b \<Longrightarrow> is_f32 (f32_div a b)"
  by (simp_all add: f32_mul_def f32_div_def is_f32_rnd)

lemma f32_of_nat_nonneg [simp]: "0 \<le> f32_of_nat n"
  by (simp add: f32_of_nat_def rnd_nonneg)

lemma ratio_1mbps_facts: "\<lbrakk>ratio_1mbps q = Some r; ratio_ok (qos_ratio q)\<rbrakk> \<Longrightarrow> is_f32 r"
  using BR_values(2)
  by (auto simp: ratio_1mbps_def max_def ratio_ok_def f32_mul_def BR_is_f32
      intro!: is_f32_op rnd_nonneg split: if_splits)

lemma min_ratio_facts:
  assumes "ratio_ok (qos_ratio q)" "quality_ok (latest_quality q)"
  shows "is_f32 (min_ratio q)" "BR_MIN_HIGH_RESOLUTION \<le> min_ratio q" "min_ratio q \<le> Quality_ratio (latest_quality q)"
proof -
  have best: "f32_div BR_BEST (rnd (5 / 2)) = 5033165 / 8388608" "is_f32 (5033165 / 8388608)"
    and bal: "f32_div BR_BALANCED 2 = 11240735 / 33554432" "is_f32 (11240735 / 33554432)"
      "rnd (2 / 5) = 13421773 / 33554432" "is_f32 (13421773 / 33554432)"
    by code_simp+
  show "is_f32 (min_ratio q)"
    using ratio_1mbps_facts [of q] assms(1)
    by (auto simp: min_ratio_def Let_def best bal BR_is_f32 max_def min_def split: Quality.splits option.splits)
  show "BR_MIN_HIGH_RESOLUTION \<le> min_ratio q"
    by (auto simp: min_ratio_def Let_def BR_values max_def split: Quality.splits option.splits)
  show "min_ratio q \<le> Quality_ratio (latest_quality q)"
    using assms(2)
    by (auto simp: min_ratio_def Let_def best best(1) [unfolded BR_values] bal BR_values quality_ok_def max_def min_def split: Quality.splits option.splits)
qed

lemma scaled_ratio_f32: "\<lbrakk>is_f32 r; 0 \<le> r\<rbrakk> \<Longrightarrow> is_f32 (scaled_ratio dyn d r)"
  by (auto simp: scaled_ratio_def intro!: is_f32_op rnd_nonneg)

lemma adjust_ratio_ok:
  assumes "qos_ok q"
  shows "\<exists>q'. adjust_ratio now dyn q = Some q' \<and> qos_ok q' \<and>
           (q' = q \<or> (min_ratio q \<le> qos_ratio q' \<and> qos_ratio q' \<le> Quality_ratio (latest_quality q)))"
proof (cases "in_vbr_state q")
  case True
  note r = \<open>qos_ok q\<close> [unfolded qos_ok_def, THEN conjunct2, THEN conjunct2, THEN conjunct1]
  note lq = latest_quality_ok [OF assms]
  note mr = min_ratio_facts [OF r lq]
  have pos: "0 \<le> qos_ratio q" using r by (simp add: ratio_ok_def BR_values)
  have mx: "f32_mul (Quality_ratio (latest_quality q)) MAX_BR_MULTIPLE = Quality_ratio (latest_quality q)"
    using lq by (simp add: f32_mul_def BR_values quality_ok_def is_f32_def)
  have ra: "is_f32 x" if "ratio_add_150kbps q = Some x" for x
    using that pos
    by (auto simp: ratio_add_150kbps_def f32_mul_def split: if_splits intro!: is_f32_op rnd_nonneg)
  have clamp: "\<exists>y. f32_clamp v (min_ratio q) (Quality_ratio (latest_quality q)) = Some y \<and> ratio_ok y
     \<and> min_ratio q \<le> y \<and> y \<le> Quality_ratio (latest_quality q)" if "is_f32 v" for v
    using that mr lq by (auto simp: f32_clamp_def ratio_ok_def quality_ok_def BR_values)
  show ?thesis
  proof (cases "max_opt (map (\<lambda>u. avg_delay (delay u)) (hm_values (users q)))")
    case (Some d)
    define v where "v = (case ratio_add_150kbps q of
        Some r \<Rightarrow> if scaled_ratio dyn d (qos_ratio q) > r \<and> r > qos_ratio q \<and> qos_ratio q \<ge> BR_SPEED then r
                  else scaled_ratio dyn d (qos_ratio q)
      | None \<Rightarrow> scaled_ratio dyn d (qos_ratio q))"
    have "is_f32 v"
      using ra r pos by (auto simp: v_def ratio_ok_def scaled_ratio_f32 split: option.splits)
    from clamp [OF this] obtain y where y: "f32_clamp v (min_ratio q) (Quality_ratio (latest_quality q)) = Some y"
      "ratio_ok y" "min_ratio q \<le> y" "y \<le> Quality_ratio (latest_quality q)" by blast
    have "adjust_ratio now dyn q = Some (q\<lparr>qos_ratio := y, adjust_ratio_instant := now\<rparr>)"
      using y(1) True Some by (simp add: adjust_ratio_def Let_def mx v_def)
    with y assms show ?thesis by (auto simp: qos_ok_def)
  qed (use True assms in \<open>auto simp: adjust_ratio_def\<close>)
qed (use assms in \<open>auto simp: adjust_ratio_def\<close>)

subsection \<open>The operations\<close>

lemma add_delay_ok: "delay_ok u \<Longrightarrow> delay_ok (add_delay d u)"
proof -
  have "length (samples (rtt_update d r)) \<le> WINDOW_SAMPLES" if "length (samples r) \<le> WINDOW_SAMPLES" for r
    using that by (auto simp: rtt_update_def Let_def qos_consts split: option.splits)
  then show "delay_ok u \<Longrightarrow> delay_ok (add_delay d u)"
    by (auto simp: delay_ok_def add_delay_def Let_def HISTORY_DELAY_LEN_def)
qed

lemma add_delay_simps [simp]:
  "delay_fps (add_delay d u) = delay_fps u" "response_delayed (add_delay d u) = response_delayed u"
  "increase_fps_count (add_delay d u) = increase_fps_count u"
  "quick_increase_fps_count (add_delay d u) = quick_increase_fps_count u"
  by (simp_all add: add_delay_def Let_def)

lemma fps_for_delay_quick: "quick < 3 \<Longrightarrow> snd (fps_for_delay m n old avg quick fps) < 3"
  by (auto simp: fps_for_delay_def Let_def)

lemma user_delay_update_ok:
  assumes "delay_ok u" "MIN_FPS \<le> highest" "highest \<le> MAX_FPS"
  shows "\<exists>u'. user_delay_update m n highest fps d u = Some u' \<and> delay_ok u' \<and>
           (\<exists>f. delay_fps u' = Some f \<and> MIN_FPS \<le> f \<and> f \<le> highest)"
proof -
  define a where "a = add_delay (max d 10) u"
  define avg where "avg = max (avg_delay a) 10"
  obtain f quick where fq: "fps_for_delay m n (avg_delay u) avg (quick_increase_fps_count u) fps = (f, quick)"
    by (cases "fps_for_delay m n (avg_delay u) avg (quick_increase_fps_count u) fps")
  have q3: "quick < 3"
    using fps_for_delay_quick [of "quick_increase_fps_count u"] fq assms(1) by (metis delay_ok_def snd_conv)
  have a: "delay_ok a" unfolding a_def using assms(1) by (rule add_delay_ok)
  define inc where "inc = (if avg < DELAY_THRESHOLD_150MS then increase_fps_count u + 1 else 0)"
  obtain f' where f': "u32_clamp (if inc \<ge> 3 then f + 1 else f) MIN_FPS highest = Some f'" "MIN_FPS \<le> f'" "f' \<le> highest"
    using u32_clamp_Some [OF assms(2)] by blast
  have "user_delay_update m n highest fps d u =
      Some (a\<lparr>quick_increase_fps_count := (if avg > 50 then 0 else quick),
              increase_fps_count := (if inc \<ge> 3 then 0 else inc), delay_fps := Some f'\<rparr>)"
    using fq f'(1)
    by (auto simp: user_delay_update_def Let_def a_def avg_def inc_def max_def split: if_splits)
  then show ?thesis
    using a q3 f' assms(3) by (auto simp: delay_ok_def fps_ok_def)
qed

lemma qos_ok_user: "\<lbrakk>qos_ok q; hm_get (users q) i = Some u\<rbrakk> \<Longrightarrow> user_ok u"
  by (auto simp: qos_ok_def dest: hm_get_value)

lemma qos_ok_set_user: "\<lbrakk>qos_ok q; user_ok u\<rbrakk> \<Longrightarrow> qos_ok (q\<lparr>users := hm_insert i u (users q)\<rparr>)"
  using hm_ball_insert [of "users q" user_ok u i] by (simp add: qos_ok_def)

lemma qos_ok_adjust_user:
  "\<lbrakk>qos_ok q; \<And>u. user_ok u \<Longrightarrow> user_ok (f u)\<rbrakk> \<Longrightarrow> qos_ok (q\<lparr>users := hm_adjust i f (users q)\<rparr>)"
  using hm_ball_adjust [of "users q" user_ok f i] by (simp add: qos_ok_def ok_adjust)

lemma qos_ok_set_delay:
  "\<lbrakk>qos_ok q; hm_get (users q) i = Some u; delay_ok d\<rbrakk>
   \<Longrightarrow> qos_ok (q\<lparr>users := hm_insert i (u\<lparr>delay := d\<rparr>) (users q)\<rparr>)"
  by (rule qos_ok_set_user) (auto dest: qos_ok_user simp: user_ok_def)

lemma VideoQoS_default_ok: "qos_ok (VideoQoS_default now)"
  by (simp add: qos_ok_def VideoQoS_default_def qos_consts ratio_ok_def BR_is_f32 hm_values_def)
     (simp add: BR_values)

lemma UserData_default_ok: "user_ok UserData_default"
  by (simp add: user_ok_def UserData_default_def UserDelay_default_def RttCalculator_default_def delay_ok_def fps_ok_def)

lemma convert_quality_ok: "\<exists>qu. convert_quality q = Some qu \<and> quality_ok qu"
proof -
  have named: "quality_ok Best" "quality_ok Balanced" "quality_ok Low"
    by (simp_all add: quality_ok_def BR_is_f32) (simp_all add: BR_values)
  have "\<exists>y. f32_clamp (f32_div a 100) BR_MIN BR_MAX = Some y \<and> is_f32 y \<and> BR_MIN \<le> y \<and> y \<le> BR_MAX"
    if "0 \<le> a" for a
  proof -
    have "BR_MIN \<le> BR_MAX" by (simp add: BR_values)
    with that show ?thesis by (auto simp: f32_clamp_def BR_is_f32 is_f32_op)
  qed
  from this [OF f32_of_nat_nonneg] obtain y where
    "f32_clamp (f32_div (f32_of_nat (nat (((q div 2 ^ 8) mod 2 ^ 12) * 2))) 100) BR_MIN BR_MAX = Some y"
    "is_f32 y" "BR_MIN \<le> y" "y \<le> BR_MAX" by blast
  then show ?thesis using named by (auto simp: convert_quality_def Let_def quality_ok_def)
qed

lemma user_network_delay_ok:
  assumes "qos_ok q"
  shows "\<exists>q'. user_network_delay lin now i d q = Some q' \<and> qos_ok q'"
proof -
  obtain m n where mn: "fps_thresholds (Quality_ratio (latest_quality q)) = (m, n)"
    by (cases "fps_thresholds (Quality_ratio (latest_quality q))")
  obtain q1 a where q1: "qos_ok q1" "(case hm_get (users q) i of
             Some user \<Rightarrow> do {
               u \<leftarrow> user_delay_update m n (highest_fps q) (qos_fps q) d (delay user);
               Some (q\<lparr>users := hm_insert i (user\<lparr>delay := u\<rparr>) (users q)\<rparr>, delay_fps (delay user) = None)
             }
           | None \<Rightarrow> Some (q, False)) = Some (q1, a)"
  proof (cases "hm_get (users q) i")
    case (Some user)
    have "delay_ok (delay user)" using qos_ok_user [OF assms Some] by (simp add: user_ok_def)
    from user_delay_update_ok [OF this highest_fps_bounds, of m n q "qos_fps q" d]
    obtain u where "user_delay_update m n (highest_fps q) (qos_fps q) d (delay user) = Some u" "delay_ok u" by blast
    then show thesis using that [of "q\<lparr>users := hm_insert i (user\<lparr>delay := u\<rparr>) (users q)\<rparr>"] Some
      by (simp add: qos_ok_set_delay [OF assms])
  qed (use assms that [of q False] in simp)
  obtain q2 where q2: "adjust_fps now q1 = Some q2" "qos_ok q2" using adjust_fps_ok [OF q1(1)] by blast
  then show ?thesis
    using adjust_ratio_ok [OF q2(2), of now False] mn q1(2)
    by (auto simp: user_network_delay_def Let_def)
qed

lemma user_delay_response_elapsed_ok:
  assumes "qos_ok q"
  shows "\<exists>q'. user_delay_response_elapsed now i e q = Some q' \<and> qos_ok q'"
proof (cases "hm_get (users q) i")
  case (Some user)
  define u where "u = (let u = (delay user)\<lparr>response_delayed := e > 2000\<rparr> in if e > 2000 then add_delay (e mod 2 ^ 32) u else u)"
  have "delay_ok ((delay user)\<lparr>response_delayed := e > 2000\<rparr>)"
    using qos_ok_user [OF assms Some] by (simp add: user_ok_def delay_ok_def)
  then have "delay_ok u" by (cases "e > 2000") (simp_all add: u_def Let_def add_delay_ok)
  then have "qos_ok (q\<lparr>users := hm_insert i (user\<lparr>delay := u\<rparr>) (users q)\<rparr>)"
    by (rule qos_ok_set_delay [OF assms Some])
  then show ?thesis
    using adjust_fps_ok Some by (auto simp: user_delay_response_elapsed_def Let_def u_def)
qed (use assms in \<open>auto simp: user_delay_response_elapsed_def\<close>)

lemma user_image_quality_ok:
  assumes "qos_ok q"
  shows "\<exists>q'. user_image_quality t i iq q = Some q' \<and> qos_ok q'"
proof -
  obtain qu where qu: "convert_quality iq = Some qu" "quality_ok qu" using convert_quality_ok by blast
  define q1 where "q1 = q\<lparr>users := hm_adjust i (\<lambda>u. u\<lparr>quality := Some (t, qu)\<rparr>) (users q)\<rparr>"
  have "qos_ok q1" unfolding q1_def using assms qu(2) by (intro qos_ok_adjust_user) (auto simp: user_ok_def)
  then have "qos_ok (q1\<lparr>qos_ratio := Quality_ratio (latest_quality q1)\<rparr>)"
    using quality_ratio_ok [OF latest_quality_ok [OF \<open>qos_ok q1\<close>]] by (simp add: qos_ok_def)
  then show ?thesis using assms qu by (auto simp: user_image_quality_def Let_def q1_def split: option.splits)
qed

lemma update_display_data_ok:
  assumes "qos_ok q"
  shows "\<exists>q'. update_display_data now name c q = Some q' \<and> qos_ok q'"
proof -
  define q0 where "q0 = q\<lparr>displays := hm_adjust name (\<lambda>d. d\<lparr>send_counter := send_counter d + c\<rparr>) (displays q)\<rparr>"
  have "qos_ok q0" using assms by (simp add: qos_ok_def q0_def ok_adjust)
  then obtain q1 where q1: "adjust_fps now q0 = Some q1" "qos_ok q1" using adjust_fps_ok by blast
  have "qos_ok (q1\<lparr>displays := map (\<lambda>(k, d). (k, d\<lparr>send_counter := 0\<rparr>)) (displays q1)\<rparr>)"
    using q1(2) by (simp add: qos_ok_def ok_map_values)
  moreover have "qos_ok (q1\<lparr>qos_ratio := Quality_ratio (latest_quality q1)\<rparr>)"
    using q1(2) quality_ratio_ok [OF latest_quality_ok [OF q1(2)]] by (simp add: qos_ok_def)
  ultimately show ?thesis
    using q1 adjust_ratio_ok by (fastforce simp: update_display_data_def q0_def Let_def)
qed

section \<open>Runs of the controller\<close>

text \<open>
  The events the server feeds to the controller, each with the clock reading and the settings
  it is handled under, and a run of them; a run is \<open>None\<close> when an operation panics.
\<close>

datatype qos_event =
    Open nat string int
  | Close nat int
  | Custom_fps int nat
  | Auto_adjust_fps int nat
  | Image_quality int int int
  | Record int bool
  | Network_delay bool nat int nat
  | Delay_response_elapsed nat int nat
  | New_display string
  | Remove_display string
  | Display_data nat string nat
  | Support_changing_quality string bool
  | Store_bitrate nat
  | Read_ratio

fun qos_apply :: "qos_event \<Rightarrow> VideoQoS \<Rightarrow> VideoQoS option" where
  "qos_apply (Open now abr i) q = Some (on_connection_open now abr i q)"
| "qos_apply (Close now i) q = Some (on_connection_close now i q)"
| "qos_apply (Custom_fps i f) q = Some (user_custom_fps i f q)"
| "qos_apply (Auto_adjust_fps i f) q = Some (user_auto_adjust_fps i f q)"
| "qos_apply (Image_quality t i iq) q = user_image_quality t i iq q"
| "qos_apply (Record i v) q = Some (user_record i v q)"
| "qos_apply (Network_delay lin now i d) q = user_network_delay lin now i d q"
| "qos_apply (Delay_response_elapsed now i e) q = user_delay_response_elapsed now i e q"
| "qos_apply (New_display n) q = Some (new_display n q)"
| "qos_apply (Remove_display n) q = Some (remove_display n q)"
| "qos_apply (Display_data now n c) q = update_display_data now n c q"
| "qos_apply (Support_changing_quality n b) q = Some (set_support_changing_quality n b q)"
| "qos_apply (Store_bitrate b) q = Some (store_bitrate b q)"
| "qos_apply Read_ratio q = Some (fst (VideoQoS_ratio q))"

fun qos_run :: "qos_event list \<Rightarrow> VideoQoS \<Rightarrow> VideoQoS option" where
  "qos_run [] q = Some q"
| "qos_run (e # es) q = do { q \<leftarrow> qos_apply e q; qos_run es q }"

lemma on_connection_open_ok: "qos_ok q \<Longrightarrow> qos_ok (on_connection_open now abr i q)"
  using qos_ok_set_user [OF _ UserData_default_ok, of q i] by (simp add: on_connection_open_def qos_ok_def)

lemma on_connection_close_ok: "qos_ok q \<Longrightarrow> qos_ok (on_connection_close now i q)"
  using hm_ball_remove [of "users q" user_ok i] VideoQoS_default_ok
  by (simp add: on_connection_close_def Let_def) (simp add: qos_ok_def)

lemma user_set_fps_ok:
  "qos_ok q \<Longrightarrow> qos_ok (user_custom_fps i f q)" "qos_ok q \<Longrightarrow> qos_ok (user_auto_adjust_fps i f q)"
  "qos_ok q \<Longrightarrow> qos_ok (user_record i v q)"
  by (auto simp: user_custom_fps_def user_auto_adjust_fps_def user_record_def user_ok_def fps_ok_def
      intro!: qos_ok_adjust_user)

lemma qos_ok_displays:
  "qos_ok q \<Longrightarrow> qos_ok (new_display n q)" "qos_ok q \<Longrightarrow> qos_ok (remove_display n q)"
  "qos_ok q \<Longrightarrow> qos_ok (set_support_changing_quality n b q)" "qos_ok q \<Longrightarrow> qos_ok (store_bitrate k q)"
  by (simp_all add: qos_ok_def new_display_def remove_display_def set_support_changing_quality_def
      store_bitrate_def ok_adjust)

lemma VideoQoS_ratio_id: "qos_ok q \<Longrightarrow> VideoQoS_ratio q = (q, qos_ratio q)"
  by (auto simp: qos_ok_def ratio_ok_def VideoQoS_ratio_def)

lemma qos_apply_ok: "qos_ok q \<Longrightarrow> \<exists>q'. qos_apply e q = Some q' \<and> qos_ok q'"
  by (cases e)
     (simp_all add: on_connection_open_ok on_connection_close_ok user_set_fps_ok qos_ok_displays
       user_image_quality_ok user_network_delay_ok user_delay_response_elapsed_ok update_display_data_ok
       VideoQoS_ratio_id)

lemma qos_run_ok: "qos_ok q \<Longrightarrow> \<exists>q'. qos_run es q = Some q' \<and> qos_ok q'"
proof (induction es arbitrary: q)
  case (Cons e es)
  obtain q1 where "qos_apply e q = Some q1" "qos_ok q1" using qos_apply_ok [OF Cons.prems] by blast
  with Cons.IH show ?case by simp
qed simp

text \<open>
  C24. Whatever the connected users send and whatever the clock and the settings are, no
  operation of the controller panics, and afterwards the frame rate is between 1 and 120, the
  bitrate ratio is a float between \<open>0.1f32\<close> and \<open>40f32\<close>, what the users asked for is in range,
  and the delay histories and counters are bounded.
\<close>

theorem qos_never_panics:
  "\<exists>q. qos_run es (VideoQoS_default now) = Some q \<and> qos_ok q \<and>
       1 \<le> qos_fps q \<and> qos_fps q \<le> 120 \<and> rnd (1 / 10) \<le> qos_ratio q \<and> qos_ratio q \<le> 40"
proof -
  obtain q where "qos_run es (VideoQoS_default now) = Some q" "qos_ok q"
    using qos_run_ok [OF VideoQoS_default_ok] by blast
  then show ?thesis
    by (auto simp: qos_ok_def ratio_ok_def qos_consts BR_values(5) BR_MIN_HIGH_RESOLUTION_def)
qed

section \<open>Backing off\<close>

lemma highest_fps_user:
  assumes "u \<in> set (hm_values (users q))" "user_ok u"
  shows "highest_fps q \<le> (case custom_fps u of Some f \<Rightarrow> f | None \<Rightarrow> FPS)"
proof -
  let ?us = "filter (\<lambda>u. u \<ge> MIN_FPS) (map user_fps (hm_values (users q)))"
  have bounds: "MIN_FPS \<le> user_fps u" "user_fps u \<le> (case custom_fps u of Some f \<Rightarrow> f | None \<Rightarrow> FPS)"
    using assms(2)
    by (auto simp: user_fps_def Let_def user_ok_def fps_ok_def qos_consts split: option.splits)
  then have "user_fps u \<in> set ?us" using assms(1) by auto
  then have "?us \<noteq> []" by force
  then obtain m where m: "min_opt ?us = Some m" by (metis opt_None(1) option.exhaust)
  from min_opt_le [OF m \<open>user_fps u \<in> set ?us\<close>] have "m \<le> user_fps u" .
  moreover have "MIN_FPS \<le> m" using min_opt_in [OF m] by simp
  ultimately show ?thesis using bounds m by (simp add: highest_fps_def Let_def)
qed

definition reported_fps :: "UserData \<Rightarrow> nat" where
  "reported_fps u = (case delay_fps (delay u) of Some f \<Rightarrow> f | None \<Rightarrow> INIT_FPS)"


definition example_qos :: VideoQoS where
  "example_qos = (VideoQoS_default 0)\<lparr>users := [(7, UserData_default\<lparr>custom_fps := Some 20,
     delay := UserDelay_default\<lparr>response_delayed := True, delay_history := [250], delay_fps := Some 12\<rparr>\<rparr>)]\<rparr>"

lemma example_qos_ok: "qos_ok example_qos"
  using VideoQoS_default_ok [of 0]
  by (simp add: qos_ok_def example_qos_def hm_ok_def hm_values_def VideoQoS_default_def user_ok_def
      UserData_default_def UserDelay_default_def RttCalculator_default_def delay_ok_def fps_ok_def qos_consts)


text \<open>
  Congestion: in the variable-bitrate state, when some user's average delay is at least
  150 ms, an adjustment lowers the ratio by at least 5 percent or leaves it at the minimum
  ratio for the chosen quality; it never rises above its old value.
\<close>

theorem adjust_ratio_backs_off:
  assumes "qos_ok q" "in_vbr_state q" "u \<in> set (hm_values (users q))" "150 \<le> avg_delay (delay u)"
  shows "\<exists>r. adjust_ratio now dyn q = Some (q\<lparr>qos_ratio := r, adjust_ratio_instant := now\<rparr>) \<and>
     min_ratio q \<le> r \<and> r \<le> max (min_ratio q) (f32_mul (qos_ratio q) (rnd (95 / 100)))"
proof -
  obtain d where d: "max_opt (map (\<lambda>u. avg_delay (delay u)) (hm_values (users q))) = Some d"
    using assms(3) by (cases "max_opt (map (\<lambda>u. avg_delay (delay u)) (hm_values (users q)))") auto
  have "150 \<le> d" using max_opt_ge [OF d, of "avg_delay (delay u)"] assms(3,4) by force
  have r: "is_f32 (qos_ratio q)" "0 \<le> qos_ratio q"
    using assms(1) by (auto simp: qos_ok_def ratio_ok_def BR_values)
  have vals: "rnd (95 / 100) \<le> 1" "rnd (9 / 10) \<le> rnd (95 / 100)" "rnd (85 / 100) \<le> rnd (95 / 100)"
    "rnd (8 / 10) \<le> rnd (95 / 100)" by code_simp+
  have mono: "f32_mul (qos_ratio q) a \<le> f32_mul (qos_ratio q) b" if "0 \<le> a" "a \<le> b" for a b
    using that r by (auto simp: f32_mul_def intro!: rnd_mono mult_left_mono)
  let ?v = "scaled_ratio dyn d (qos_ratio q)"
  have v: "?v \<le> f32_mul (qos_ratio q) (rnd (95 / 100))"
    using \<open>150 \<le> d\<close> mono [OF rnd_nonneg vals(2)] mono [OF rnd_nonneg vals(3)] mono [OF rnd_nonneg vals(4)]
    by (auto simp: scaled_ratio_def DELAY_THRESHOLD_150MS_def)
  also have "\<dots> \<le> qos_ratio q" using r vals(1) by (intro f32_mul_le) (auto simp: rnd_nonneg)
  finally have vq: "?v \<le> qos_ratio q" .
  have mx: "f32_mul (Quality_ratio (latest_quality q)) MAX_BR_MULTIPLE = Quality_ratio (latest_quality q)"
    using latest_quality_ok [OF assms(1)] by (simp add: f32_mul_def BR_values quality_ok_def is_f32_def)
  have mr: "min_ratio q \<le> Quality_ratio (latest_quality q)"
    using assms(1) latest_quality_ok [OF assms(1)] by (intro min_ratio_facts) (simp_all add: qos_ok_def)
  have "(case ratio_add_150kbps q of Some r \<Rightarrow> if r < ?v \<and> qos_ratio q < r \<and> BR_SPEED \<le> qos_ratio q then r else ?v
           | None \<Rightarrow> ?v) = ?v"
    using vq by (auto split: option.splits)
  then show ?thesis
    using assms(2) d v mr by (auto simp: adjust_ratio_def Let_def mx f32_clamp_def)
qed

theorem adjust_ratio_backs_off_witness:
  "\<exists>r. adjust_ratio 5 True example_qos = Some (example_qos\<lparr>qos_ratio := r, adjust_ratio_instant := 5\<rparr>) \<and>
     min_ratio example_qos \<le> r \<and> r \<le> max (min_ratio example_qos) (f32_mul BR_BALANCED (rnd (95 / 100)))"
proof -
  let ?u = "UserData_default\<lparr>custom_fps := Some 20,
     delay := UserDelay_default\<lparr>response_delayed := True, delay_history := [250], delay_fps := Some 12\<rparr>\<rparr>"
  have "in_vbr_state example_qos" "?u \<in> set (hm_values (users example_qos))" "150 \<le> avg_delay (delay ?u)"
    "qos_ratio example_qos = BR_BALANCED"
    by (simp_all add: example_qos_def in_vbr_state_def VideoQoS_default_def hm_values_def UserDelay_default_def
        avg_delay_def Let_def sum_u32_def get_rtt_def RttCalculator_default_def MIN_SAMPLES_def)
  with adjust_ratio_backs_off [OF example_qos_ok, of ?u 5 True] show ?thesis by simp
qed

end
