(* ===== verification/File_Delivery.thy ===== *)
theory File_Delivery
  imports File_Transfer "HOL-Library.Code_Target_Nat"
begin

text \<open>
  What the file-transfer jobs of \<open>File_Transfer\<close> achieve: the receiving job keeps every file it
  writes under its temporary name until it is complete, a sending and a receiving job together
  deliver a directory, nothing is sent before the peer consents, and an interrupted download
  is resumed where it stopped.  The file system is seen through \<open>key_file\<close>, the abstraction of
  \<open>File_System\<close>.
\<close>

section \<open>The entries of a receiving job\<close>

definition last_comp :: "string \<Rightarrow> string" where
  "last_comp path = rev (takeWhile (\<lambda>c. c \<noteq> CHR ''/'') (rev path))"

definition target_ok :: "string \<Rightarrow> bool" where
  "target_ok path \<longleftrightarrow> CHR ''/'' \<in> set path \<and> simple_name (last_comp path)"

lemma last_comp_split:
  "CHR ''/'' \<in> set path \<Longrightarrow> \<exists>d. path = d @ CHR ''/'' # last_comp path"
proof -
  assume "CHR ''/'' \<in> set path"
  then obtain d c where dc: "path = d @ CHR ''/'' # c" "CHR ''/'' \<notin> set c"
    by (metis split_list_last)
  from dc(2) have tw: "takeWhile (\<lambda>x. x \<noteq> CHR ''/'') (rev c) = rev c" by (subst takeWhile_eq_all_conv) auto
  have "last_comp path = c" unfolding last_comp_def dc(1) by (simp add: takeWhile_tail tw)
  with dc(1) show ?thesis by (intro exI [of _ d]) simp
qed

lemma target_split:
  assumes "target_ok path"
  obtains d c where "path = d @ CHR ''/'' # c" "simple_name c"
  using assms last_comp_split [of path] that by (auto simp: target_ok_def)

definition parent_key :: "string \<Rightarrow> key" where
  "parent_key path = key_parent (path_key path)"

lemma target_keys:
  assumes "target_ok path"
  obtains c where "path_key path = (fst (parent_key path), snd (parent_key path) @ [c])"
    "path_key (download_path path) = (fst (parent_key path), snd (parent_key path) @ [c @ ''.download''])"
    "path_key (digest_path path) = (fst (parent_key path), snd (parent_key path) @ [c @ ''.digest''])"
    "\<exists>pp. path_parent path = Some pp \<and> path_key pp = parent_key path"
proof -
  from assms obtain d c where path: "path = d @ CHR ''/'' # c" "simple_name c" by (rule target_split)
  have suffixed: "simple_name (c @ ''.download'')" "simple_name (c @ ''.digest'')"
    using path(2) by (simp_all add: simple_name_suffix)
  have key: "path_key path = (fst (path_key (d @ ''/'')), snd (path_key (d @ ''/'')) @ [c])"
    using path_key_snoc [OF path(2)] path(1) by simp
  then have pk: "parent_key path = path_key (d @ ''/'')" by (simp add: parent_key_def key_parent_def)
  show thesis
  proof (rule that [of c])
    show "path_key path = (fst (parent_key path), snd (parent_key path) @ [c])" unfolding pk by (rule key)
    show "path_key (download_path path) = (fst (parent_key path), snd (parent_key path) @ [c @ ''.download''])"
      unfolding pk unfolding download_path_def path(1) append_assoc append_Cons by (rule path_key_snoc [OF suffixed(1)])
    show "path_key (digest_path path) = (fst (parent_key path), snd (parent_key path) @ [c @ ''.digest''])"
      unfolding pk unfolding digest_path_def path(1) append_assoc append_Cons by (rule path_key_snoc [OF suffixed(2)])
    show "\<exists>pp. path_parent path = Some pp \<and> path_key pp = parent_key path"
      unfolding pk unfolding path(1) by (rule path_parent_snoc [OF path(2)])
  qed
qed

lemma target_parents:
  assumes "target_ok path"
  shows "key_parent (path_key path) = parent_key path" "key_parent (path_key (download_path path)) = parent_key path"
    "key_parent (path_key (digest_path path)) = parent_key path"
    "path_key path \<noteq> path_key (download_path path)" "path_key path \<noteq> path_key (digest_path path)"
    "path_key (download_path path) \<noteq> path_key (digest_path path)"
proof -
  from assms obtain c where c: "path_key path = (fst (parent_key path), snd (parent_key path) @ [c])"
    "path_key (download_path path) = (fst (parent_key path), snd (parent_key path) @ [c @ ''.download''])"
    "path_key (digest_path path) = (fst (parent_key path), snd (parent_key path) @ [c @ ''.digest''])"
    by (rule target_keys) blast
  show "key_parent (path_key path) = parent_key path" by (simp add: parent_key_def)
  show "key_parent (path_key (download_path path)) = parent_key path"
    "key_parent (path_key (digest_path path)) = parent_key path" by (simp_all add: c key_parent_def)
  show "path_key path \<noteq> path_key (download_path path)" "path_key path \<noteq> path_key (digest_path path)"
    "path_key (download_path path) \<noteq> path_key (digest_path path)" by (simp_all add: c)
qed

definition target_path :: "string \<Rightarrow> FileEntry list \<Rightarrow> nat \<Rightarrow> string" where
  "target_path p fl i = job_join p (fe_name (fl ! i))"

definition path_entries :: "string \<Rightarrow> key list" where
  "path_entries path = [path_key path, path_key (download_path path), path_key (digest_path path)]"

definition target_entries :: "string \<Rightarrow> FileEntry list \<Rightarrow> key list" where
  "target_entries p fl = concat (map (\<lambda>e. path_entries (job_join p (fe_name e))) fl)"

text \<open>
  The destination of a transfer is usable when the targets, their \<open>.download\<close> and \<open>.digest\<close>
  files are pairwise different entries, none above another, and free to be used as files.
\<close>

definition targets_ok :: "string \<Rightarrow> FileEntry list \<Rightarrow> bool" where
  "targets_ok p fl \<longleftrightarrow> length fl < 2 ^ 31 \<and> (\<forall>e \<in> set fl. target_ok (job_join p (fe_name e)) \<and> modified_time e < 2 ^ 63)
     \<and> distinct (target_entries p fl) \<and> antichain (set (target_entries p fl))"

lemma target_entriesI:
  assumes "i < length fl"
  shows "path_key (target_path p fl i) \<in> set (target_entries p fl)"
    "path_key (download_path (target_path p fl i)) \<in> set (target_entries p fl)"
    "path_key (digest_path (target_path p fl i)) \<in> set (target_entries p fl)"
proof -
  have "set (path_entries (target_path p fl i)) \<subseteq> set (target_entries p fl)"
    using nth_mem [OF assms] by (auto simp: target_entries_def target_path_def)
  then show "path_key (target_path p fl i) \<in> set (target_entries p fl)"
    "path_key (download_path (target_path p fl i)) \<in> set (target_entries p fl)"
    "path_key (digest_path (target_path p fl i)) \<in> set (target_entries p fl)"
    by (auto simp: path_entries_def)
qed

lemma target_entries_distinct:
  assumes "targets_ok p fl" "i < length fl" "m < length fl" "i \<noteq> m"
  shows "set (path_entries (target_path p fl i)) \<inter> set (path_entries (target_path p fl m)) = {}"
proof -
  let ?f = "\<lambda>e. path_entries (job_join p (fe_name e))"
  have *: "distinct (concat (map ?f fl))"
    using assms(1) by (simp add: targets_ok_def target_entries_def)
  have less: "set (?f (fl ! a)) \<inter> set (?f (fl ! b)) = {}" if "a < b" "b < length fl" for a b
  proof -
    have fl: "fl = take a fl @ fl ! a # drop (Suc a) fl" using that by (simp add: id_take_nth_drop)
    have "drop (Suc a) fl ! (b - Suc a) = fl ! b" "b - Suc a < length (drop (Suc a) fl)" using that by simp_all
    then have "fl ! b \<in> set (drop (Suc a) fl)" by (metis nth_mem)
    moreover have "set (?f (fl ! a)) \<inter> (\<Union>e \<in> set (drop (Suc a) fl). set (?f e)) = {}"
      using * by (subst (asm) fl) auto
    ultimately show ?thesis by blast
  qed
  from assms(4) consider "i < m" | "m < i" by linarith
  then show ?thesis
    using less [of i m] less [of m i] assms(2,3) by cases (auto simp: target_path_def)
qed

section \<open>Receiving a file\<close>

definition payload :: "ext_funs \<Rightarrow> FileTransferBlock \<Rightarrow> bytes" where
  "payload x b = (if blk_compressed b then decompress x (blk_data b) else blk_data b)"

definition receiver :: "string \<Rightarrow> FileEntry list \<Rightarrow> int \<Rightarrow> TransferJob \<Rightarrow> bool" where
  "receiver p fl i j \<longleftrightarrow> job_id j = i \<and> job_type j = Generic \<and> data_source j = FilePath p \<and> files j = fl"

text \<open>File \<open>m\<close> is open at its \<open>.download\<close> entry, which holds the bytes \<open>got\<close>.\<close>

definition receiving :: "string \<Rightarrow> FileEntry list \<Rightarrow> nat \<Rightarrow> bytes \<Rightarrow> TransferJob \<Rightarrow> file_sys \<Rightarrow> bool" where
  "receiving p fl m got j fs \<longleftrightarrow>
     m < length fl \<and> file_num j = int m \<and> tidy (set (target_entries p fl)) fs \<and>
     (\<exists>h. data_stream j = Some (FileStream h) \<and> handle_on fs (path_key (download_path (target_path p fl m))) h
        \<and> h_write h \<and> h_pos h = length got) \<and>
     map_option content (key_file fs (path_key (download_path (target_path p fl m)))) = Some got"

text \<open>The entries other than those of file \<open>m\<close> are left alone.\<close>

definition others_same :: "string \<Rightarrow> FileEntry list \<Rightarrow> nat \<Rightarrow> file_sys \<Rightarrow> file_sys \<Rightarrow> bool" where
  "others_same p fl m fs fs' \<longleftrightarrow>
     (\<forall>k \<in> set (target_entries p fl). k \<notin> set (path_entries (target_path p fl m)) \<longrightarrow> key_file fs' k = key_file fs k)"

lemma others_same_trans: "\<lbrakk>others_same p fl m fs fs1; others_same p fl m fs1 fs2\<rbrakk> \<Longrightarrow> others_same p fl m fs fs2"
  by (simp add: others_same_def)

text \<open>Only the temporary entries of file \<open>m\<close> have changed.\<close>

definition temp_only :: "string \<Rightarrow> FileEntry list \<Rightarrow> nat \<Rightarrow> file_sys \<Rightarrow> file_sys \<Rightarrow> bool" where
  "temp_only p fl m fs fs' \<longleftrightarrow>
     (\<forall>k \<in> set (target_entries p fl). k \<noteq> path_key (download_path (target_path p fl m)) \<longrightarrow>
        k \<noteq> path_key (digest_path (target_path p fl m)) \<longrightarrow> key_file fs' k = key_file fs k)"

lemma temp_only_trans: "\<lbrakk>temp_only p fl m fs fs1; temp_only p fl m fs1 fs2\<rbrakk> \<Longrightarrow> temp_only p fl m fs fs2"
  by (simp add: temp_only_def)

lemma temp_only_others: "temp_only p fl m fs fs' \<Longrightarrow> others_same p fl m fs fs'"
  by (simp add: temp_only_def others_same_def path_entries_def)

lemma agrees_temp:
  "\<lbrakk>agrees (set (target_entries p fl)) k fs fs';
    k = path_key (download_path (target_path p fl m)) \<or> k = path_key (digest_path (target_path p fl m))\<rbrakk>
   \<Longrightarrow> temp_only p fl m fs fs'"
  unfolding temp_only_def agrees_def by metis

lemma agrees_others: "\<lbrakk>agrees (set (target_entries p fl)) k fs fs'; k \<in> set (path_entries (target_path p fl m))\<rbrakk> \<Longrightarrow> others_same p fl m fs fs'"
  unfolding others_same_def agrees_def by metis

lemma agrees2_others:
  "\<lbrakk>agrees2 (set (target_entries p fl)) k k2 fs fs'; k \<in> set (path_entries (target_path p fl m));
    k2 \<in> set (path_entries (target_path p fl m))\<rbrakk> \<Longrightarrow> others_same p fl m fs fs'"
  unfolding others_same_def agrees2_def by metis

lemma targets_okD:
  assumes "targets_ok p fl"
  shows "antichain (set (target_entries p fl))" "length fl < 2 ^ 31"
    "m < length fl \<Longrightarrow> target_ok (target_path p fl m)" "m < length fl \<Longrightarrow> modified_time (fl ! m) < 2 ^ 63"
  using assms by (auto simp: targets_ok_def target_path_def)

text \<open>Finishing a file: the download takes the place of the target, with the sender's time.\<close>

lemma modify_time_finishes:
  assumes "targets_ok p fl" "receiver p fl i j" "file_num j = int m" "m < length fl"
    "tidy (set (target_entries p fl)) fs"
  shows "tidy (set (target_entries p fl)) (modify_time j fs)" "others_same p fl m fs (modify_time j fs)"
    "key_file fs (path_key (download_path (target_path p fl m))) = Some f \<Longrightarrow>
       key_file (modify_time j fs) (path_key (target_path p fl m)) =
         Some (f\<lparr>mtime := int (modified_time (fl ! m)) * 10 ^ 9\<rparr>)"
    "key_file (modify_time j fs) (path_key (download_path (target_path p fl m))) = None"
    "key_file (modify_time j fs) (path_key (digest_path (target_path p fl m))) = None"
proof -
  let ?K = "set (target_entries p fl)" and ?path = "target_path p fl m"
  let ?f = "path_key ?path" and ?d = "path_key (download_path ?path)" and ?g = "path_key (digest_path ?path)"
  let ?t = "int (modified_time (fl ! m)) * 10 ^ 9"
  note anti = targets_okD(1) [OF assms(1)]
  note par = target_parents [OF targets_okD(3) [OF assms(1,4)]]
  note mem = target_entriesI [OF assms(4), of p]
  have pe: "?f \<in> set (path_entries ?path)" "?d \<in> set (path_entries ?path)" "?g \<in> set (path_entries ?path)"
    by (simp_all add: path_entries_def)
  have m: "m < 2 ^ 64" using targets_okD(2) [OF assms(1)] assms(4) by simp
  define fs1 where "fs1 = snd (fs_remove_file (digest_path ?path) fs)"
  define fs2 where "fs2 = snd (fs_rename (download_path ?path) ?path fs1)"
  have mt: "modify_time j fs = fs_set_mtime ?path ?t fs2"
    using assms(2,4) m targets_okD(4) [OF assms(1,4)]
    by (simp add: modify_time_def receiver_def assms(3) i32_as_usize_nat u64_as_i64_small Let_def
        fs1_def fs2_def target_path_def)
  have r1: "tidy ?K fs1" "key_file fs1 ?g = None" "agrees ?K ?g fs fs1"
    using remove_file_tidy [OF assms(5) anti mem(3)] by (metis fs1_def prod.collapse)+
  have d1: "key_file fs1 ?d = key_file fs ?d" using agreesD [OF r1(3) mem(2)] par by simp
  have r2: "tidy ?K fs2 \<and> others_same p fl m fs1 fs2 \<and> key_file fs2 ?d = None \<and> key_file fs2 ?g = None \<and>
      (\<forall>f. key_file fs ?d = Some f \<longrightarrow> key_file fs2 ?f = Some f)"
  proof (cases "key_file fs1 ?d")
    case None
    then have "fs2 = fs1" using rename_absent [OF r1(1) mem(2)] by (simp add: fs2_def)
    with r1 None d1 show ?thesis by (simp add: others_same_def)
  next
    case (Some f)
    have "node_of fs1 ?d \<noteq> None" using Some key_file_simps(1) [of fs1 ?d] by auto
    then have "is_directory fs1 (key_parent ?f)"
      using tidy_parent [OF r1(1) mem(2)] par by simp
    from rename_tidy [OF r1(1) anti mem(2,1) par(4) [symmetric] this Some]
    obtain fs' where "fs_rename (download_path ?path) ?path fs1 = (Inr (), fs')" "tidy ?K fs'"
      "agrees2 ?K ?d ?f fs1 fs'" "key_file fs' ?d = None" "key_file fs' ?f = Some f" .
    moreover from this have "key_file fs' ?g = key_file fs1 ?g" using mem(3) par by (simp add: agrees2_def)
    ultimately show ?thesis using Some d1 r1(2) agrees2_others pe by (simp add: fs2_def)
  qed
  note r3 = set_mtime_tidy [OF r2 [THEN conjunct1] anti mem(1), of ?t]
  show "tidy ?K (modify_time j fs)" unfolding mt by (rule r3)
  show "others_same p fl m fs (modify_time j fs)"
    unfolding mt using agrees_others [OF r1(3) pe(3)] r2 agrees_others [OF r3(2) pe(1)] others_same_trans by metis
  show "key_file (modify_time j fs) ?d = None" "key_file (modify_time j fs) ?g = None"
    unfolding mt using agreesD [OF r3(2) mem(2)] agreesD [OF r3(2) mem(3)] r2 par by simp_all
  assume "key_file fs ?d = Some f"
  with r2 have "key_file fs2 ?f = Some f" by blast
  then show "key_file (modify_time j fs) ?f = Some (f\<lparr>mtime := ?t\<rparr>)" unfolding mt r3(4) by simp
qed

lemma splice_append: "splice (length c) data c = c @ data"
  by (simp add: splice_def)

lemma create_tidy:
  assumes "tidy K fs" "antichain K" "path_key q \<in> K" "is_directory fs (key_parent (path_key q))"
  obtains i fs' where "file_create q fs = (Inr \<lparr>h_ino = Some i, h_pos = 0, h_read = False, h_write = True\<rparr>, fs')"
    "tidy K fs'" "agrees K (path_key q) fs fs'" "node_of fs' (path_key q) = Some (RegFile i)"
    "map_option content (key_file fs' (path_key q)) = Some []"
  by (rule open_write_tidy [OF assms, of True], rule that) (simp_all only: file_create_def if_True)

lemma fs_write_tidy:
  assumes "tidy K fs" "antichain K" "path_key q \<in> K" "is_directory fs (key_parent (path_key q))"
  shows "tidy K (snd (fs_write q data fs))" "agrees K (path_key q) fs (snd (fs_write q data fs))"
proof -
  from create_tidy [OF assms]
  obtain i fs1 where fs1: "file_create q fs = (Inr \<lparr>h_ino = Some i, h_pos = 0, h_read = False, h_write = True\<rparr>, fs1)"
    "tidy K fs1" "agrees K (path_key q) fs fs1" "node_of fs1 (path_key q) = Some (RegFile i)"
    "map_option content (key_file fs1 (path_key q)) = Some []" .
  have h: "handle_on fs1 (path_key q) \<lparr>h_ino = Some i, h_pos = 0, h_read = False, h_write = True\<rparr>"
    using fs1(4) by (simp add: handle_on_def)
  from write_all_tidy [OF fs1(2) assms(2,3) h _ fs1(5), of data]
  obtain fs2 where "file_write_all data \<lparr>h_ino = Some i, h_pos = 0, h_read = False, h_write = True\<rparr> fs1
      = (Inr \<lparr>h_ino = Some i, h_pos = length data, h_read = False, h_write = True\<rparr>, fs2)"
    "tidy K fs2" "agrees K (path_key q) fs1 fs2" by auto
  then show "tidy K (snd (fs_write q data fs))" "agrees K (path_key q) fs (snd (fs_write q data fs))"
    using fs1(1,3) agrees_trans by (auto simp: fs_write_def)
qed

lemma temp_onlyI: "(\<And>k. k \<in> set (target_entries p fl) \<Longrightarrow> key_file fs' k = key_file fs k) \<Longrightarrow> temp_only p fl m fs fs'"
  by (simp add: temp_only_def)

text \<open>The first block of a file opens a fresh \<open>.download\<close> entry.\<close>

lemma write_open_first:
  assumes "targets_ok p fl" "receiver p fl i j" "tidy (set (target_entries p fl)) fs"
    "m < length fl" "blk_file_num b = int m" "file_num j = int m0" "m0 < length fl" "m0 \<noteq> m \<or> data_stream j = None"
  shows "\<exists>j' fs'. write_open x b j fs = (Inr (), j', fs') \<and> receiver p fl i j' \<and> receiving p fl m [] j' fs'
     \<and> temp_only p fl m (modify_time j fs) fs'"
proof -
  let ?K = "set (target_entries p fl)" and ?path = "target_path p fl m"
  let ?f = "path_key ?path" and ?d = "path_key (download_path ?path)" and ?g = "path_key (digest_path ?path)"
  note anti = targets_okD(1) [OF assms(1)]
  note tgt = targets_okD(3) [OF assms(1,4)]
  note par = target_parents [OF tgt]
  note mem = target_entriesI [OF assms(4), of p]
  have small: "m < 2 ^ 64" "m0 < 2 ^ 64" using targets_okD(2) [OF assms(1)] assms(4,7) by simp_all
  define fs1 where "fs1 = modify_time j fs"
  have t1: "tidy ?K fs1"
    unfolding fs1_def by (rule modify_time_finishes(1) [OF assms(1,2,6,7,3)])
  obtain c pp where c: "?f = (fst (parent_key ?path), snd (parent_key ?path) @ [c])"
    "path_parent ?path = Some pp" "path_key pp = parent_key ?path"
    using target_keys [OF tgt] by metis
  have cK: "(fst (path_key pp), snd (path_key pp) @ [c]) \<in> ?K" using c mem(1) by simp
  obtain fs2 where fs2: "fs_create_dir_all pp fs1 = (Inr (), fs2)" "tidy ?K fs2" "is_directory fs2 (path_key pp)"
    "\<And>k. k \<in> ?K \<Longrightarrow> node_of fs2 k = node_of fs1 k \<and> key_file fs2 k = key_file fs1 k" "clock fs2 = clock fs1"
    by (rule create_dir_all_tidy [OF t1 anti cK]) blast
  have dirs: "parent_key ?path \<noteq> k" if "k \<in> ?K" for k
    using above_parent [OF tidyD(1) [OF t1 mem(2)]] anti mem(2) that par(2) by (auto simp: antichain_def)
  define fs3 where "fs3 = (if fs_exists fs2 (digest_path ?path) then snd (fs_remove_file (digest_path ?path) fs2) else fs2)"
  obtain r fs2' where rm: "fs_remove_file (digest_path ?path) fs2 = (r, fs2')" by (cases "fs_remove_file (digest_path ?path) fs2")
  note rm' = remove_file_tidy [OF fs2(2) anti mem(3) rm]
  have ex: "fs_exists fs2 (digest_path ?path) \<Longrightarrow> r = Inr ()"
    using rm'(4) tidy_exists [OF fs2(2) mem(3)] by simp
  have t3: "tidy ?K fs3" "agrees ?K ?g fs2 fs3" using rm' fs2(2) rm by (simp_all add: fs3_def)
  have dir3: "is_directory fs3 (parent_key ?path)"
    using fs2(3) c(3) tidyD(1) [OF t1 mem(3)] dirs [OF mem(3)] rm
    by (auto simp: fs3_def is_directory_def fs_remove_file_def Let_def split: if_splits option.splits node.splits)
  obtain ino fs4 where fs4: "file_create (download_path ?path) fs3 = (Inr \<lparr>h_ino = Some ino, h_pos = 0, h_read = False, h_write = True\<rparr>, fs4)"
    "tidy ?K fs4" "agrees ?K ?d fs3 fs4" "node_of fs4 ?d = Some (RegFile ino)" "map_option content (key_file fs4 ?d) = Some []"
    using create_tidy [OF t3(1) anti mem(2)] dir3 unfolding par(2) by blast
  have dir4: "is_directory fs4 (key_parent ?g)"
    using tidy_parent [OF fs4(2) mem(2)] fs4(4) par by simp
  define fs5 where "fs5 = snd (fs_write (digest_path ?path) (digest_to_json x (digest j)) fs4)"
  note w = fs_write_tidy [OF fs4(2) anti mem(3) dir4, of "digest_to_json x (digest j)", folded fs5_def]
  let ?h = "\<lparr>h_ino = Some ino, h_pos = 0, h_read = False, h_write = True\<rparr>"
  let ?j = "j\<lparr>file_num := int m, data_stream := Some (FileStream ?h)\<rparr>"
  have "write_open x b j fs = (Inr (), ?j, fs5)"
    using assms(2,4,5,6,8) small ex rm c(2) fs2(1) fs4(1)
    by (auto simp: write_open_def receiver_def i32_as_usize_nat Let_def target_path_def [symmetric]
        fs1_def [symmetric] fs3_def fs5_def split: if_splits)
  moreover have "receiver p fl i ?j" using assms(2) by (simp add: receiver_def)
  moreover have "receiving p fl m [] ?j fs5"
  proof -
    have "key_file fs5 ?d = key_file fs4 ?d" "node_of fs5 ?d = node_of fs4 ?d"
      using agreesD [OF w(2) mem(2)] par by simp_all
    with fs4 w(1) assms(4) show ?thesis by (simp add: receiving_def handle_on_def)
  qed
  moreover have "temp_only p fl m fs1 fs5"
    using temp_onlyI [of p fl fs2 fs1 m] fs2(4) agrees_temp [OF t3(2)] agrees_temp [OF fs4(3)] agrees_temp [OF w(2)] temp_only_trans by metis
  ultimately show ?thesis unfolding fs1_def by blast
qed

text \<open>Every block is appended to the open file.\<close>

lemma write_data_appends:
  assumes "targets_ok p fl" "receiver p fl i j" "receiving p fl m got j fs"
  shows "\<exists>j' fs'. write_data x b j fs = (Inr (), j', fs') \<and> receiver p fl i j'
     \<and> receiving p fl m (got @ payload x b) j' fs' \<and> temp_only p fl m fs fs'"
proof -
  let ?K = "set (target_entries p fl)" and ?d = "path_key (download_path (target_path p fl m))"
  note anti = targets_okD(1) [OF assms(1)]
  have m: "m < length fl" and t: "tidy ?K fs" and fn: "file_num j = int m"
    and c: "map_option content (key_file fs ?d) = Some got"
    using assms(3) by (simp_all add: receiving_def)
  from assms(3) obtain h where h: "data_stream j = Some (FileStream h)" "handle_on fs ?d h" "h_write h" "h_pos h = length got"
    by (auto simp: receiving_def)
  note mem = target_entriesI [OF m, of p]
  from write_all_tidy [OF t anti mem(2) h(2,3) c, of "payload x b"]
  obtain fs' where fs': "file_write_all (payload x b) h fs = (Inr (h\<lparr>h_pos := h_pos h + length (payload x b)\<rparr>), fs')"
    "tidy ?K fs'" "agrees ?K ?d fs fs'" "handle_on fs' ?d h"
    "map_option content (key_file fs' ?d) = Some (if payload x b = [] then got else splice (h_pos h) (payload x b) got)" .
  have c': "map_option content (key_file fs' ?d) = Some (got @ payload x b)"
    using fs'(5) h(4) by (auto simp: splice_append split: if_splits)
  let ?j = "j\<lparr>data_stream := Some (FileStream (h\<lparr>h_pos := h_pos h + length (payload x b)\<rparr>)),
     finished_size := add_u64 (finished_size j) (length (payload x b)),
     transferred := add_u64 (transferred j) (length (blk_data b))\<rparr>"
  have "write_data x b j fs = (Inr (), ?j, fs')"
    using h(1) fs'(1) by (simp add: write_data_def stream_write_all_def payload_def [symmetric] Let_def)
  moreover have "receiver p fl i ?j" using assms(2) by (simp add: receiver_def)
  moreover have "receiving p fl m (got @ payload x b) ?j fs'"
    unfolding receiving_def using m fn fs'(2) fs'(4) h(3,4) c' by (simp add: handle_on_def)
  moreover have "temp_only p fl m fs fs'"
    using agrees_temp [OF fs'(3)] by blast
  ultimately show ?thesis by blast
qed

section \<open>Receiving a whole job\<close>

fun write_blocks :: "ext_funs \<Rightarrow> FileTransferBlock list \<Rightarrow> TransferJob \<Rightarrow> file_sys \<Rightarrow> (transfer_err + unit) \<times> TransferJob \<times> file_sys" where
  "write_blocks x [] j fs = (Inr (), j, fs)"
| "write_blocks x (b # bs) j fs =
     (case write_block x b j fs of
        (Inl e, j, fs) \<Rightarrow> (Inl e, j, fs)
      | (Inr _, j, fs) \<Rightarrow> write_blocks x bs j fs)"

lemma write_blocks_append:
  "write_blocks x as j fs = (Inr (), j1, fs1) \<Longrightarrow> write_blocks x (as @ bs) j fs = write_blocks x bs j1 fs1"
  by (induction as arbitrary: j fs) (auto split: sum.splits prod.splits)

lemma write_block_continues:
  assumes "targets_ok p fl" "receiver p fl i j" "receiving p fl m got j fs" "blk_id b = i" "blk_file_num b = int m"
  shows "\<exists>j' fs'. write_block x b j fs = (Inr (), j', fs') \<and> receiver p fl i j'
     \<and> receiving p fl m (got @ payload x b) j' fs' \<and> temp_only p fl m fs fs'"
proof -
  have m: "m < length fl" "file_num j = int m" "data_stream j \<noteq> None" using assms(3) by (auto simp: receiving_def)
  moreover have "m < 2 ^ 64" using m(1) targets_okD(2) [OF assms(1)] by simp
  ultimately have "write_open x b j fs = (Inr (), j, fs)"
    using assms(2,5) by (auto simp: write_open_def receiver_def i32_as_usize_nat Let_def)
  then show ?thesis
    using write_data_appends [OF assms(1-3), of x b] assms(2,4) by (simp add: write_block_def receiver_def)
qed

lemma write_block_first:
  assumes "targets_ok p fl" "receiver p fl i j" "tidy (set (target_entries p fl)) fs"
    "m < length fl" "blk_id b = i" "blk_file_num b = int m" "file_num j = int m0" "m0 < length fl"
    "m0 \<noteq> m \<or> data_stream j = None"
  shows "\<exists>j' fs'. write_block x b j fs = (Inr (), j', fs') \<and> receiver p fl i j'
     \<and> receiving p fl m (payload x b) j' fs' \<and> temp_only p fl m (modify_time j fs) fs'"
proof -
  obtain j1 fs1 where 1: "write_open x b j fs = (Inr (), j1, fs1)" "receiver p fl i j1" "receiving p fl m [] j1 fs1"
    "temp_only p fl m (modify_time j fs) fs1"
    using write_open_first [OF assms(1-4,6-9)] by blast
  obtain j2 fs2 where "write_data x b j1 fs1 = (Inr (), j2, fs2)" "receiver p fl i j2"
    "receiving p fl m (payload x b) j2 fs2" "temp_only p fl m fs1 fs2"
    using write_data_appends [OF assms(1) 1(2,3), of x b] by auto
  with 1 assms(2,5) show ?thesis using temp_only_trans by (fastforce simp: write_block_def receiver_def)
qed

lemma write_blocks_continue:
  assumes "targets_ok p fl" "receiver p fl i j" "receiving p fl m got j fs"
    "\<forall>b \<in> set bs. blk_id b = i \<and> blk_file_num b = int m"
  shows "\<exists>j' fs'. write_blocks x bs j fs = (Inr (), j', fs') \<and> receiver p fl i j'
     \<and> receiving p fl m (got @ concat (map (payload x) bs)) j' fs' \<and> temp_only p fl m fs fs'"
  using assms(2-4)
proof (induction bs arbitrary: j fs got)
  case Nil
  then show ?case by (simp add: temp_only_def)
next
  case (Cons b bs)
  obtain j1 fs1 where 1: "write_block x b j fs = (Inr (), j1, fs1)" "receiver p fl i j1"
    "receiving p fl m (got @ payload x b) j1 fs1" "temp_only p fl m fs fs1"
    using write_block_continues [OF assms(1) Cons.prems(1,2), of b x] Cons.prems(3) by auto
  with Cons.IH [OF 1(2,3)] Cons.prems(3) show ?case using temp_only_trans by (fastforce simp del: append_assoc simp: append_assoc [symmetric])
qed

lemma write_blocks_file:
  assumes "targets_ok p fl" "receiver p fl i j" "tidy (set (target_entries p fl)) fs"
    "m < length fl" "file_num j = int m0" "m0 < length fl" "m0 \<noteq> m \<or> data_stream j = None"
    "bs \<noteq> []" "\<forall>b \<in> set bs. blk_id b = i \<and> blk_file_num b = int m"
  shows "\<exists>j' fs'. write_blocks x bs j fs = (Inr (), j', fs') \<and> receiver p fl i j'
     \<and> receiving p fl m (concat (map (payload x) bs)) j' fs' \<and> temp_only p fl m (modify_time j fs) fs'"
proof -
  obtain b rest where bs: "bs = b # rest" using assms(8) by (cases bs) auto
  obtain j1 fs1 where 1: "write_block x b j fs = (Inr (), j1, fs1)" "receiver p fl i j1"
    "receiving p fl m (payload x b) j1 fs1" "temp_only p fl m (modify_time j fs) fs1"
    using write_block_first [OF assms(1-4) _ _ assms(5-7), of b x] assms(9) bs by auto
  with write_blocks_continue [OF assms(1) 1(2,3), of rest x] assms(9) bs temp_only_trans
  show ?thesis by fastforce
qed

text \<open>A file has arrived: its contents and time are in place and its temporary files are gone.\<close>

definition arrived :: "string \<Rightarrow> FileEntry list \<Rightarrow> nat \<Rightarrow> bytes \<Rightarrow> file_sys \<Rightarrow> bool" where
  "arrived p fl m c fs \<longleftrightarrow>
     key_file fs (path_key (target_path p fl m)) = Some \<lparr>content = c, mtime = int (modified_time (fl ! m)) * 10 ^ 9\<rparr> \<and>
     key_file fs (path_key (download_path (target_path p fl m))) = None \<and>
     key_file fs (path_key (digest_path (target_path p fl m))) = None"

lemma arrived_others:
  assumes "targets_ok p fl" "others_same p fl n fs fs'" "m < length fl" "n < length fl" "m \<noteq> n" "arrived p fl m c fs"
  shows "arrived p fl m c fs'"
proof -
  have "k \<notin> set (path_entries (target_path p fl n))" if "k \<in> set (path_entries (target_path p fl m))" for k
    using target_entries_distinct [OF assms(1,3,4,5)] that by blast
  then have "key_file fs' k = key_file fs k" if "k \<in> set (path_entries (target_path p fl m))" "k \<in> set (target_entries p fl)" for k
    using that assms(2) unfolding others_same_def by blast
  then show ?thesis
    using assms(6) target_entriesI [OF assms(3), of p] by (simp add: arrived_def path_entries_def)
qed

lemma modify_time_arrived:
  assumes "targets_ok p fl" "receiver p fl i j" "receiving p fl m c j fs"
  shows "tidy (set (target_entries p fl)) (modify_time j fs)" "arrived p fl m c (modify_time j fs)"
    "others_same p fl m fs (modify_time j fs)"
proof -
  let ?d = "path_key (download_path (target_path p fl m))"
  have m: "file_num j = int m" "m < length fl" "tidy (set (target_entries p fl)) fs"
    "map_option content (key_file fs ?d) = Some c"
    using assms(3) by (simp_all add: receiving_def)
  then obtain f where f: "key_file fs ?d = Some f" "content f = c" by auto
  note mt = modify_time_finishes [OF assms(1,2) m(1-3)]
  show "tidy (set (target_entries p fl)) (modify_time j fs)" "others_same p fl m fs (modify_time j fs)"
    by (rule mt)+
  have "f\<lparr>mtime := t\<rparr> = \<lparr>content = c, mtime = t\<rparr>" for t using f(2) by (cases f) simp
  then show "arrived p fl m c (modify_time j fs)"
    using mt(3) [OF f(1)] mt(4,5) by (simp add: arrived_def)
qed

lemma write_blocks_prefix:
  assumes "targets_ok p fl" "receiver p fl i j" "tidy (set (target_entries p fl)) fs"
    "file_num j = 0" "data_stream j = None" "length bss = length fl"
    "\<And>m. m < length fl \<Longrightarrow> bss ! m \<noteq> [] \<and> (\<forall>b \<in> set (bss ! m). blk_id b = i \<and> blk_file_num b = int m)"
    "m < length fl"
  shows "\<exists>j' fs'. write_blocks x (concat (take (Suc m) bss)) j fs = (Inr (), j', fs') \<and> receiver p fl i j'
     \<and> receiving p fl m (concat (map (payload x) (bss ! m))) j' fs'
     \<and> (\<forall>n < m. arrived p fl n (concat (map (payload x) (bss ! n))) fs')"
  using assms(8)
proof (induction m)
  case 0
  have "take (Suc 0) bss = [bss ! 0]" using 0 assms(6) by (cases bss) simp_all
  with write_blocks_file [OF assms(1-3) 0 _ 0, of "bss ! 0" x] assms(4,5,7) 0 show ?case by force
next
  case (Suc m)
  let ?c = "\<lambda>n. concat (map (payload x) (bss ! n))"
  obtain j1 fs1 where 1: "write_blocks x (concat (take (Suc m) bss)) j fs = (Inr (), j1, fs1)" "receiver p fl i j1"
    "receiving p fl m (?c m) j1 fs1" "\<forall>n < m. arrived p fl n (?c n) fs1"
    using Suc by auto
  have fn: "file_num j1 = int m" "m < length fl" "tidy (set (target_entries p fl)) fs1"
    using 1(3) by (simp_all add: receiving_def)
  note mt = modify_time_arrived [OF assms(1) 1(2,3)]
  obtain j2 fs2 where 2: "write_blocks x (bss ! Suc m) j1 fs1 = (Inr (), j2, fs2)" "receiver p fl i j2"
    "receiving p fl (Suc m) (?c (Suc m)) j2 fs2" "temp_only p fl (Suc m) (modify_time j1 fs1) fs2"
    using write_blocks_file [OF assms(1) 1(2) fn(3) Suc.prems fn(1,2), of "bss ! Suc m" x] assms(7) [OF Suc.prems] by auto
  have "arrived p fl n (?c n) fs2" if "n < Suc m" for n
  proof -
    have "arrived p fl n (?c n) (modify_time j1 fs1)"
    proof (cases "n = m")
      case True
      then show ?thesis using mt(2) by simp
    next
      case False
      then show ?thesis
        using arrived_others [OF assms(1) mt(3), of n] 1(4) that fn(2) by simp
    qed
    then show ?thesis using arrived_others [OF assms(1) temp_only_others [OF 2(4)], of n] that Suc.prems by simp
  qed
  moreover have "concat (take (Suc (Suc m)) bss) = concat (take (Suc m) bss) @ bss ! Suc m"
    using Suc.prems assms(6) by (simp add: take_Suc_conv_app_nth)
  ultimately show ?case using write_blocks_append [OF 1(1)] 2 by auto
qed

lemma write_blocks_job:
  assumes "targets_ok p fl" "receiver p fl i j" "tidy (set (target_entries p fl)) fs"
    "file_num j = 0" "data_stream j = None" "length bss = length fl" "fl \<noteq> []"
    "\<And>m. m < length fl \<Longrightarrow> bss ! m \<noteq> [] \<and> (\<forall>b \<in> set (bss ! m). blk_id b = i \<and> blk_file_num b = int m)"
  shows "\<exists>j' fs'. write_blocks x (concat bss) j fs = (Inr (), j', fs') \<and>
     (\<forall>m < length fl. arrived p fl m (concat (map (payload x) (bss ! m))) (modify_time j' fs'))"
proof -
  let ?c = "\<lambda>n. concat (map (payload x) (bss ! n))"
  let ?m = "length fl - 1"
  have m: "?m < length fl" "Suc ?m = length fl" using assms(7) by (cases fl; simp)+
  from write_blocks_prefix [OF assms(1-6) assms(8) m(1), of x]
  obtain j1 fs1 where 1: "write_blocks x (concat bss) j fs = (Inr (), j1, fs1)" "receiver p fl i j1"
    "receiving p fl ?m (?c ?m) j1 fs1" "\<forall>n < ?m. arrived p fl n (?c n) fs1"
    using m(2) assms(6) by auto
  note mt = modify_time_arrived [OF assms(1) 1(2,3)]
  have "arrived p fl n (?c n) (modify_time j1 fs1)" if "n < length fl" for n
  proof (cases "n = ?m")
    case True
    then show ?thesis using mt(2) by simp
  next
    case False
    then show ?thesis using arrived_others [OF assms(1) mt(3) that m(1)] 1(4) that by simp
  qed
  with 1(1) show ?thesis by blast
qed

section \<open>Sending a file\<close>

definition read_handle :: "nat \<Rightarrow> nat \<Rightarrow> file_handle" where
  "read_handle i pos = \<lparr>h_ino = Some i, h_pos = pos, h_read = True, h_write = False\<rparr>"

text \<open>However the system slices the reads, the loop fills the buffer or reaches the end.\<close>

lemma read_fill_file:
  assumes "\<And>k. 0 < limits k" "length buf < BUF_SIZE"
  shows "read_fill limits k fs buf (FileStream (read_handle i pos)) =
     (let d = take (BUF_SIZE - length buf) (drop pos (ino_content fs i))
      in Inr (buf @ d, FileStream (read_handle i (pos + length d))))"
  using assms(2)
proof (induction "BUF_SIZE - length buf" arbitrary: buf pos k rule: less_induct)
  case less
  let ?c = "ino_content fs i" and ?n = "BUF_SIZE - length buf"
  define d where "d = take (min (limits k) ?n) (drop pos ?c)"
  have dn: "length d \<le> ?n" and dt: "take (length d) (drop pos ?c) = d"
    by (auto simp: d_def min_def)
  have read: "stream_read (limits k) ?n (FileStream (read_handle i pos)) fs =
      Inr (d, FileStream (read_handle i (pos + length d)))"
    by (simp add: stream_read_def file_read_def read_handle_def Let_def d_def)
  show ?case
  proof (cases "drop pos ?c = []")
    case True
    then have "d = []" "take ?n (drop pos ?c) = []" unfolding d_def by (simp_all only: take_Nil)
    then show ?thesis unfolding Let_def by (subst read_fill.simps) (simp only: read, simp)
  next
    case False
    then have d: "d \<noteq> []" unfolding d_def using assms(1) [of k] less.prems by simp
    show ?thesis
    proof (cases "length buf + length d = BUF_SIZE")
      case True
      then have "take ?n (drop pos ?c) = d" using dt by (metis diff_add_inverse)
      then show ?thesis unfolding Let_def by (subst read_fill.simps) (simp only: read, simp add: True)
    next
      case more: False
      then have lt: "length (buf @ d) < BUF_SIZE" using dn less.prems by simp
      have "BUF_SIZE - length (buf @ d) < BUF_SIZE - length buf"
        using d less.prems by (simp flip: length_greater_0_conv)
      from less.hyps [OF this lt, of "Suc k" "pos + length d"]
      have IH: "read_fill limits (Suc k) fs (buf @ d) (FileStream (read_handle i (pos + length d))) =
        (let d' = take (BUF_SIZE - length (buf @ d)) (drop (pos + length d) ?c)
         in Inr ((buf @ d) @ d', FileStream (read_handle i (pos + length d + length d'))))" .
      have split: "take ?n (drop pos ?c) = d @ take (BUF_SIZE - length (buf @ d)) (drop (pos + length d) ?c)"
      proof -
        have "take (length d + (?n - length d)) (drop pos ?c) = d @ take (?n - length d) (drop (pos + length d) ?c)"
          unfolding take_add dt by (simp add: add.commute)
        moreover have "length d + (?n - length d) = ?n" using dn by simp
        ultimately show ?thesis by (simp add: diff_diff_eq)
      qed
      show ?thesis
        unfolding split Let_def
        by (subst read_fill.simps) (simp only: read, use d more IH in \<open>simp add: Let_def add.assoc\<close>)
    qed
  qed
qed

text \<open>The blocks of a file: its contents in pieces of the buffer size, and an empty block.\<close>

function chunks :: "bytes \<Rightarrow> bytes list" where
  "chunks c = (if c = [] then [] else take BUF_SIZE c # chunks (drop BUF_SIZE c))"
  by pat_completeness auto
termination
  by (relation "measure length") (auto simp: BUF_SIZE_def)

declare chunks.simps [simp del]

lemma chunks_Nil [simp]: "chunks [] = []"
  by (subst chunks.simps) simp

lemma chunks_nonempty: "c \<noteq> [] \<Longrightarrow> chunks c = take BUF_SIZE c # chunks (drop BUF_SIZE c)"
  by (subst chunks.simps) simp

lemma concat_chunks: "concat (chunks c) = c"
  by (induction c rule: chunks.induct) (subst chunks.simps, simp)

lemma chunk_not_Nil: "d \<in> set (chunks c) \<Longrightarrow> d \<noteq> []"
  by (induction c rule: chunks.induct) (subst (asm) (2) chunks.simps, auto simp: BUF_SIZE_def split: if_splits)

definition data_block :: "ext_funs \<Rightarrow> string \<Rightarrow> int \<Rightarrow> nat \<Rightarrow> bytes \<Rightarrow> FileTransferBlock" where
  "data_block x name i m d =
     (let tmp = compress x d; z = (\<not> is_compressed_file name \<and> length tmp < length d)
      in \<lparr>blk_id = i, blk_file_num = int m, blk_data = (if z then tmp else d), blk_compressed = z\<rparr>)"

definition end_block :: "int \<Rightarrow> nat \<Rightarrow> FileTransferBlock" where
  "end_block i m = \<lparr>blk_id = i, blk_file_num = int m, blk_data = [], blk_compressed = False\<rparr>"

definition file_blocks :: "ext_funs \<Rightarrow> string \<Rightarrow> int \<Rightarrow> nat \<Rightarrow> bytes \<Rightarrow> FileTransferBlock list" where
  "file_blocks x name i m c = map (data_block x name i m) (chunks c) @ [end_block i m]"

text \<open>What the transfer relies on of zstd: compressing succeeds and is undone by decoding.\<close>

definition zstd_ok :: "ext_funs \<Rightarrow> bool" where
  "zstd_ok x \<longleftrightarrow> (\<forall>d. \<exists>r. zstd_compress x d = Some r \<and> zstd_decode_all x r = Some d)"

lemma payload_data_block: "zstd_ok x \<Longrightarrow> payload x (data_block x name i m d) = d"
proof -
  assume "zstd_ok x"
  then obtain r where "zstd_compress x d = Some r" "zstd_decode_all x r = Some d" by (auto simp: zstd_ok_def)
  then show ?thesis by (simp add: payload_def data_block_def compress_def decompress_def Let_def)
qed

lemma payload_file_blocks: "zstd_ok x \<Longrightarrow> concat (map (payload x) (file_blocks x name i m c)) = c"
proof -
  assume "zstd_ok x"
  then have "map (payload x \<circ> data_block x name i m) (chunks c) = chunks c"
    by (simp add: payload_data_block comp_def)
  then show ?thesis by (simp add: file_blocks_def concat_chunks) (simp add: payload_def end_block_def)
qed

lemma file_blocks_ids: "\<forall>b \<in> set (file_blocks x name i m c). blk_id b = i \<and> blk_file_num b = int m"
  by (auto simp: file_blocks_def data_block_def end_block_def Let_def)

text \<open>The state of a sending job that detects no overwriting.\<close>

definition sender :: "string \<Rightarrow> FileEntry list \<Rightarrow> int \<Rightarrow> TransferJob \<Rightarrow> bool" where
  "sender p fl i j \<longleftrightarrow> job_id j = i \<and> job_type j = Generic \<and> data_source j = FilePath p \<and> files j = fl
     \<and> \<not> enable_overwrite_detection j \<and> \<not> is_last_job j \<and> \<not> file_skipped j"

definition sending :: "nat \<Rightarrow> nat option \<Rightarrow> TransferJob \<Rightarrow> nat \<Rightarrow> bool" where
  "sending m pos j ino \<longleftrightarrow> file_num j = int m \<and>
     (case pos of None \<Rightarrow> data_stream j = None | Some n \<Rightarrow> data_stream j = Some (FileStream (read_handle ino n)))"

definition readable :: "file_sys \<Rightarrow> string \<Rightarrow> nat \<Rightarrow> bytes \<Rightarrow> bool" where
  "readable fs path ino c \<longleftrightarrow> file_open path fs = Inr (read_handle ino 0) \<and> ino_content fs ino = c"

abbreviation pos_of :: "nat option \<Rightarrow> nat" where
  "pos_of pos \<equiv> (case pos of None \<Rightarrow> 0 | Some n \<Rightarrow> n)"

lemma init_sender:
  assumes "sender p fl i j" "sending m pos j ino" "m < length fl" "length fl < 2 ^ 31" "readable fs (target_path p fl m) ino c"
  shows "\<exists>j'. init_data_stream j fs s = (Inr (), j', s) \<and> sender p fl i j' \<and> sending m (Some (pos_of pos)) j' ino"
proof -
  have m: "m < 2 ^ 64" using assms(3,4) by simp
  show ?thesis
    using assms m
    by (cases pos) (auto simp: init_data_stream_def open_data_stream_def sender_def sending_def readable_def needs_digest_def
        target_path_def i32_as_usize_nat Let_def)
qed

lemma read_block_sender:
  assumes "sender p fl i j" "sending m (Some pos) j ino" "m < length fl" "length fl < 2 ^ 31" "ino_content fs ino = c"
    "\<And>k. 0 < limits k"
  defines "d \<equiv> take BUF_SIZE (drop pos c)"
  shows "\<exists>j'. read_block x limits j fs =
      (Inr (Some (if d = [] then end_block i m else data_block x (read_name p fl m) i m d)), j') \<and> sender p fl i j' \<and>
      (if d = [] then sending (Suc m) None j' ino' else sending m (Some (pos + length d)) j' ino)"
proof -
  have m: "m < 2 ^ 64" "m < 2 ^ 31" "Suc m < 2 ^ 31" using assms(3,4) by simp_all
  have "read_fill limits 0 fs [] (FileStream (read_handle ino pos)) = Inr (d, FileStream (read_handle ino (pos + length d)))"
    using read_fill_file [OF assms(6), of "[]"] assms(5) by (simp add: BUF_SIZE_def Let_def d_def)
  then show ?thesis
    using assms(1-3) m
    by (auto simp: read_block_def sender_def sending_def next_file_def i32_as_usize_nat usize_as_i32_small add_i32_Suc
        Let_def data_block_def end_block_def)
qed

text \<open>Rounds of \<open>handle_read_jobs\<close>, each with the slicing of its reads.\<close>

fun read_rounds :: "ext_funs \<Rightarrow> (nat \<Rightarrow> nat) list \<Rightarrow> TransferJob list \<Rightarrow> file_sys \<Rightarrow> net \<Rightarrow> (transfer_err + unit) \<times> TransferJob list \<times> net" where
  "read_rounds x [] js fs s = (Inr (), js, s)"
| "read_rounds x (l # ls) js fs s =
     (case handle_read_jobs x l js fs s of
        (Inl e, js, s) \<Rightarrow> (Inl e, js, s)
      | (Inr _, js, s) \<Rightarrow> read_rounds x ls js fs s)"

definition connected :: "net \<Rightarrow> bool" where
  "connected s \<longleftrightarrow> breaks_after s = None"

lemma net_send_connected: "connected s \<Longrightarrow> net_send m s = (Inr (), s\<lparr>sent := sent s @ [m]\<rparr>)"
  by (simp add: connected_def net_send_def)

lemma connected_sent [simp]: "connected (s\<lparr>sent := ms\<rparr>) = connected s"
  by (simp add: connected_def)

lemma round_sender:
  assumes "sender p fl i j" "sending m pos j ino" "m < length fl" "length fl < 2 ^ 31"
    "readable fs (target_path p fl m) ino c" "\<And>k. 0 < l k" "connected s"
  defines "d \<equiv> take BUF_SIZE (drop (pos_of pos) c)"
  shows "\<exists>j'. handle_read_jobs x l [j] fs s =
      (Inr (), [j'], s\<lparr>sent := sent s @ [new_block (if d = [] then end_block i m else data_block x (read_name p fl m) i m d)]\<rparr>) \<and>
      sender p fl i j' \<and> (if d = [] then sending (Suc m) None j' ino' else sending m (Some (pos_of pos + length d)) j' ino)"
proof -
  obtain j1 where 1: "init_data_stream j fs s = (Inr (), j1, s)" "sender p fl i j1" "sending m (Some (pos_of pos)) j1 ino"
    using init_sender [OF assms(1-5)] by blast
  have c: "ino_content fs ino = c" using assms(5) by (simp add: readable_def)
  obtain j2 where 2: "read_block x l j1 fs =
      (Inr (Some (if d = [] then end_block i m else data_block x (read_name p fl m) i m d)), j2)" "sender p fl i j2"
      "if d = [] then sending (Suc m) None j2 ino' else sending m (Some (pos_of pos + length d)) j2 ino"
    using read_block_sender [where limits = l and x = x and ino' = ino', OF 1(2,3) assms(3,4) c assms(6)]
    unfolding d_def by blast
  have "handle_read_jobs x l [j] fs s =
      (Inr (), [j2], s\<lparr>sent := sent s @ [new_block (if d = [] then end_block i m else data_block x (read_name p fl m) i m d)]\<rparr>)"
    using assms(1,7) 1(1,2) 2(1) by (simp add: handle_read_jobs_def sender_def step_read_job_def net_send_connected)
  with 2 show ?thesis by blast
qed

lemma rounds_file:
  assumes "sender p fl i j" "sending m pos j ino" "m < length fl" "length fl < 2 ^ 31"
    "readable fs (target_path p fl m) ino c" "connected s"
    "length ls = length (chunks (drop (pos_of pos) c)) + 1" "\<forall>l \<in> set ls. \<forall>k. 0 < l k"
  shows "\<exists>j'. sender p fl i j' \<and> sending (Suc m) None j' ino' \<and>
     read_rounds x (ls @ ls') [j] fs s = read_rounds x ls' [j'] fs
       (s\<lparr>sent := sent s @ map new_block (file_blocks x (read_name p fl m) i m (drop (pos_of pos) c))\<rparr>)"
  using assms(1,2,6-8)
proof (induction ls arbitrary: j pos s)
  case Nil
  then show ?case by simp
next
  case (Cons l ls)
  let ?d = "take BUF_SIZE (drop (pos_of pos) c)"
  have pos: "\<And>k. 0 < l k" using Cons.prems(5) by simp
  obtain j1 where 1: "handle_read_jobs x l [j] fs s =
      (Inr (), [j1], s\<lparr>sent := sent s @ [new_block (if ?d = [] then end_block i m else data_block x (read_name p fl m) i m ?d)]\<rparr>)"
      "sender p fl i j1" "if ?d = [] then sending (Suc m) None j1 ino' else sending m (Some (pos_of pos + length ?d)) j1 ino"
    using round_sender [where l = l and x = x and ino' = ino', OF Cons.prems(1,2) assms(3-5) pos Cons.prems(3)] by blast
  show ?case
  proof (cases "drop (pos_of pos) c = []")
    case True
    then have d: "?d = []" by simp
    have ch: "chunks (drop (pos_of pos) c) = []" unfolding True by simp
    then have "ls = []" using Cons.prems(4) by simp
    moreover have "file_blocks x (read_name p fl m) i m (drop (pos_of pos) c) = [end_block i m]"
      unfolding file_blocks_def ch by simp
    ultimately show ?thesis using 1 d by auto
  next
    case False
    then have d: "?d \<noteq> []" by (simp add: BUF_SIZE_def)
    have ch: "chunks (drop (pos_of pos) c) = ?d # chunks (drop (pos_of pos + length ?d) c)"
      using chunks_nonempty [OF False] by (cases "BUF_SIZE \<le> length (drop (pos_of pos) c)") (simp_all add: add.commute)
    have st: "sending m (Some (pos_of pos + length ?d)) j1 ino" using 1(3) d by simp
    let ?b = "data_block x (read_name p fl m) i m ?d"
    from Cons.IH [OF 1(2) st, of "s\<lparr>sent := sent s @ [new_block ?b]\<rparr>"] Cons.prems(3-5) ch
    obtain j' where j': "sender p fl i j'" "sending (Suc m) None j' ino'"
      "read_rounds x (ls @ ls') [j1] fs (s\<lparr>sent := sent s @ [new_block ?b]\<rparr>) = read_rounds x ls' [j'] fs
       (s\<lparr>sent := (sent s @ [new_block ?b]) @
          map new_block (file_blocks x (read_name p fl m) i m (drop (pos_of pos + length ?d) c))\<rparr>)"
      by auto
    have "file_blocks x (read_name p fl m) i m (drop (pos_of pos) c) =
        ?b # file_blocks x (read_name p fl m) i m (drop (pos_of pos + length ?d) c)"
      unfolding file_blocks_def ch by simp
    with j' 1(1) d show ?thesis by auto
  qed
qed

section \<open>Sending a whole job\<close>

definition job_blocks :: "ext_funs \<Rightarrow> string \<Rightarrow> FileEntry list \<Rightarrow> int \<Rightarrow> bytes list \<Rightarrow> FileTransferBlock list list" where
  "job_blocks x p fl i cs = map (\<lambda>m. file_blocks x (read_name p fl m) i m (cs ! m)) [0..<length fl]"

definition rounds_from :: "nat \<Rightarrow> bytes list \<Rightarrow> nat" where
  "rounds_from m cs = sum_list (map (\<lambda>c. length (chunks c) + 1) (drop m cs))"

lemma fs_read_readable: "fs_read path fs = Some c \<Longrightarrow> \<exists>ino. readable fs path ino c"
  by (auto simp: fs_read_def readable_def file_open_def read_handle_def split: sum.splits option.splits if_splits node.splits)

lemma rounds_job:
  assumes "sender p fl i j" "sending m None j ino" "m \<le> length fl" "length fl < 2 ^ 31" "length cs = length fl"
    "\<And>n. n < length fl \<Longrightarrow> fs_read (target_path p fl n) fs = Some (cs ! n)"
    "connected s" "length ls = rounds_from m cs" "\<forall>l \<in> set ls. \<forall>k. 0 < l k"
  shows "\<exists>j' ino'. sender p fl i j' \<and> sending (length fl) None j' ino' \<and>
     read_rounds x (ls @ ls') [j] fs s = read_rounds x ls' [j'] fs
       (s\<lparr>sent := sent s @ map new_block (concat (drop m (job_blocks x p fl i cs)))\<rparr>)"
  using assms(1-3,7-9)
proof (induction "length fl - m" arbitrary: m j ino s ls)
  case 0
  then have "m = length fl" by simp
  with 0 assms(5) show ?case by (auto simp: rounds_from_def job_blocks_def)
next
  case (Suc d)
  then have m: "m < length fl" by simp
  have d: "d = length fl - Suc m" using Suc.hyps(2) by simp
  let ?n = "length (chunks (cs ! m)) + 1"
  have drop: "drop m cs = cs ! m # drop (Suc m) cs" using m assms(5) by (simp add: Cons_nth_drop_Suc)
  have len: "length (take ?n ls) = ?n" "length (drop ?n ls) = rounds_from (Suc m) cs"
    using Suc.prems(5) by (simp_all add: rounds_from_def drop)
  have pos: "\<forall>l \<in> set (take ?n ls). \<forall>k. 0 < l k" "\<forall>l \<in> set (drop ?n ls). \<forall>k. 0 < l k"
    using Suc.prems(6) by (auto dest: in_set_takeD in_set_dropD)
  obtain ino0 where ino0: "readable fs (target_path p fl m) ino0 (cs ! m)" using fs_read_readable assms(6) [OF m] by blast
  have st: "sending m None j ino0" using Suc.prems(2) by (simp add: sending_def)
  let ?bs = "file_blocks x (read_name p fl m) i m (cs ! m)"
  obtain j1 where 1: "sender p fl i j1" "sending (Suc m) None j1 0"
    "read_rounds x (take ?n ls @ (drop ?n ls @ ls')) [j] fs s =
       read_rounds x (drop ?n ls @ ls') [j1] fs (s\<lparr>sent := sent s @ map new_block ?bs\<rparr>)"
    using rounds_file [OF Suc.prems(1) st m assms(4) ino0 Suc.prems(4), of "take ?n ls" 0 x "drop ?n ls @ ls'"] len pos by auto
  obtain j2 ino' where 2: "sender p fl i j2" "sending (length fl) None j2 ino'"
    "read_rounds x (drop ?n ls @ ls') [j1] fs (s\<lparr>sent := sent s @ map new_block ?bs\<rparr>) = read_rounds x ls' [j2] fs
       (s\<lparr>sent := (sent s @ map new_block ?bs) @ map new_block (concat (drop (Suc m) (job_blocks x p fl i cs)))\<rparr>)"
    using Suc.hyps(1) [of "Suc m" j1 0 "s\<lparr>sent := sent s @ map new_block ?bs\<rparr>" "drop ?n ls"] Suc.prems(4) 1 m len pos d
    by auto
  have "drop m (job_blocks x p fl i cs) = ?bs # drop (Suc m) (job_blocks x p fl i cs)"
    using m by (subst Cons_nth_drop_Suc [symmetric]) (simp_all add: job_blocks_def)
  moreover have "take ?n ls @ (drop ?n ls @ ls') = ls @ ls'" by (metis append.assoc append_take_drop_id)
  ultimately show ?case using 1(3) 2 by (metis append.assoc concat.simps(2) map_append)
qed

lemma round_done:
  assumes "sender p fl i j" "sending (length fl) None j ino" "length fl < 2 ^ 31" "connected s"
  shows "handle_read_jobs x l [j] fs s = (Inr (), [], s\<lparr>sent := sent s @ [new_done i (int (length fl))]\<rparr>)"
  using assms
  by (simp add: handle_read_jobs_def sender_def sending_def init_data_stream_def open_data_stream_def step_read_job_def
      read_block_def i32_as_usize_nat Let_def job_completed_def job_error_def job_skipped_def net_send_connected)

lemma rounds_idle: "read_rounds x ls [] fs s = (Inr (), [], s)"
  by (induction ls) (simp_all add: handle_read_jobs_def)

lemma rounds_complete:
  assumes "sender p fl i j" "sending 0 None j ino" "length fl < 2 ^ 31" "length cs = length fl"
    "\<And>n. n < length fl \<Longrightarrow> fs_read (target_path p fl n) fs = Some (cs ! n)"
    "connected s" "length ls > rounds_from 0 cs" "\<forall>l \<in> set ls. \<forall>k. 0 < l k"
  shows "read_rounds x ls [j] fs s =
    (Inr (), [], s\<lparr>sent := sent s @ map new_block (concat (job_blocks x p fl i cs)) @ [new_done i (int (length fl))]\<rparr>)"
proof -
  let ?n = "rounds_from 0 cs"
  obtain l ls' where ls: "drop ?n ls = l # ls'" using assms(7) by (cases "drop ?n ls") auto
  have len: "length (take ?n ls) = ?n" using assms(7) by simp
  have pos: "\<forall>l \<in> set (take ?n ls). \<forall>k. 0 < l k" using assms(8) by (auto dest: in_set_takeD)
  obtain j' ino' where j': "sender p fl i j'" "sending (length fl) None j' ino'"
    "read_rounds x (take ?n ls @ drop ?n ls) [j] fs s = read_rounds x (drop ?n ls) [j'] fs
       (s\<lparr>sent := sent s @ map new_block (concat (job_blocks x p fl i cs))\<rparr>)"
    using rounds_job [OF assms(1,2) _ assms(3,4,5,6) len pos, of x "drop ?n ls"] by auto
  then show ?thesis
    using round_done [OF j'(1,2) assms(3)] assms(6) unfolding append_take_drop_id by (simp add: ls rounds_idle)
qed

section \<open>Delivery\<close>

lemma new_write_receiver:
  "receiver p fl i (new_write i Generic r (FilePath p) 0 hid rm fl od)"
  "file_num (new_write i Generic r (FilePath p) 0 hid rm fl od) = 0"
  "data_stream (new_write i Generic r (FilePath p) 0 hid rm fl od) = None"
  by (simp_all add: receiver_def new_write_def TransferJob_default_def)

lemma new_read_sender:
  assumes "new_read i Generic r (FilePath p) 0 hid rm False fs = Inr j"
  shows "sender p (files j) i j" "sending 0 None j ino"
  using assms by (auto simp: new_read_def Let_def sender_def sending_def TransferJob_default_def split: sum.splits)


text \<open>A decidable form of \<open>tidy\<close> for concrete file systems.\<close>

definition tidy_check :: "key list \<Rightarrow> file_sys \<Rightarrow> bool" where
  "tidy_check ks fs \<longleftrightarrow>
     (let inos = List.map_filter (\<lambda>(k, n). case n of RegFile i \<Rightarrow> Some i | _ \<Rightarrow> None) (names fs) in
      distinct inos \<and> list_all (\<lambda>i. i < next_ino fs) inos \<and>
      list_all (\<lambda>k. snd k \<noteq> [] \<and> k \<notin> set (denied fs) \<and> file_or_absent (node_of fs k) \<and>
        (node_of fs k \<noteq> None \<longrightarrow> is_directory fs (key_parent k)) \<and>
        list_all (\<lambda>n. (fst k, take n (snd k)) \<notin> set (denied fs) \<and> dir_or_absent (node_of fs (fst k, take n (snd k))))
          [0..<length (snd k)]) ks)"

lemma map_filter_distinct_inj:
  assumes "distinct (List.map_filter f xs)" "x \<in> set xs" "y \<in> set xs" "f x = Some v" "f y = Some v"
  shows "x = y"
  using assms
proof (induction xs)
  case (Cons z zs)
  have "v \<in> set (List.map_filter f zs)" if "w \<in> set zs" "f w = Some v" for w
    using that by (force simp: List.map_filter_def)
  with Cons show ?case by (auto split: option.splits)
qed simp

lemma tidy_check_sound:
  assumes "tidy_check ks fs"
  shows "tidy (set ks) fs"
  unfolding tidy_def
proof (intro conjI ballI allI impI)
  let ?f = "\<lambda>(k, n). case n of RegFile i \<Rightarrow> Some i | _ \<Rightarrow> None"
  have c: "distinct (List.map_filter ?f (names fs))" "list_all (\<lambda>i. i < next_ino fs) (List.map_filter ?f (names fs))"
    using assms by (simp_all add: tidy_check_def Let_def)
  have node: "(k, RegFile i) \<in> set (names fs)" if "node_of fs k = Some (RegFile i)" for k i
    using that by (auto simp: node_of_def hm_get_def split: if_splits dest: map_of_SomeD)
  show "inodes_ok fs"
  proof (rule inodes_okI)
    fix k i assume "node_of fs k = Some (RegFile i)"
    from node [OF this] have "i \<in> set (List.map_filter ?f (names fs))"
      by (force simp: List.map_filter_def)
    with c(2) show "i < next_ino fs" by (simp add: list_all_iff)
  next
    fix k k' i assume "node_of fs k = Some (RegFile i)" "node_of fs k' = Some (RegFile i)"
    from map_filter_distinct_inj [OF c(1) node [OF this(1)] node [OF this(2)]] show "k = k'" by simp
  qed
  fix k assume "k \<in> set ks"
  with assms have k: "snd k \<noteq> []" "k \<notin> set (denied fs)" "file_or_absent (node_of fs k)"
    "node_of fs k \<noteq> None \<longrightarrow> is_directory fs (key_parent k)"
    "\<And>n. n < length (snd k) \<Longrightarrow> (fst k, take n (snd k)) \<notin> set (denied fs) \<and> dir_or_absent (node_of fs (fst k, take n (snd k)))"
    by (auto simp: tidy_check_def Let_def list_all_iff)
  show "snd k \<noteq> []" "k \<notin> set (denied fs)" "file_or_absent (node_of fs k)" by (rule k)+
  show "node_of fs k \<noteq> None \<Longrightarrow> is_directory fs (key_parent k)" using k(4) by simp
  fix a assume "above a k"
  then have "fst a = fst k" "strict_prefix (snd a) (snd k)" by (simp_all add: above_def)
  then have t: "a = (fst k, take (length (snd a)) (snd k))" "length (snd a) < length (snd k)"
    by (auto simp: prefix_length_less strict_prefix_def prefix_def prod_eq_iff)
  from k(5) [OF t(2)] t(1) show "a \<notin> set (denied fs)" "dir_or_absent (node_of fs a)" by metis+
qed

definition example_ext :: ext_funs where
  "example_ext = \<lparr>zstd_compress = Some, zstd_decode_all = Some, digest_to_json = (\<lambda>_. [7]), digest_from_json = (\<lambda>_. None)\<rparr>"

definition example_src :: file_sys where
  "example_src = \<lparr>names = [((True, [''src'']), Directory 0), ((True, [''src'', ''a'']), RegFile 0), ((True, [''src'', ''b'']), RegFile 1)],
     inodes = [(0, \<lparr>content = [1, 2, 3], mtime = 5000000000\<rparr>), (1, \<lparr>content = [], mtime = 7000000000\<rparr>)],
     next_ino = 2, denied = [], clock = 9000000000, dir_size = 4096\<rparr>"

definition example_dst :: file_sys where
  "example_dst = \<lparr>names = [((True, [''dst'']), Directory 0), ((True, [''dst'', ''a.download'']), RegFile 0)],
     inodes = [(0, \<lparr>content = [9], mtime = 0\<rparr>)], next_ino = 1, denied = [], clock = 9000000000, dir_size = 4096\<rparr>"

definition example_net :: net where
  "example_net = \<lparr>sent = [], breaks_after = None\<rparr>"

definition example_job :: TransferJob where
  "example_job = (case new_read 4 Generic [] (FilePath ''/src'') 0 False True False example_src of Inr j \<Rightarrow> j | Inl _ \<Rightarrow> TransferJob_default)"

lemma example_job_read: "new_read 4 Generic [] (FilePath ''/src'') 0 False True False example_src = Inr example_job"
  by code_simp

lemma example_job_files: "map fe_name (files example_job) = [''a'', ''b'']"
  by code_simp


section \<open>Consent, resumption and cancellation\<close>

definition awaits_consent :: "TransferJob \<Rightarrow> bool" where
  "awaits_consent j \<longleftrightarrow> job_type j = Generic \<and> enable_overwrite_detection j \<and> \<not> file_confirmed j"

definition is_block :: "Message \<Rightarrow> bool" where
  "is_block m = (case m of MsgBlock _ \<Rightarrow> True | _ \<Rightarrow> False)"

definition no_block_sent :: "net \<Rightarrow> net \<Rightarrow> bool" where
  "no_block_sent s s' \<longleftrightarrow> filter is_block (sent s') = filter is_block (sent s)"

lemma no_block_net_send: "\<lbrakk>net_send m s = (r, s'); \<not> is_block m\<rbrakk> \<Longrightarrow> no_block_sent s s'"
  by (auto simp: net_send_def no_block_sent_def split: option.splits nat.splits)

lemma no_block_trans: "\<lbrakk>no_block_sent s s1; no_block_sent s1 s2\<rbrakk> \<Longrightarrow> no_block_sent s s2"
  by (simp add: no_block_sent_def)

lemma no_block_refl [simp]: "no_block_sent s s"
  by (simp add: no_block_sent_def)

lemma is_block_simps [simp]:
  "\<not> is_block (new_error i e n)" "\<not> is_block (new_done i n)" "\<not> is_block (MsgDigest d)"
  by (simp_all add: is_block_def new_error_def new_done_def)

lemma open_data_stream_awaits: "\<lbrakk>awaits_consent j; open_data_stream j fs = (r, j')\<rbrakk> \<Longrightarrow> awaits_consent j'"
  by (auto simp: awaits_consent_def open_data_stream_def Let_def split: DataSource.splits if_splits sum.splits)

lemma send_current_digest_no_block: "send_current_digest j fs s = (r, s') \<Longrightarrow> no_block_sent s s'"
  by (auto simp: send_current_digest_def split: sum.splits prod.splits intro: no_block_net_send)

lemma init_data_stream_awaits:
  assumes "awaits_consent j" "init_data_stream j fs s = (r, j', s')"
  shows "awaits_consent j' \<and> no_block_sent s s'"
proof -
  obtain q j1 where 1: "open_data_stream j fs = (q, j1)" by (cases "open_data_stream j fs")
  have "awaits_consent j1" using open_data_stream_awaits [OF assms(1) 1] .
  with assms(2) 1 show ?thesis
    by (auto simp: init_data_stream_def awaits_consent_def
        split: sum.splits bool.splits if_splits prod.splits dest: send_current_digest_no_block)
qed

lemma init_jobs_awaits:
  "\<lbrakk>list_all awaits_consent js; init_jobs js fs s = (r, js', s')\<rbrakk> \<Longrightarrow> list_all awaits_consent js' \<and> no_block_sent s s'"
proof (induction js arbitrary: s r js' s')
  case (Cons j js)
  obtain r1 js1 s1 where rec: "init_jobs js fs s = (r1, js1, s1)" by (cases "init_jobs js fs s")
  obtain q j2 s2 where init: "init_data_stream j fs s = (q, j2, s2)" by (cases "init_data_stream j fs s")
  have i: "awaits_consent j2" "no_block_sent s s2" using init_data_stream_awaits [OF _ init] Cons.prems(1) by simp_all
  obtain r3 js3 s3 where rec2: "init_jobs js fs s2 = (r3, js3, s3)" by (cases "init_jobs js fs s2")
  obtain e4 s4 where snd: "net_send (new_error (job_id j2) (projl q) (file_num j2)) s2 = (e4, s4)"
    by (cases "net_send (new_error (job_id j2) (projl q) (file_num j2)) s2")
  have s4: "no_block_sent s s4" using no_block_net_send [OF snd] i(2) no_block_trans by simp
  obtain r5 js5 s5 where rec4: "init_jobs js fs s4 = (r5, js5, s5)" by (cases "init_jobs js fs s4")
  have js: "list_all awaits_consent js" using Cons.prems(1) by simp
  note IH = Cons.IH [OF js rec] Cons.IH [OF js rec2] Cons.IH [OF js rec4]
  show ?case
    using Cons.prems IH i s4 rec rec2 rec4 init snd no_block_trans [OF i(2)] no_block_trans [OF s4]
    by (auto split: if_splits sum.splits)
qed simp

lemma step_read_job_awaits:
  assumes "awaits_consent j" "step_read_job x l j fs s = (r, j', s')"
  shows "awaits_consent j' \<and> no_block_sent s s'"
proof -
  have "read_block x l j fs = (Inr None, j)" using assms(1) by (simp add: read_block_def awaits_consent_def)
  with assms show ?thesis
    by (auto simp: step_read_job_def Let_def split: if_splits option.splits prod.splits sum.splits dest: no_block_net_send)
qed

lemma read_jobs_loop_awaits:
  "\<lbrakk>list_all awaits_consent js; read_jobs_loop x l js fs s = (r, js', s')\<rbrakk> \<Longrightarrow> list_all awaits_consent js' \<and> no_block_sent s s'"
proof (induction js arbitrary: s r js' s')
  case (Cons j js)
  obtain r1 js1 s1 where rec: "read_jobs_loop x l js fs s = (r1, js1, s1)" by (cases "read_jobs_loop x l js fs s")
  obtain q j2 s2 where st: "step_read_job x l j fs s = (q, j2, s2)" by (cases "step_read_job x l j fs s")
  have js: "awaits_consent j" "list_all awaits_consent js" using Cons.prems(1) by simp_all
  from Cons.IH [OF js(2) rec] step_read_job_awaits [OF js(1) st] js Cons.prems(2) rec st show ?case
    by (auto split: if_splits sum.splits)
qed simp

lemma remove_job_awaits: "list_all P js \<Longrightarrow> list_all P (snd (remove_job i js))"
  by (induction js) (auto split: prod.splits)

lemma fold_remove_awaits: "list_all P js \<Longrightarrow> list_all P (fold (\<lambda>i js. snd (remove_job i js)) is js)"
  by (induction "is" arbitrary: js) (auto simp: remove_job_awaits)

lemma handle_read_jobs_awaits:
  assumes "list_all awaits_consent js" "handle_read_jobs x l js fs s = (r, js', s')"
  shows "list_all awaits_consent js' \<and> no_block_sent s s'"
proof -
  obtain q js1 s1 where 1: "init_jobs js fs s = (q, js1, s1)" by (cases "init_jobs js fs s")
  obtain q2 js2 s2 where 2: "read_jobs_loop x l js1 fs s1 = (q2, js2, s2)" by (cases "read_jobs_loop x l js1 fs s1")
  note i = init_jobs_awaits [OF assms(1) 1]
  note r = read_jobs_loop_awaits [OF conjunct1 [OF i] 2]
  from assms(2) 1 2 i r show ?thesis
    by (auto simp: handle_read_jobs_def fold_remove_awaits split: sum.splits intro: no_block_trans)
qed



lemma open_existing_tidy:
  assumes "tidy K fs" "antichain K" "path_key q \<in> K" "key_file fs (path_key q) = Some f"
  obtains i where "file_open_write False q fs = (Inr \<lparr>h_ino = Some i, h_pos = 0, h_read = False, h_write = True\<rparr>, fs)"
    "node_of fs (path_key q) = Some (RegFile i)"
  using assms(1,3)
proof (cases rule: tidy_node)
  case 1
  with assms(4) show ?thesis by simp
next
  case (2 i)
  moreover have "file_open_write False q fs = (Inr \<lparr>h_ino = Some i, h_pos = 0, h_read = False, h_write = True\<rparr>, fs)"
    using 2(1) tidy_resolve [OF assms(1,3)] tidyD(2) [OF assms(1,3)] by (simp add: file_open_write_def)
  ultimately show ?thesis using that by blast
qed

lemma confirm_resumes:
  assumes "targets_ok p fl" "receiver p fl i j" "tidy (set (target_entries p fl)) fs"
    "m < length fl" "file_num j = int m"
    "map_option content (key_file fs (path_key (download_path (target_path p fl m)))) = Some got"
    "key_file fs (path_key (digest_path (target_path p fl m))) \<noteq> None" "got \<noteq> []" "length got < 2 ^ 63"
  shows "\<exists>j'. confirm \<lparr>req_id = i, req_file_num = int m, req_union = Some (OffsetBlk (length got))\<rparr> j fs = Some (j', fs)
     \<and> receiver p fl i j' \<and> receiving p fl m got j' fs \<and> file_confirmed j'"
proof -
  let ?path = "target_path p fl m"
  note anti = targets_okD(1) [OF assms(1)]
  note mem = target_entriesI [OF assms(4), of p]
  have m: "m < 2 ^ 64" using assms(4) targets_okD(2) [OF assms(1)] by simp
  from assms(6) obtain f where f: "key_file fs (path_key (download_path ?path)) = Some f" by auto
  obtain ino where ino: "file_open_write False (download_path ?path) fs =
      (Inr \<lparr>h_ino = Some ino, h_pos = 0, h_read = False, h_write = True\<rparr>, fs)"
    "node_of fs (path_key (download_path ?path)) = Some (RegFile ino)"
    using open_existing_tidy [OF assms(3) anti mem(2) f] by blast
  have ex: "fs_exists fs (download_path ?path)" "fs_exists fs (digest_path ?path)"
    using tidy_exists [OF assms(3) mem(2)] tidy_exists [OF assms(3) mem(3)] f assms(7) by simp_all
  show ?thesis
    using assms(2-6,8,9) m ino ex
    by (simp add: confirm_def set_file_confirmed_def set_stream_offset_def receiver_def receiving_def handle_on_def
        file_seek_def i32_as_usize_nat Let_def target_path_def)
qed

text \<open>
  C8. Resuming: when a partial \<open>.download\<close> and its \<open>.digest\<close> are there and the peer confirms the
  offset at which it ends, the job continues the partial file, and the blocks of the rest of the
  contents complete it: after \<open>modify_time\<close> the target holds the whole file.
\<close>

theorem resume_completes:
  assumes "zstd_ok x" "targets_ok p fl" "receiver p fl i j" "tidy (set (target_entries p fl)) fs"
    "m < length fl" "file_num j = int m" "0 < n" "n \<le> length c" "n < 2 ^ 63"
    "map_option content (key_file fs (path_key (download_path (target_path p fl m)))) = Some (take n c)"
    "key_file fs (path_key (digest_path (target_path p fl m))) \<noteq> None"
  shows "\<exists>j1 j2 fs2. confirm \<lparr>req_id = i, req_file_num = int m, req_union = Some (OffsetBlk n)\<rparr> j fs = Some (j1, fs) \<and>
     write_blocks x (file_blocks x name i m (drop n c)) j1 fs = (Inr (), j2, fs2) \<and>
     arrived p fl m c (modify_time j2 fs2)"
proof -
  have len: "length (take n c) = n" using assms(8) by simp
  then have ne: "take n c \<noteq> []" using assms(7) by auto
  obtain j1 where 1: "confirm \<lparr>req_id = i, req_file_num = int m, req_union = Some (OffsetBlk n)\<rparr> j fs = Some (j1, fs)"
    "receiver p fl i j1" "receiving p fl m (take n c) j1 fs"
    using confirm_resumes [OF assms(2-6,10,11) ne] assms(9) len by auto
  obtain j2 fs2 where 2: "write_blocks x (file_blocks x name i m (drop n c)) j1 fs = (Inr (), j2, fs2)"
    "receiver p fl i j2" "receiving p fl m (take n c @ concat (map (payload x) (file_blocks x name i m (drop n c)))) j2 fs2"
    using write_blocks_continue [OF assms(2) 1(2,3) file_blocks_ids] by blast
  then have "receiving p fl m c j2 fs2" unfolding payload_file_blocks [OF assms(1)] by simp
  from modify_time_arrived(2) [OF assms(2) 2(2) this] 1(1) 2(1) show ?thesis by blast
qed

text \<open>
  A download left behind by an interrupted transfer surfaces: the first block of a new transfer
  of the same file moves the stale \<open>.download\<close> over the target, with the new file's modification
  time, before any new data is complete, so the target holds partial contents if the new transfer
  is then cancelled.
\<close>

theorem stale_download_surfaces:
  assumes "targets_ok p fl" "receiver p fl i j" "tidy (set (target_entries p fl)) fs"
    "m < length fl" "file_num j = int m" "data_stream j = None" "blk_id b = i" "blk_file_num b = int m"
    "key_file fs (path_key (download_path (target_path p fl m))) = Some stale"
  shows "\<exists>j' fs'. write_block x b j fs = (Inr (), j', fs') \<and>
     key_file (remove_download_file j' fs') (path_key (target_path p fl m)) =
       Some \<lparr>content = content stale, mtime = int (modified_time (fl ! m)) * 10 ^ 9\<rparr>"
proof -
  let ?path = "target_path p fl m"
  note anti = targets_okD(1) [OF assms(1)]
  note mem = target_entriesI [OF assms(4), of p]
  note par = target_parents [OF targets_okD(3) [OF assms(1,4)]]
  have m: "m < 2 ^ 64" using assms(4) targets_okD(2) [OF assms(1)] by simp
  obtain j' fs' where w: "write_block x b j fs = (Inr (), j', fs')" "receiver p fl i j'"
    "receiving p fl m (payload x b) j' fs'" "temp_only p fl m (modify_time j fs) fs'"
    using write_block_first [OF assms(1-4,7,8,5,4)] assms(6) by blast
  have tgt: "key_file fs' (path_key ?path) = Some (stale\<lparr>mtime := int (modified_time (fl ! m)) * 10 ^ 9\<rparr>)"
    using w(4) mem(1) par modify_time_finishes(3) [OF assms(1,2,5,4,3,9)] by (simp add: temp_only_def)
  have t: "tidy (set (target_entries p fl)) fs'" and fn: "file_num j' = int m" using w(3) by (simp_all add: receiving_def)
  obtain r1 fs1 where 1: "fs_remove_file (download_path ?path) fs' = (r1, fs1)" by (cases "fs_remove_file (download_path ?path) fs'")
  obtain r2 fs2 where 2: "fs_remove_file (digest_path ?path) fs1 = (r2, fs2)" by (cases "fs_remove_file (digest_path ?path) fs1")
  note rm1 = remove_file_tidy [OF t anti mem(2) 1]
  note rm2 = remove_file_tidy [OF rm1(1) anti mem(3) 2]
  have "remove_download_file j' fs' = fs2"
    using w(2) fn assms(4) m 1 2 by (simp add: remove_download_file_def receiver_def i32_as_usize_nat Let_def target_path_def)
  moreover have "key_file fs2 (path_key ?path) = key_file fs' (path_key ?path)"
    using agreesD [OF rm1(3) mem(1)] agreesD [OF rm2(3) mem(1)] par by simp
  ultimately have "key_file (remove_download_file j' fs') (path_key ?path) =
      Some \<lparr>content = content stale, mtime = int (modified_time (fl ! m)) * 10 ^ 9\<rparr>"
    using tgt by (cases stale) simp
  with w(1) show ?thesis by blast
qed

text \<open>
  \<open>confirm\<close> panics exactly when a peer confirms a positive offset for the job's current file
  number and that number is not an index of the file list (an empty list, a finished job, a
  negative number): \<open>set_stream_offset\<close> indexes \<open>files\<close> without a check.
\<close>

theorem confirm_panics_iff:
  "confirm r j fs = None \<longleftrightarrow>
     req_file_num r = file_num j \<and> (\<exists>off. off > 0 \<and> req_union r = Some (OffsetBlk off)) \<and>
     (\<exists>p. data_source j = FilePath p) \<and> length (files j) \<le> i32_as_usize (file_num j)"
proof (cases "req_file_num r = file_num j")
  case True
  have "set_stream_offset n off j' fs = None \<longleftrightarrow> (\<exists>p. data_source j' = FilePath p) \<and> length (files j') \<le> n" for n off j'
    by (auto simp: set_stream_offset_def Let_def not_le split: DataSource.splits sum.splits option.splits prod.splits)
  with True show ?thesis
    by (auto simp: confirm_def set_file_confirmed_def Let_def split: option.splits confirm_union.splits)
qed (simp add: confirm_def)

definition example_partial :: file_sys where
  "example_partial = example_dst\<lparr>names := [((True, [''dst'']), Directory 0), ((True, [''dst'', ''a.download'']), RegFile 0),
     ((True, [''dst'', ''a.digest'']), RegFile 1)],
     inodes := [(0, \<lparr>content = [1], mtime = 0\<rparr>), (1, \<lparr>content = [7], mtime = 0\<rparr>)], next_ino := 2\<rparr>"

lemma example_partial_facts:
  "targets_ok ''/dst'' (files example_job)" "tidy (set (target_entries ''/dst'' (files example_job))) example_partial"
  "0 < length (files example_job)"
  "map_option content (key_file example_partial (path_key (download_path (target_path ''/dst'' (files example_job) 0)))) = Some [1]"
  "key_file example_partial (path_key (digest_path (target_path ''/dst'' (files example_job) 0))) \<noteq> None"
proof -
  have small: "length (files example_job) < 2 ^ 31" "\<forall>e \<in> set (files example_job). modified_time e < 2 ^ 63" by code_simp+
  have tgt: "\<forall>e \<in> set (files example_job). target_ok (job_join ''/dst'' (fe_name e))" by code_simp
  have dist: "distinct (target_entries ''/dst'' (files example_job))" by code_simp
  have anti: "antichain (set (target_entries ''/dst'' (files example_job)))" by code_simp
  show "targets_ok ''/dst'' (files example_job)" using small tgt dist anti by (simp add: targets_ok_def)
  have "tidy_check (target_entries ''/dst'' (files example_job)) example_partial" by code_simp
  then show "tidy (set (target_entries ''/dst'' (files example_job))) example_partial" by (rule tidy_check_sound)
  show "0 < length (files example_job)" by code_simp
  show "map_option content (key_file example_partial (path_key (download_path (target_path ''/dst'' (files example_job) 0)))) = Some [1]"
    by code_simp
  show "key_file example_partial (path_key (digest_path (target_path ''/dst'' (files example_job) 0))) \<noteq> None"
    by code_simp
qed

lemma example_ext_zstd: "zstd_ok example_ext"
  by (simp add: zstd_ok_def example_ext_def)

theorem resume_completes_witness:
  "\<exists>j1 j2 fs2. confirm \<lparr>req_id = 4, req_file_num = 0, req_union = Some (OffsetBlk 1)\<rparr>
       (new_write 4 Generic [] (FilePath ''/dst'') 0 False False (files example_job) True) example_partial = Some (j1, example_partial) \<and>
     write_blocks example_ext (file_blocks example_ext ''a'' 4 0 [2, 3]) j1 example_partial = (Inr (), j2, fs2) \<and>
     arrived ''/dst'' (files example_job) 0 [1, 2, 3] (modify_time j2 fs2)"
proof -
  have c: "map_option content (key_file example_partial (path_key (download_path (target_path ''/dst'' (files example_job) 0)))) =
      Some (take 1 [1, 2, 3])" using example_partial_facts(4) by simp
  have fn: "file_num (new_write 4 Generic [] (FilePath ''/dst'') 0 False False (files example_job) True) = int 0"
    by (simp add: new_write_receiver)
  from resume_completes [OF example_ext_zstd example_partial_facts(1) new_write_receiver(1) example_partial_facts(2,3) fn
      _ _ _ c example_partial_facts(5), of "''a''"]
  show ?thesis by simp
qed

theorem stale_download_surfaces_witness:
  "\<exists>j' fs'. write_block example_ext (end_block 4 0)
       (new_write 4 Generic [] (FilePath ''/dst'') 0 False False (files example_job) False) example_partial = (Inr (), j', fs') \<and>
     map_option content (key_file (remove_download_file j' fs') (path_key (target_path ''/dst'' (files example_job) 0))) = Some [1]"
proof -
  obtain stale where st: "key_file example_partial (path_key (download_path (target_path ''/dst'' (files example_job) 0))) = Some stale"
    "content stale = [1]" using example_partial_facts(4) by auto
  have fn: "file_num (new_write 4 Generic [] (FilePath ''/dst'') 0 False False (files example_job) False) = int 0"
    by (simp add: new_write_receiver)
  have b: "blk_id (end_block 4 0) = 4" "blk_file_num (end_block 4 0) = int 0" by (simp_all add: end_block_def)
  from stale_download_surfaces [OF example_partial_facts(1) new_write_receiver(1) example_partial_facts(2,3) fn
      new_write_receiver(3) b st(1), of example_ext] st(2)
  show ?thesis by (metis inode.select_convs(1) option.simps(9))
qed

end
