(* ===== verification/File_Server.thy ===== *)
theory File_Server
  imports File_Delivery
begin

text \<open>
  The file-system requests of a remote peer as the connection manager serves them
  (\<open>src/ui_cm_interface.rs\<close>, \<open>handle_fs\<close> and its helpers; the requests are \<open>ipc::FS\<close> of
  \<open>src/ipc.rs\<close>), on a POSIX target.  The state is the two job lists, the disk and what was
  sent to the connection; messages carry values instead of their protobuf bytes, and a request
  whose bytes are protobuf carries the result of parsing them.  \<open>None\<close> is a panic.
\<close>

section \<open>Requests and answers\<close>

datatype FS =
    ReadEmptyDirs string bool
  | ReadDir string bool
  | RemoveDir string int bool
  | RemoveFile string int int
  | CreateDir string int
  | NewWrite string int int "(string \<times> nat) list" bool nat int
  | CancelWrite int
  | WriteBlock int int bytes bool
  | WriteDone int int
  | WriteError int int string
  | WriteOffset int int nat
  | CheckDigest int int nat nat bool bool
  | SendConfirm "FileTransferSendConfirmRequest option"
  | Rename int string string
  | ReadFile string int int bool int bool
  | CancelRead int int
  | SendConfirmForRead int int bool nat int
  | ReadAllFiles string int bool int

datatype Data =
    RawMessage Message
  | ReadJobInitResult int int bool int "transfer_err + FileDirectory"
  | FileReadError int int transfer_err int
  | FileBlockFromCM int int bytes bool int
  | FileReadDone int int int
  | FileDigestFromCM int int nat nat bool int
  | AllFilesResult int int string "transfer_err + FileDirectory"

record fs_server =
  write_jobs :: "TransferJob list"
  read_jobs :: "TransferJob list"
  disk :: file_sys
  out :: "Data list"

definition tell :: "Data \<Rightarrow> fs_server \<Rightarrow> fs_server" where
  "tell d st = st\<lparr>out := out st @ [d]\<rparr>"

definition send_raw_msg :: "Message \<Rightarrow> fs_server \<Rightarrow> fs_server" where
  "send_raw_msg m st = tell (RawMessage m) st"

section \<open>Limits and validation\<close>

definition trim :: "string \<Rightarrow> string" where
  "trim s = (let ws = (\<lambda>c. c \<in> set [CHR '' '', CHR 0x09, CHR 0x0A, CHR 0x0B, CHR 0x0C, CHR 0x0D])
             in rev (dropWhile ws (rev (dropWhile ws s))))"

definition parse_usize :: "string \<Rightarrow> nat option" where
  "parse_usize s = (if starts_with s ''-'' then None else map_option nat (parse_int 0 (2 ^ 64 - 1) s))"

definition DEFAULT_MAX_VALIDATED_FILES :: nat where
  "DEFAULT_MAX_VALIDATED_FILES = 10000"

definition get_max_validated_files :: "string \<Rightarrow> nat" where
  "get_max_validated_files opt =
     (let c = (case parse_usize (trim opt) of Some n \<Rightarrow> n | None \<Rightarrow> 2 ^ 64 - 1)
      in if c = 0 then DEFAULT_MAX_VALIDATED_FILES else c)"

definition check_file_count_limit :: "string \<Rightarrow> nat \<Rightarrow> transfer_err + unit" where
  "check_file_count_limit opt count =
     (if count > get_max_validated_files opt then Inl (Bail ''file transfer rejected: too many files'') else Inr ())"

definition validate_file_name_no_traversal :: "string \<Rightarrow> transfer_err + unit" where
  "validate_file_name_no_traversal name =
     (if CHR 0x00 \<in> set name then Inl (Bail ''file name contains null bytes'')
      else if list_ex (\<lambda>c. c = ''..'')
                (filter (\<lambda>c. c \<noteq> '''') (split_char CHR ''/'' (map (\<lambda>c. if c = CHR 0x5C then CHR ''/'' else c) name)))
      then Inl (Bail ''path traversal detected in file name'')
      else if starts_with name ''/'' \<or> starts_with name [CHR 0x5C] then Inl (Bail ''absolute path detected in file name'')
      else Inr ())"

definition is_single_file_with_empty_name :: "(string \<times> nat) list \<Rightarrow> bool" where
  "is_single_file_with_empty_name fl \<longleftrightarrow> length fl = 1 \<and> (case fl of f # _ \<Rightarrow> fst f = '''' | [] \<Rightarrow> False)"

fun validate_names :: "(string \<times> nat) list \<Rightarrow> transfer_err + unit" where
  "validate_names [] = Inr ()"
| "validate_names ((name, t) # fl) =
     (if name = '''' then Inl (Bail ''empty file name in multi-file transfer'')
      else case validate_file_name_no_traversal name of
        Inl e \<Rightarrow> Inl e
      | Inr _ \<Rightarrow> validate_names fl)"

definition validate_transfer_file_names :: "(string \<times> nat) list \<Rightarrow> transfer_err + unit" where
  "validate_transfer_file_names fl =
     (if is_single_file_with_empty_name fl then Inr () else validate_names fl)"

section \<open>Simple requests\<close>

definition handle_result :: "(transfer_err + unit) \<Rightarrow> int \<Rightarrow> int \<Rightarrow> fs_server \<Rightarrow> fs_server" where
  "handle_result r i n st =
     (case r of Inl err \<Rightarrow> send_raw_msg (new_error i err n) st | Inr _ \<Rightarrow> send_raw_msg (new_done i n) st)"

definition serve_read_empty_dirs :: "string \<Rightarrow> bool \<Rightarrow> fs_server \<Rightarrow> fs_server" where
  "serve_read_empty_dirs dir hidden st =
     (case get_empty_dirs_recursive dir hidden (disk st) of
        Inr fds \<Rightarrow> send_raw_msg (MsgEmptyDirs dir fds) st | Inl _ \<Rightarrow> st)"

definition serve_read_dir :: "string \<Rightarrow> string \<Rightarrow> bool \<Rightarrow> fs_server \<Rightarrow> fs_server" where
  "serve_read_dir home dir hidden st =
     (case read_dir (if dir = '''' then home else dir) hidden (disk st) of
        Inr fd \<Rightarrow> send_raw_msg (MsgDir fd) st | Inl _ \<Rightarrow> st)"

definition serve_remove_file :: "string \<Rightarrow> int \<Rightarrow> int \<Rightarrow> fs_server \<Rightarrow> fs_server" where
  "serve_remove_file path i n st =
     (case File_Transfer.remove_file path (disk st) of (r, d) \<Rightarrow> handle_result r i n (st\<lparr>disk := d\<rparr>))"

definition serve_create_dir :: "string \<Rightarrow> int \<Rightarrow> fs_server \<Rightarrow> fs_server" where
  "serve_create_dir path i st =
     (case File_Transfer.create_dir path (disk st) of (r, d) \<Rightarrow> handle_result r i 0 (st\<lparr>disk := d\<rparr>))"

definition serve_rename_file :: "string \<Rightarrow> string \<Rightarrow> int \<Rightarrow> fs_server \<Rightarrow> fs_server" where
  "serve_rename_file path new_name i st =
     (if new_name = '''' then handle_result (Inl (Bail ''new file name cannot be empty'')) i 0 st
      else case validate_file_name_no_traversal new_name of
        Inl e \<Rightarrow> handle_result (Inl e) i 0 st
      | Inr _ \<Rightarrow>
          (case File_Transfer.rename_file path new_name (disk st) of (r, d) \<Rightarrow> handle_result r i 0 (st\<lparr>disk := d\<rparr>)))"

definition serve_remove_dir :: "string \<Rightarrow> int \<Rightarrow> bool \<Rightarrow> fs_server \<Rightarrow> fs_server" where
  "serve_remove_dir path i recursive st =
     (let (r, d) = (if recursive then remove_all_empty_dir (fs_depth (disk st) + 2) path (disk st)
                    else fs_remove_dir path (disk st));
          r' = (case r of Inl e \<Rightarrow> Inl (Io e) | Inr _ \<Rightarrow> Inr ())
      in handle_result r' i 0 (st\<lparr>disk := d\<rparr>))"

definition read_all_files :: "string \<Rightarrow> string \<Rightarrow> bool \<Rightarrow> int \<Rightarrow> int \<Rightarrow> fs_server \<Rightarrow> fs_server" where
  "read_all_files opt path hidden i conn st =
     (let r = (case get_recursive_files path hidden (disk st) of
                 Inl e \<Rightarrow> Inl e
               | Inr fl \<Rightarrow>
                   (case check_file_count_limit opt (length fl) of
                      Inl e \<Rightarrow> Inl e
                    | Inr _ \<Rightarrow> Inr \<lparr>dir_id = i, dir_path = path, entries = fl\<rparr>))
      in tell (AllFilesResult i conn path r) st)"

section \<open>Read jobs\<close>

definition start_read_job :: "string \<Rightarrow> string \<Rightarrow> int \<Rightarrow> bool \<Rightarrow> int \<Rightarrow> int \<Rightarrow> bool \<Rightarrow> fs_server \<Rightarrow> fs_server" where
  "start_read_job opt path n hidden i conn od st =
     (case new_read i Generic [] (FilePath path) n hidden True od (disk st) of
        Inl e \<Rightarrow> tell (ReadJobInitResult i n hidden conn (Inl e)) st
      | Inr job \<Rightarrow>
          (case check_file_count_limit opt (length (files job)) of
             Inl e \<Rightarrow> tell (ReadJobInitResult i n hidden conn (Inl e)) st
           | Inr _ \<Rightarrow>
               (let st = tell (ReadJobInitResult i n hidden conn
                           (Inr \<lparr>dir_id = i, dir_path = path, entries = files job\<rparr>)) st
                in st\<lparr>read_jobs := read_jobs st @ [job\<lparr>conn_id := conn\<rparr>]\<rparr>)))"

definition init_read_job_for_cm :: "TransferJob \<Rightarrow> int \<Rightarrow> fs_server \<Rightarrow> (transfer_err + unit) \<times> TransferJob \<times> fs_server" where
  "init_read_job_for_cm job conn st =
     (case init_data_stream_for_cm job (disk st) of
        (Inl e, job) \<Rightarrow> (Inl e, job, st)
      | (Inr (Some (last_modified, file_size)), job) \<Rightarrow>
          (Inr (), job, tell (FileDigestFromCM (job_id job) (file_num job) last_modified file_size (is_resume job) conn) st)
      | (Inr None, job) \<Rightarrow> (Inr (), job, st))"

text \<open>The loop of \<open>handle_read_jobs_tick\<close>; it goes past jobs whose initialisation fails.\<close>

fun read_tick_loop :: "ext_funs \<Rightarrow> (nat \<Rightarrow> nat) \<Rightarrow> int \<Rightarrow> TransferJob list \<Rightarrow> fs_server \<Rightarrow> int list \<times> TransferJob list \<times> fs_server" where
  "read_tick_loop x limits conn [] st = ([], [], st)"
| "read_tick_loop x limits conn (j # js) st =
     (if is_last_job j then
        (case read_tick_loop x limits conn js st of (fin, js, st) \<Rightarrow> (fin, j # js, st))
      else
        case init_read_job_for_cm j conn st of
          (Inl e, j, st) \<Rightarrow>
            (case read_tick_loop x limits conn js (tell (FileReadError (job_id j) (file_num j) e conn) st) of
               (fin, js, st) \<Rightarrow> (job_id j # fin, j # js, st))
        | (Inr _, j, st) \<Rightarrow>
            (case read_block x limits j (disk st) of
               (Inl e, j) \<Rightarrow> ([job_id j], j # js, tell (FileReadError (job_id j) (file_num j) e conn) st)
             | (Inr (Some b), j) \<Rightarrow>
                 ([], j # js, tell (FileBlockFromCM (blk_id b) (blk_file_num b) (blk_data b) (blk_compressed b) conn) st)
             | (Inr None, j) \<Rightarrow>
                 if job_completed j then
                   ([job_id j], j # js,
                    tell (case job_error j of
                            Some err \<Rightarrow> FileReadError (job_id j) (file_num j) (Bail err) conn
                          | None \<Rightarrow> FileReadDone (job_id j) (file_num j) conn) st)
                 else ([], j # js, st)))"

definition handle_read_jobs_tick :: "ext_funs \<Rightarrow> (nat \<Rightarrow> nat) \<Rightarrow> int \<Rightarrow> fs_server \<Rightarrow> fs_server" where
  "handle_read_jobs_tick x limits conn st =
     (case read_tick_loop x limits conn (read_jobs st) st of
        (fin, js, st) \<Rightarrow> st\<lparr>read_jobs := fold (\<lambda>i js. snd (remove_job i js)) fin js\<rparr>)"

section \<open>Write jobs\<close>

definition serve_new_write :: "string \<Rightarrow> int \<Rightarrow> int \<Rightarrow> (string \<times> nat) list \<Rightarrow> bool \<Rightarrow> nat \<Rightarrow> int \<Rightarrow> fs_server \<Rightarrow> fs_server" where
  "serve_new_write path i n fl od total_sz conn st =
     (case validate_transfer_file_names fl of
        Inl e \<Rightarrow> send_raw_msg (new_error i e n) st
      | Inr _ \<Rightarrow>
          (let es = map (\<lambda>f. FileEntry_default\<lparr>fe_name := fst f, modified_time := snd f\<rparr>) fl;
               job = new_write i Generic [] (FilePath path) n False False es od
           in st\<lparr>write_jobs := write_jobs st @ [job\<lparr>total_size := total_sz, conn_id := conn\<rparr>]\<rparr>))"

definition check_digest :: "ext_funs \<Rightarrow> int \<Rightarrow> int \<Rightarrow> nat \<Rightarrow> nat \<Rightarrow> bool \<Rightarrow> bool \<Rightarrow> fs_server \<Rightarrow> fs_server" where
  "check_digest x i n file_size last_modified upload resume st =
     (case get_job i (write_jobs st) of
        None \<Rightarrow> st
      | Some job \<Rightarrow>
          (let d = FileTransferDigest_default\<lparr>ftd_id := i, ftd_file_num := n, ftd_last_modified := last_modified,
                     ftd_file_size := file_size\<rparr>;
               k = i32_as_usize n
           in if k < length (files job) then
                (case data_source job of
                   MemoryCursor _ _ \<Rightarrow> st
                 | FilePath p \<Rightarrow>
                     (case is_write_need_confirmation x resume (job_join p (fe_name (files job ! k))) d (disk st) of
                        Inl e \<Rightarrow> send_raw_msg (new_error i e n) st
                      | Inr r \<Rightarrow>
                          (let st = st\<lparr>write_jobs := put_job (set_digest file_size last_modified job) (write_jobs st)\<rparr>
                           in case r of
                                IsSame \<Rightarrow> send_raw_msg (new_send_confirm \<lparr>req_id = i, req_file_num = n, req_union = Some (Skip True)\<rparr>) st
                              | NeedConfirm dg \<Rightarrow> send_raw_msg (MsgDigest (dg\<lparr>ftd_is_upload := upload\<rparr>)) st
                              | NoSuchFile \<Rightarrow>
                                  send_raw_msg (new_send_confirm \<lparr>req_id = i, req_file_num = n, req_union = Some (OffsetBlk 0)\<rparr>) st)))
              else st))"

section \<open>The dispatcher\<close>

text \<open>Its surroundings: the home directory, the file-count option, the codec.\<close>

record fs_env =
  home_dir :: string
  max_files_opt :: string
  ext :: ext_funs

fun handle_fs :: "fs_env \<Rightarrow> FS \<Rightarrow> fs_server \<Rightarrow> fs_server option" where
  "handle_fs v (ReadEmptyDirs dir hidden) st = Some (serve_read_empty_dirs dir hidden st)"
| "handle_fs v (ReadDir dir hidden) st = Some (serve_read_dir (home_dir v) dir hidden st)"
| "handle_fs v (RemoveDir path i recursive) st = Some (serve_remove_dir path i recursive st)"
| "handle_fs v (RemoveFile path i n) st = Some (serve_remove_file path i n st)"
| "handle_fs v (CreateDir path i) st = Some (serve_create_dir path i st)"
| "handle_fs v (NewWrite path i n fl od total_sz conn) st = Some (serve_new_write path i n fl od total_sz conn st)"
| "handle_fs v (CancelWrite i) st =
     (case remove_job i (write_jobs st) of
        (Some job, js) \<Rightarrow> Some (st\<lparr>write_jobs := js, disk := remove_download_file job (disk st)\<rparr>)
      | (None, _) \<Rightarrow> Some st)"
| "handle_fs v (WriteDone i n) st =
     (case remove_job i (write_jobs st) of
        (Some job, js) \<Rightarrow>
          Some (send_raw_msg (new_done i n) (st\<lparr>write_jobs := js, disk := modify_time job (disk st)\<rparr>))
      | (None, _) \<Rightarrow> Some st)"
| "handle_fs v (WriteError i n err) st =
     (case remove_job i (write_jobs st) of
        (Some job, js) \<Rightarrow> Some (send_raw_msg (new_error (job_id job) (Bail err) n) (st\<lparr>write_jobs := js\<rparr>))
      | (None, _) \<Rightarrow> Some st)"
| "handle_fs v (WriteBlock i n data compressed) st =
     (case get_job i (write_jobs st) of
        Some job \<Rightarrow>
          (case write_block (ext v) \<lparr>blk_id = i, blk_file_num = n, blk_data = data, blk_compressed = compressed\<rparr> job (disk st) of
             (r, job, d) \<Rightarrow>
               (let st = st\<lparr>write_jobs := put_job job (write_jobs st), disk := d\<rparr>
                in case r of Inl err \<Rightarrow> Some (send_raw_msg (new_error i err n) st) | Inr _ \<Rightarrow> Some st))
      | None \<Rightarrow> Some st)"
| "handle_fs v (CheckDigest i n file_size last_modified upload resume) st =
     Some (check_digest (ext v) i n file_size last_modified upload resume st)"
| "handle_fs v (SendConfirm req) st =
     (case req of
        None \<Rightarrow> Some st
      | Some r \<Rightarrow>
          (case get_job (req_id r) (write_jobs st) of
             None \<Rightarrow> Some st
           | Some job \<Rightarrow>
               map_option (\<lambda>(job, d). st\<lparr>write_jobs := put_job job (write_jobs st), disk := d\<rparr>) (confirm r job (disk st))))"
| "handle_fs v (Rename i path new_name) st = Some (serve_rename_file path new_name i st)"
| "handle_fs v (ReadFile path i n hidden conn od) st = Some (start_read_job (max_files_opt v) path n hidden i conn od st)"
| "handle_fs v (CancelRead i conn) st = Some (st\<lparr>read_jobs := snd (remove_job i (read_jobs st))\<rparr>)"
| "handle_fs v (SendConfirmForRead i n skip offset_blk conn) st =
     (case get_job i (read_jobs st) of
        None \<Rightarrow> Some st
      | Some job \<Rightarrow>
          map_option (\<lambda>(job, d). st\<lparr>read_jobs := put_job job (read_jobs st), disk := d\<rparr>)
            (confirm \<lparr>req_id = i, req_file_num = file_num job,
               req_union = Some (if skip then Skip True else OffsetBlk offset_blk)\<rparr> job (disk st)))"
| "handle_fs v (ReadAllFiles path i hidden conn) st = Some (read_all_files (max_files_opt v) path hidden i conn st)"
| "handle_fs v (WriteOffset i n off) st = Some st"

section \<open>Validated names stay below the destination\<close>

lemma split_char_append_sep: "split_char c (a @ c # b) = split_char c a @ split_char c b"
proof (induction a)
  case (Cons x xs)
  then show ?case by (cases "split_char c xs") auto
qed simp

lemma split_char_suffix:
  "c \<notin> set s \<Longrightarrow> split_char c (a @ s) = butlast (split_char c a) @ [last (split_char c a) @ s]"
proof (induction a)
  case (Cons x xs)
  then show ?case by (cases "split_char c xs") auto
qed (simp add: split_char_absent)


lemma foldl_resolve: "''..'' \<notin> set cs \<Longrightarrow> foldl (resolve_step a) acc cs = acc @ cs"
  by (induction cs arbitrary: acc) (auto simp: resolve_step_def)

text \<open>A slash-separated component of a name is also a component when backslashes separate.\<close>

lemma dotdot_component:
  "''..'' \<in> set (split_char CHR ''/'' name) \<Longrightarrow>
   ''..'' \<in> set (split_char CHR ''/'' (map (\<lambda>c. if c = CHR 0x5C then CHR ''/'' else c) name))"
proof -
  let ?f = "\<lambda>c. if c = CHR 0x5C then CHR ''/'' else c"
  assume "''..'' \<in> set (split_char CHR ''/'' name)"
  then show ?thesis
  proof (induction "length name" arbitrary: name rule: less_induct)
    case less
    show ?case
    proof (cases "CHR ''/'' \<in> set name")
      case False
      then have "name = ''..''" using less.prems by (simp add: split_char_absent)
      then show ?thesis by simp
    next
      case True
      then obtain a b where ab: "name = a @ CHR ''/'' # b" "CHR ''/'' \<notin> set a" by (metis split_list_first)
      then have "split_char CHR ''/'' name = a # split_char CHR ''/'' b" by (simp add: split_char_append)
      with less.prems consider "a = ''..''" | "''..'' \<in> set (split_char CHR ''/'' b)" by auto
      then show ?thesis
      proof cases
        case 1
        then show ?thesis unfolding ab by simp
      next
        case 2
        then have "''..'' \<in> set (split_char CHR ''/'' (map ?f b))" using less.hyps [of b] ab by simp
        then show ?thesis unfolding ab by (simp add: split_char_append_sep)
      qed
    qed
  qed
qed

lemma path_comps_sep: "path_comps (a @ CHR ''/'' # b) = path_comps a @ path_comps b"
  by (simp add: path_comps_def split_char_append_sep)

lemma path_comps_path_join:
  assumes "\<not> starts_with name ''/''"
  shows "path_comps (path_join p name) = path_comps p @ path_comps name"
    "starts_with (path_join p name) ''/'' = starts_with p ''/''"
proof -
  have nil: "path_comps [] = []" by (simp add: path_comps_def)
  show "path_comps (path_join p name) = path_comps p @ path_comps name"
  proof (cases "p \<noteq> [] \<and> last p = CHR ''/''")
    case True
    then obtain q where q: "p = q @ [CHR ''/'']" by (metis append_butlast_last_id)
    have "path_comps p = path_comps q" unfolding q using path_comps_sep [of q "[]"] nil by simp
    moreover have "path_join p name = q @ CHR ''/'' # name" using assms True q by (simp add: path_join_def)
    ultimately show ?thesis by (simp add: path_comps_sep)
  next
    case False
    then show ?thesis using assms by (auto simp: path_join_def path_comps_sep nil)
  qed
  show "starts_with (path_join p name) ''/'' = starts_with p ''/''"
    using assms by (cases p) (auto simp: path_join_def)
qed

lemma under_join:
  assumes "\<not> starts_with name ''/''" "''..'' \<notin> set (path_comps name)"
  shows "under (path_key p) (path_key (path_join p name))"
  unfolding under_def path_key_def Let_def path_comps_path_join [OF assms(1)]
  by (simp add: foldl_resolve [OF assms(2)])

lemma validated_name:
  assumes "validate_file_name_no_traversal name = Inr ()" "name \<noteq> []" "CHR ''/'' \<notin> set suf" "suf = [] \<or> length suf > 2"
  shows "under (path_key p) (path_key (job_join p name @ suf))"
proof -
  have abs: "\<not> starts_with name ''/''" and dd: "''..'' \<notin> set (split_char CHR ''/'' name)"
    using assms(1) dotdot_component [of name]
    by (auto simp: validate_file_name_no_traversal_def list_ex_iff split: if_splits)
  have "job_join p name @ suf = path_join p (name @ suf)"
    using abs assms(2) by (simp add: job_join_def path_join_def)
  moreover have "''..'' \<notin> set (path_comps (name @ suf))"
  proof -
    have "last (split_char CHR ''/'' name) @ suf \<noteq> ''..''"
      using assms(4) dd by (metis append_Nil2 last_in_set length_append length_Cons list.size(3) not_add_less2 numeral_2_eq_2 split_char_nonempty)
    moreover have "''..'' \<notin> set (butlast (split_char CHR ''/'' name))" using dd by (meson in_set_butlastD)
    ultimately show ?thesis by (auto simp: path_comps_def split_char_suffix [OF assms(3)])
  qed
  moreover have "\<not> starts_with (name @ suf) ''/''" using abs assms(2) by simp
  ultimately show ?thesis using under_join by simp
qed

lemma validate_names_all: "validate_names fl = Inr () \<Longrightarrow> (n, t) \<in> set fl \<Longrightarrow> n \<noteq> [] \<and> validate_file_name_no_traversal n = Inr ()"
  by (induction fl rule: validate_names.induct) (auto split: if_splits sum.splits)

lemma path_entries_under:
  assumes "validate_file_name_no_traversal n = Inr ()" "n \<noteq> []"
  shows "\<forall>k \<in> set (path_entries (job_join p n)). under (path_key p) k"
  using validated_name [OF assms, of "[]" p] validated_name [OF assms, of "''.download''" p] validated_name [OF assms, of "''.digest''" p]
  by (simp add: path_entries_def download_path_def digest_path_def)

section \<open>What a write job touches\<close>

fun is_link :: "node \<Rightarrow> bool" where
  "is_link (Symlink _ _) = True"
| "is_link _ = False"

definition no_links :: "file_sys \<Rightarrow> bool" where
  "no_links fs \<longleftrightarrow> (\<forall>e \<in> set (names fs). \<not> is_link (snd e))"

definition inside :: "key set \<Rightarrow> key \<Rightarrow> bool" where
  "inside R k \<longleftrightarrow> (\<exists>t \<in> R. under t k)"

text \<open>
  \<open>sealed R I fs\<close>: there are no links, and the inodes of the entries at or below \<open>R\<close> and the
  inodes not yet allocated are in \<open>I\<close>.  \<open>frame R I fs fs'\<close>: in addition, entries outside
  \<open>R\<close> keep their node (the only new ones are directories) and inodes outside \<open>I\<close> their
  content.
\<close>

definition sealed :: "key set \<Rightarrow> nat set \<Rightarrow> file_sys \<Rightarrow> bool" where
  "sealed R I fs \<longleftrightarrow> no_links fs \<and> (\<forall>k i. (k, RegFile i) \<in> set (names fs) \<longrightarrow> inside R k \<longrightarrow> i \<in> I) \<and>
     (\<forall>i \<ge> next_ino fs. i \<in> I)"

definition frame :: "key set \<Rightarrow> nat set \<Rightarrow> file_sys \<Rightarrow> file_sys \<Rightarrow> bool" where
  "frame R I fs fs' \<longleftrightarrow> sealed R I fs' \<and>
     (\<forall>k. \<not> inside R k \<longrightarrow>
        node_of fs' k = node_of fs k \<or> (node_of fs k = None \<and> (\<exists>m. node_of fs' k = Some (Directory m)))) \<and>
     (\<forall>i. i \<notin> I \<longrightarrow> hm_get (inodes fs') i = hm_get (inodes fs) i)"

lemma frame_refl: "sealed R I fs \<Longrightarrow> frame R I fs fs"
  by (simp add: frame_def)

lemma frame_trans: "\<lbrakk>frame R I fs fs1; frame R I fs1 fs2\<rbrakk> \<Longrightarrow> frame R I fs fs2"
  unfolding frame_def by (intro conjI) metis+

lemma frame_sealed: "frame R I fs fs' \<Longrightarrow> sealed R I fs'"
  by (simp add: frame_def)

lemma under_refl [simp]: "under k k"
  by (simp add: under_def)

lemma under_trans: "\<lbrakk>under a b; under b c\<rbrakk> \<Longrightarrow> under a c"
  by (auto simp: under_def)

lemma inside_under: "\<lbrakk>inside R a; under a k\<rbrakk> \<Longrightarrow> inside R k"
  unfolding inside_def using under_trans by blast

lemma node_of_in: "\<lbrakk>node_of fs k = Some n; snd k \<noteq> []\<rbrakk> \<Longrightarrow> (k, n) \<in> set (names fs)"
  by (auto simp: node_of_def hm_get_def dest: map_of_SomeD)

lemma node_of_file_in: "node_of fs k = Some (RegFile i) \<Longrightarrow> (k, RegFile i) \<in> set (names fs)"
  by (auto simp: node_of_def hm_get_def split: if_splits dest: map_of_SomeD)

lemma sealed_ino: "\<lbrakk>sealed R I fs; node_of fs k = Some (RegFile i); inside R k\<rbrakk> \<Longrightarrow> i \<in> I"
  unfolding sealed_def using node_of_file_in by blast

lemma no_links_node: "no_links fs \<Longrightarrow> node_of fs k \<noteq> Some (Symlink t m)"
  by (force simp: no_links_def node_of_def hm_get_def split: if_splits dest!: map_of_SomeD)

lemma sealed_resolve: "sealed R I fs \<Longrightarrow> fs_resolve fs p = Some (path_key p)"
proof -
  assume "sealed R I fs"
  then have "follow (Suc 39) fs (path_key p) = Some (path_key p)"
    unfolding follow.simps by (auto simp: sealed_def no_links_node split: option.splits node.splits)
  then show ?thesis by (simp add: fs_resolve_def eval_nat_numeral)
qed

lemma sealed_node: "sealed R I fs \<Longrightarrow> node_of fs k \<noteq> Some (Symlink t m)"
  by (simp add: sealed_def no_links_node)

lemma set_hm_insert: "set (hm_insert k v m) \<subseteq> insert (k, v) (set m)"
  by (induction m) (auto simp: hm_insert_def)

lemma set_hm_remove: "set (hm_remove k m) \<subseteq> set m"
  by (auto simp: hm_remove_def AList.delete_eq)

lemma sealed_names:
  assumes "sealed R I fs" "\<And>k n. (k, n) \<in> set ns \<Longrightarrow> \<not> is_link n \<and> (\<forall>i. n = RegFile i \<longrightarrow> inside R k \<longrightarrow> i \<in> I)"
  shows "sealed R I (fs\<lparr>names := ns\<rparr>)"
  using assms unfolding sealed_def no_links_def by auto

lemma sealed_entry: "\<lbrakk>sealed R I fs; (k, n) \<in> set (names fs)\<rbrakk> \<Longrightarrow> \<not> is_link n \<and> (\<forall>i. n = RegFile i \<longrightarrow> inside R k \<longrightarrow> i \<in> I)"
  unfolding sealed_def no_links_def by (metis snd_conv)

lemma frame_insert:
  assumes "sealed R I fs" "inside R k" "\<not> is_link n" "\<And>i. n = RegFile i \<Longrightarrow> i \<in> I"
  shows "frame R I fs (fs\<lparr>names := hm_insert k n (names fs)\<rparr>)"
proof -
  have "sealed R I (fs\<lparr>names := hm_insert k n (names fs)\<rparr>)"
    using set_hm_insert [of k n "names fs"] assms(3,4) sealed_entry [OF assms(1)] by (intro sealed_names [OF assms(1)]) blast
  then show ?thesis using assms(2) by (auto simp: frame_def node_of_def)
qed

lemma frame_remove:
  assumes "sealed R I fs" "inside R k"
  shows "frame R I fs (fs\<lparr>names := hm_remove k (names fs)\<rparr>)"
proof -
  have "sealed R I (fs\<lparr>names := hm_remove k (names fs)\<rparr>)"
    using set_hm_remove [of k "names fs"] sealed_entry [OF assms(1)] by (intro sealed_names [OF assms(1)]) blast
  then show ?thesis using assms(2) by (auto simp: frame_def node_of_def)
qed

lemma frame_inode: "\<lbrakk>sealed R I fs; i \<in> I\<rbrakk> \<Longrightarrow> frame R I fs (fs\<lparr>inodes := hm_insert i c (inodes fs)\<rparr>)"
  by (auto simp: frame_def sealed_def no_links_def)

lemma frame_next: "sealed R I fs \<Longrightarrow> frame R I fs (fs\<lparr>next_ino := next_ino fs + 1\<rparr>)"
  by (auto simp: frame_def sealed_def no_links_def node_of_def)

lemma remove_file_frame: "\<lbrakk>sealed R I fs; inside R (path_key p)\<rbrakk> \<Longrightarrow> frame R I fs (snd (fs_remove_file p fs))"
  by (auto simp: fs_remove_file_def Let_def frame_refl split: option.splits node.splits if_splits intro!: frame_remove)

text \<open>A handle that writes only to \<open>I\<close>.\<close>

definition handle_in :: "nat set \<Rightarrow> file_handle \<Rightarrow> bool" where
  "handle_in I h \<longleftrightarrow> (\<forall>i. h_ino h = Some i \<longrightarrow> h_write h \<longrightarrow> i \<in> I)"

lemma open_write_frame:
  assumes "sealed R I fs" "inside R (path_key p)"
  shows "frame R I fs (snd (file_open_write trunc p fs)) \<and> (\<forall>h. fst (file_open_write trunc p fs) = Inr h \<longrightarrow> handle_in I h)"
proof -
  let ?k = "path_key p" and ?i = "next_ino fs"
  have i: "?i \<in> I" using assms(1) by (simp add: sealed_def)
  note f1 = frame_insert [OF assms, of "RegFile ?i"]
  have new: "frame R I fs (fs\<lparr>names := hm_insert ?k (RegFile ?i) (names fs), inodes := hm_insert ?i c (inodes fs), next_ino := ?i + 1\<rparr>)" for c
    using frame_trans [OF f1 frame_trans [OF frame_inode [OF frame_sealed [OF f1] i, of c] frame_next [OF frame_sealed [OF frame_inode [OF frame_sealed [OF f1] i, of c]]]]] i
    by simp
  show ?thesis
    using assms new i frame_inode [OF assms(1)] sealed_ino [OF assms(1) _ assms(2)]
    by (auto simp: file_open_write_def sealed_resolve frame_refl handle_in_def split: option.splits node.splits if_splits)
qed

lemma write_all_frame:
  assumes "sealed R I fs" "handle_in I h"
  shows "frame R I fs (snd (file_write_all d h fs)) \<and> (\<forall>h'. fst (file_write_all d h fs) = Inr h' \<longrightarrow> handle_in I h')"
  using assms by (auto simp: file_write_all_def frame_refl frame_inode handle_in_def split: option.splits)

lemma fs_write_frame:
  assumes "sealed R I fs" "inside R (path_key p)"
  shows "frame R I fs (snd (fs_write p d fs))"
proof -
  obtain r fs1 where 1: "file_create p fs = (r, fs1)" by (cases "file_create p fs")
  have f1: "frame R I fs fs1" "\<And>h. r = Inr h \<Longrightarrow> handle_in I h" using open_write_frame [OF assms, of True] 1 by (simp_all add: file_create_def)
  have "frame R I fs (snd (file_write_all d h fs1))" if "r = Inr h" for h
    using frame_trans [OF f1(1)] write_all_frame [OF frame_sealed [OF f1(1)] f1(2) [OF that]] by blast
  with f1 1 show ?thesis by (auto simp: fs_write_def split: sum.splits prod.splits)
qed

lemma set_mtime_frame: "\<lbrakk>sealed R I fs; inside R (path_key p)\<rbrakk> \<Longrightarrow> frame R I fs (fs_set_mtime p t fs)"
  by (auto simp: fs_set_mtime_def sealed_resolve frame_refl sealed_ino frame_inode split: option.splits node.splits intro!: frame_insert)

lemma get_move:
  "\<lbrakk>\<not> under a k; \<not> under b k\<rbrakk> \<Longrightarrow> map_of (map (\<lambda>(k, n). (move_key a b k, n)) ns) k = map_of ns k"
  by (induction ns) (auto simp: move_key_def under_def prefix_def split: if_splits)

lemma frame_move:
  assumes "sealed R I fs" "inside R a" "inside R b"
  shows "frame R I fs (fs\<lparr>names := map (\<lambda>(k, n). (move_key a b k, n)) (names fs)\<rparr>)"
proof -
  have "sealed R I (fs\<lparr>names := map (\<lambda>(k, n). (move_key a b k, n)) (names fs)\<rparr>)"
  proof (rule sealed_names [OF assms(1)])
    fix k n assume "(k, n) \<in> set (map (\<lambda>(k, n). (move_key a b k, n)) (names fs))"
    then obtain k0 where k0: "(k0, n) \<in> set (names fs)" "k = move_key a b k0" by auto
    have "inside R k0" if "inside R k" using that k0(2) inside_under [OF assms(2)] by (auto simp: move_key_def split: if_splits)
    with sealed_entry [OF assms(1) k0(1)] show "\<not> is_link n \<and> (\<forall>i. n = RegFile i \<longrightarrow> inside R k \<longrightarrow> i \<in> I)" by blast
  qed
  moreover have "node_of (fs\<lparr>names := map (\<lambda>(k, n). (move_key a b k, n)) (names fs)\<rparr>) k = node_of fs k"
    if "\<not> inside R k" for k
  proof -
    have "\<not> under a k" "\<not> under b k" using that inside_under assms(2,3) by blast+
    from get_move [OF this, of "names fs"] show ?thesis by (simp add: node_of_def hm_get_def)
  qed
  ultimately show ?thesis by (simp add: frame_def)
qed

lemma rename_frame:
  assumes "sealed R I fs" "inside R (path_key p)" "inside R (path_key q)"
  shows "frame R I fs (snd (fs_rename p q fs))"
proof -
  let ?a = "path_key p" and ?b = "path_key q"
  note rm = frame_remove [OF assms(1)]
  have ins: "frame R I fs (fs\<lparr>names := hm_insert ?b n (hm_remove ?a (names fs))\<rparr>)" if "node_of fs ?a = Some n" "snd ?a \<noteq> []" for n
    using frame_trans [OF rm [OF assms(2)] frame_insert [OF frame_sealed [OF rm [OF assms(2)]] assms(3), of n]]
      sealed_entry [OF assms(1) node_of_in [OF that]] assms(2) by simp
  have mv: "frame R I fs (fs\<lparr>names := map (\<lambda>(k, n). (move_key ?a ?b k, n)) (hm_remove ?b (names fs))\<rparr>)"
    using frame_trans [OF rm [OF assms(3)] frame_move [OF frame_sealed [OF rm [OF assms(3)]] assms(2,3)]] by simp
  show ?thesis
    using ins mv frame_move [OF assms] frame_refl [OF assms(1)]
    by (simp add: fs_rename_def Let_def split: option.splits node.splits)
qed

lemma make_dirs_frame: "sealed R I fs \<Longrightarrow> frame R I fs (snd (make_dirs a acc cs fs))"
proof (induction cs arbitrary: acc fs)
  case (Cons c cs)
  let ?k = "(a, acc @ [c])"
  let ?fs = "fs\<lparr>names := hm_insert ?k (Directory (clock fs)) (names fs)\<rparr>"
  have "sealed R I ?fs"
    using set_hm_insert [of ?k "Directory (clock fs)" "names fs"] sealed_entry [OF Cons.prems]
    by (intro sealed_names [OF Cons.prems]) fastforce
  moreover have "frame R I fs ?fs" if "node_of fs ?k = None"
    unfolding frame_def using \<open>sealed R I ?fs\<close> that by simp
  ultimately have "frame R I fs (snd (make_dirs a (acc @ [c]) cs ?fs))" if "node_of fs ?k = None"
    using Cons.IH [of ?fs "acc @ [c]"] that frame_trans by blast
  with Cons.IH [OF Cons.prems] frame_refl [OF Cons.prems] show ?case
    by (simp add: Let_def split: option.splits node.splits)
qed (simp add: frame_refl)

lemma create_dir_all_frame: "sealed R I fs \<Longrightarrow> frame R I fs (snd (fs_create_dir_all p fs))"
  by (simp add: fs_create_dir_all_def make_dirs_frame)

section \<open>The frame of a write job\<close>

definition job_entries :: "TransferJob \<Rightarrow> key set" where
  "job_entries j = (case data_source j of FilePath p \<Rightarrow> set (target_entries p (files j)) | MemoryCursor _ _ \<Rightarrow> {})"

fun stream_in :: "nat set \<Rightarrow> DataStream option \<Rightarrow> bool" where
  "stream_in I (Some (FileStream h)) = handle_in I h"
| "stream_in I _ = True"

text \<open>A job that works below \<open>R\<close> and writes only to \<open>I\<close>.\<close>

definition job_within :: "key set \<Rightarrow> nat set \<Rightarrow> TransferJob \<Rightarrow> bool" where
  "job_within R I j \<longleftrightarrow> job_type j = Generic \<and> (\<forall>k \<in> job_entries j. inside R k) \<and> stream_in I (data_stream j)"

definition same_job :: "TransferJob \<Rightarrow> TransferJob \<Rightarrow> bool" where
  "same_job j j' \<longleftrightarrow> job_id j' = job_id j \<and> job_type j' = job_type j \<and> data_source j' = data_source j \<and> files j' = files j"

lemma same_job_within:
  assumes "job_within R I j" "same_job j j'" "stream_in I (data_stream j')"
  shows "job_within R I j'"
proof -
  have "job_entries j' = job_entries j" using assms(2) by (auto simp: same_job_def job_entries_def split: DataSource.splits)
  with assms show ?thesis unfolding job_within_def same_job_def by metis
qed

lemma job_withinD:
  assumes "job_within R I j" "data_source j = FilePath p" "n < length (files j)"
  shows "inside R (path_key (job_join p (fe_name (files j ! n))))"
    "inside R (path_key (download_path (job_join p (fe_name (files j ! n)))))"
    "inside R (path_key (digest_path (job_join p (fe_name (files j ! n)))))"
proof -
  have "inside R k" if "k \<in> set (target_entries p (files j))" for k
    using assms(1,2) that unfolding job_within_def job_entries_def by simp
  with target_entriesI [OF assms(3), of p] show "inside R (path_key (job_join p (fe_name (files j ! n))))"
    "inside R (path_key (download_path (job_join p (fe_name (files j ! n)))))"
    "inside R (path_key (digest_path (job_join p (fe_name (files j ! n)))))"
    unfolding target_path_def by blast+
qed

lemma modify_time_frame:
  assumes "sealed R I fs" "job_within R I j"
  shows "frame R I fs (modify_time j fs)"
proof (cases "data_source j")
  case (FilePath p)
  let ?n = "i32_as_usize (file_num j)"
  show ?thesis
  proof (cases "?n < length (files j)")
    case True
    note mem = job_withinD [OF assms(2) FilePath True]
    note f1 = remove_file_frame [OF assms(1) mem(3)]
    note f2 = rename_frame [OF frame_sealed [OF f1] mem(2,1)]
    note f3 = set_mtime_frame [OF frame_sealed [OF f2] mem(1)]
    from frame_trans [OF frame_trans [OF f1 f2] f3] True FilePath assms show ?thesis
      by (simp add: modify_time_def Let_def frame_refl)
  qed (use FilePath frame_refl [OF assms(1)] in \<open>simp add: modify_time_def Let_def\<close>)
qed (simp add: modify_time_def frame_refl [OF assms(1)])

lemma remove_download_file_frame:
  assumes "sealed R I fs" "job_within R I j"
  shows "frame R I fs (remove_download_file j fs)"
proof (cases "data_source j")
  case (FilePath p)
  let ?n = "i32_as_usize (file_num j)"
  show ?thesis
  proof (cases "?n < length (files j)")
    case True
    note mem = job_withinD [OF assms(2) FilePath True]
    note f1 = remove_file_frame [OF assms(1) mem(2)]
    note f2 = remove_file_frame [OF frame_sealed [OF f1] mem(3)]
    from frame_trans [OF f1 f2] True FilePath assms show ?thesis by (simp add: remove_download_file_def Let_def frame_refl)
  qed (use FilePath frame_refl [OF assms(1)] in \<open>simp add: remove_download_file_def Let_def\<close>)
qed (simp add: remove_download_file_def frame_refl [OF assms(1)])

lemma write_open_frame:
  assumes "sealed R I fs" "job_within R I j" "write_open x b j fs = (r, j', fs')"
  shows "frame R I fs fs' \<and> same_job j j' \<and> stream_in I (data_stream j')"
proof (cases "data_source j")
  case (FilePath p)
  let ?n = "i32_as_usize (blk_file_num b)"
  let ?path = "job_join p (fe_name (files j ! ?n))"
  show ?thesis
  proof (cases "?n < length (files j) \<and> (?n \<noteq> i32_as_usize (file_num j) \<or> data_stream j = None)")
    case False
    then show ?thesis using assms FilePath
      by (auto simp: write_open_def Let_def frame_refl same_job_def job_within_def split: if_splits)
  next
    case True
    note mem = job_withinD [OF assms(2) FilePath conjunct1 [OF True]]
    define fs1 where "fs1 = modify_time j fs"
    define fs2 where "fs2 = (case path_parent ?path of Some pp \<Rightarrow> snd (fs_create_dir_all pp fs1) | None \<Rightarrow> fs1)"
    define r3 where "r3 = (if fs_exists fs2 (digest_path ?path) then fs_remove_file (digest_path ?path) fs2 else (Inr (), fs2))"
    define r4 where "r4 = file_create (download_path ?path) (snd r3)"
    define fs5 where "fs5 = snd (fs_write (digest_path ?path) (digest_to_json x (digest j)) (snd r4))"
    have f1: "frame R I fs fs1" unfolding fs1_def by (rule modify_time_frame [OF assms(1,2)])
    have f2: "frame R I fs1 fs2"
      using create_dir_all_frame [OF frame_sealed [OF f1]] frame_refl [OF frame_sealed [OF f1]]
      by (simp add: fs2_def split: option.splits)
    have f3: "frame R I fs2 (snd r3)"
      using remove_file_frame [OF frame_sealed [OF f2] mem(3)] frame_refl [OF frame_sealed [OF f2]] by (simp add: r3_def)
    have f4: "frame R I (snd r3) (snd r4)" "\<forall>h. fst r4 = Inr h \<longrightarrow> handle_in I h"
      unfolding r4_def file_create_def using open_write_frame [OF frame_sealed [OF f3] mem(2)] by blast+
    have f5: "frame R I (snd r4) fs5"
      unfolding fs5_def by (rule fs_write_frame [OF frame_sealed [OF f4(1)] mem(3)])
    note f13 = frame_trans [OF frame_trans [OF f1 f2] f3]
    note f14 = frame_trans [OF f13 f4(1)]
    note f15 = frame_trans [OF f14 f5]
    have "fs' \<in> {snd r3, snd r4, fs5} \<and> same_job j j' \<and> (data_stream j' = data_stream j \<or> (\<exists>h. fst r4 = Inr h \<and> data_stream j' = Some (FileStream h)))"
      using assms(2,3) FilePath True unfolding fs5_def r4_def r3_def fs2_def fs1_def
      by (auto simp: write_open_def Let_def same_job_def job_within_def split: if_splits sum.splits prod.splits)
    with f13 f14 f15 f4(2) assms(2) show ?thesis by (auto simp: job_within_def)
  qed
next
  case (MemoryCursor buf pos)
  then show ?thesis using assms by (auto simp: write_open_def frame_refl same_job_def job_within_def)
qed

lemma stream_write_all_frame:
  assumes "sealed R I fs" "stream_in I (Some s)"
  shows "frame R I fs (snd (stream_write_all d s fs)) \<and> (\<forall>s'. fst (stream_write_all d s fs) = Inr s' \<longrightarrow> stream_in I (Some s'))"
proof (cases s)
  case (FileStream h)
  then show ?thesis using write_all_frame [OF assms(1), of h d] assms(2)
    by (auto simp: stream_write_all_def split: sum.splits prod.splits)
qed (simp add: stream_write_all_def frame_refl [OF assms(1)])

lemma write_data_frame:
  assumes "sealed R I fs" "stream_in I (data_stream j)" "write_data x b j fs = (r, j', fs')"
  shows "frame R I fs fs' \<and> same_job j j' \<and> stream_in I (data_stream j')"
proof (cases "data_stream j")
  case (Some s)
  with stream_write_all_frame [OF assms(1), of s] assms show ?thesis
    by (auto simp: write_data_def Let_def same_job_def split: sum.splits prod.splits) (metis fst_conv snd_conv)+
qed (use assms in \<open>auto simp: write_data_def Let_def frame_refl same_job_def\<close>)

lemma write_block_frame:
  assumes "sealed R I fs" "job_within R I j" "write_block x b j fs = (r, j', fs')"
  shows "frame R I fs fs' \<and> job_within R I j'"
proof -
  obtain r1 j1 fs1 where 1: "write_open x b j fs = (r1, j1, fs1)" by (cases "write_open x b j fs")
  note o = write_open_frame [OF assms(1,2) 1]
  obtain r2 j2 fs2 where 2: "write_data x b j1 fs1 = (r2, j2, fs2)" by (cases "write_data x b j1 fs1")
  have d: "frame R I fs1 fs2 \<and> same_job j1 j2 \<and> stream_in I (data_stream j2)"
    using write_data_frame [OF frame_sealed _ 2] o by blast
  have "same_job j j2" using o d by (simp add: same_job_def)
  with o d have "job_within R I j1" "job_within R I j2" "frame R I fs fs1" "frame R I fs fs2"
    using same_job_within [OF assms(2)] frame_trans by blast+
  with assms 1 2 show ?thesis by (auto simp: write_block_def frame_refl split: if_splits sum.splits)
qed

lemma set_stream_offset_frame:
  assumes "sealed R I fs" "job_within R I j" "set_stream_offset n off j fs = Some (j', fs')"
  shows "fs' = fs \<and> job_within R I j'"
proof (cases "data_source j")
  case (FilePath p)
  then have n: "n < length (files j)" using assms(3) by (auto simp: set_stream_offset_def split: if_splits)
  let ?d = "download_path (job_join p (fe_name (files j ! n)))"
  have ow: "snd (file_open_write False q fs) = fs" if "fs_exists fs q" for q
    using that by (auto simp: file_open_write_def fs_exists_def fs_stat_def split: option.splits node.splits)
  have hi: "\<forall>h. fst (file_open_write False ?d fs) = Inr h \<longrightarrow> handle_in I h"
    using open_write_frame [OF assms(1) job_withinD(2) [OF assms(2) FilePath n]] by blast
  have ho: "file_open q fs = Inr h \<Longrightarrow> handle_in I h" for q h
    by (auto simp: file_open_def handle_in_def split: option.splits if_splits node.splits)
  have "fs' = fs \<and> same_job j j' \<and> stream_in I (data_stream j')"
    using assms(2,3) FilePath n ow hi ho
    by (auto simp: set_stream_offset_def Let_def same_job_def job_within_def file_seek_def handle_in_def
        split: if_splits sum.splits option.splits prod.splits) (metis fst_conv snd_conv)+
  then show ?thesis using same_job_within [OF assms(2)] by blast
qed (use assms in \<open>simp add: set_stream_offset_def\<close>)

lemma confirm_frame:
  assumes "sealed R I fs" "job_within R I j" "confirm r j fs = Some (j', fs')"
  shows "fs' = fs \<and> job_within R I j'"
proof -
  have st: "stream_in I (data_stream j)" using assms(2) by (simp only: job_within_def)
  have c: "job_within R I (set_file_confirmed c j)" for c
    by (rule same_job_within [OF assms(2)]) (use st in \<open>simp_all add: same_job_def set_file_confirmed_def\<close>)
  have "job_within R I (set_file_skipped j)"
    by (rule same_job_within [OF assms(2)]) (use st in \<open>simp_all add: same_job_def set_file_skipped_def set_file_confirmed_def\<close>)
  with assms c set_stream_offset_frame [OF assms(1) c] show ?thesis
    by (auto simp: confirm_def Let_def split: if_splits option.splits confirm_union.splits)
qed

section \<open>A session of transfer requests\<close>

text \<open>Everything but the requests that name an entry to remove, create or rename.\<close>

fun is_transfer :: "FS \<Rightarrow> bool" where
  "is_transfer (RemoveDir _ _ _) = False"
| "is_transfer (RemoveFile _ _ _) = False"
| "is_transfer (CreateDir _ _) = False"
| "is_transfer (Rename _ _ _) = False"
| "is_transfer _ = True"

text \<open>The part of the disk a request opens for writing.\<close>

fun roots :: "FS \<Rightarrow> key set" where
  "roots (NewWrite path _ _ fl _ _ _) =
     (if is_single_file_with_empty_name fl then set (path_entries path) else {path_key path})"
| "roots _ = {}"

fun serve :: "fs_env \<Rightarrow> FS list \<Rightarrow> fs_server \<Rightarrow> fs_server option" where
  "serve v [] st = Some st"
| "serve v (r # rs) st = (case handle_fs v r st of None \<Rightarrow> None | Some st \<Rightarrow> serve v rs st)"

definition jobs_within :: "key set \<Rightarrow> nat set \<Rightarrow> TransferJob list \<Rightarrow> bool" where
  "jobs_within R I js \<longleftrightarrow> (\<forall>j \<in> set js. job_within R I j)"

lemma get_job_in: "get_job i js = Some j \<Longrightarrow> j \<in> set js \<and> job_id j = i"
  by (auto simp: get_job_def find_Some_iff)

lemma set_put_job: "set (put_job j js) \<subseteq> insert j (set js)"
  by (induction js) auto

lemma put_job_within: "\<lbrakk>jobs_within R I js; job_within R I j\<rbrakk> \<Longrightarrow> jobs_within R I (put_job j js)"
  using set_put_job [of j js] by (auto simp: jobs_within_def)

lemma remove_job_within: "\<lbrakk>remove_job i js = (r, js'); jobs_within R I js\<rbrakk> \<Longrightarrow> jobs_within R I js' \<and> (\<forall>j. r = Some j \<longrightarrow> job_within R I j)"
  by (induction js arbitrary: r js') (fastforce simp: jobs_within_def split: if_splits prod.splits)+

lemma new_write_entries:
  assumes "validate_transfer_file_names fl = Inr ()" "f \<in> set fl" "k \<in> set (path_entries (job_join path (fst f)))"
  shows "inside (roots (NewWrite path i n fl od sz conn)) k"
proof (cases "is_single_file_with_empty_name fl")
  case True
  then obtain t where "fl = [([], t)]" by (cases fl) (auto simp: is_single_file_with_empty_name_def)
  with assms(2,3) True have "k \<in> roots (NewWrite path i n fl od sz conn)" by (simp add: job_join_def)
  then show ?thesis unfolding inside_def using under_refl by blast
next
  case False
  then have "validate_names fl = Inr ()" using assms(1) by (simp add: validate_transfer_file_names_def)
  from validate_names_all [OF this] path_entries_under assms(2,3) have "under (path_key path) k" by (metis prod.collapse)
  then show ?thesis using False by (simp add: inside_def)
qed

lemma new_write_within:
  assumes "validate_transfer_file_names fl = Inr ()" "roots (NewWrite path i n fl od sz conn) \<subseteq> R"
  shows "job_within R I
    ((new_write i Generic [] (FilePath path) n False False (map (\<lambda>f. FileEntry_default\<lparr>fe_name := fst f, modified_time := snd f\<rparr>) fl) od)
       \<lparr>total_size := sz, conn_id := conn\<rparr>)"
proof -
  have "inside R k" if "f \<in> set fl" "k \<in> set (path_entries (job_join path (fst f)))" for f k
    using new_write_entries [OF assms(1) that] assms(2) unfolding inside_def by blast
  then show ?thesis
    unfolding job_within_def by (auto simp: job_entries_def new_write_def TransferJob_default_def target_entries_def simp del: split_paired_All)
qed

text \<open>One request keeps the jobs within the opened part and changes nothing else on the disk.\<close>

definition kept :: "key set \<Rightarrow> nat set \<Rightarrow> fs_server \<Rightarrow> fs_server \<Rightarrow> bool" where
  "kept R I st st' \<longleftrightarrow> jobs_within R I (write_jobs st') \<and> frame R I (disk st) (disk st')"

lemma tell_simps [simp]:
  "write_jobs (tell d st) = write_jobs st" "disk (tell d st) = disk st" "read_jobs (tell d st) = read_jobs st"
  "write_jobs (send_raw_msg m st) = write_jobs st" "disk (send_raw_msg m st) = disk st"
  by (simp_all add: tell_def send_raw_msg_def)

definition confined :: "key set \<Rightarrow> nat set \<Rightarrow> fs_server \<Rightarrow> bool" where
  "confined R I st \<longleftrightarrow> jobs_within R I (write_jobs st) \<and> sealed R I (disk st)"

lemma kept_same: "\<lbrakk>confined R I st; write_jobs st' = write_jobs st; disk st' = disk st\<rbrakk> \<Longrightarrow> kept R I st st'"
  by (simp add: kept_def confined_def frame_refl)

lemma kept_put:
  "\<lbrakk>confined R I st; job_within R I j; frame R I (disk st) d; write_jobs st' = put_job j (write_jobs st); disk st' = d\<rbrakk> \<Longrightarrow> kept R I st st'"
  by (simp add: kept_def confined_def put_job_within)

lemma kept_remove:
  "\<lbrakk>confined R I st; remove_job i (write_jobs st) = (r, write_jobs st'); frame R I (disk st) (disk st')\<rbrakk> \<Longrightarrow> kept R I st st'"
  by (simp add: kept_def confined_def remove_job_within)

lemma removed_job:
  assumes "confined R I st" "remove_job i (write_jobs st) = (Some j, js)"
  shows "frame R I (disk st) (modify_time j (disk st))" "frame R I (disk st) (remove_download_file j (disk st))"
proof -
  have "job_within R I j" using remove_job_within [OF assms(2)] assms(1) by (simp add: confined_def)
  then show "frame R I (disk st) (modify_time j (disk st))" "frame R I (disk st) (remove_download_file j (disk st))"
    using modify_time_frame remove_download_file_frame assms(1) unfolding confined_def by blast+
qed

lemma got_job: "\<lbrakk>confined R I st; get_job i (write_jobs st) = Some j\<rbrakk> \<Longrightarrow> job_within R I j"
  using get_job_in [of i "write_jobs st" j] by (simp add: confined_def jobs_within_def)

lemma new_write_kept:
  assumes "confined R I st" "roots (NewWrite path i n fl od sz conn) \<subseteq> R"
  shows "kept R I st (serve_new_write path i n fl od sz conn st)"
proof (cases "validate_transfer_file_names fl")
  case (Inl e)
  then show ?thesis by (intro kept_same [OF assms(1)]) (simp_all add: serve_new_write_def)
next
  case (Inr u)
  with new_write_within [OF _ assms(2), of I] assms(1) show ?thesis
    by (simp add: serve_new_write_def Let_def kept_def confined_def jobs_within_def frame_refl)
qed

lemma write_block_kept:
  assumes "confined R I st" "handle_fs v (WriteBlock i n data z) st = Some st'"
  shows "kept R I st st'"
proof (cases "get_job i (write_jobs st)")
  case None
  then show ?thesis using assms(2) kept_same [OF assms(1)] by simp
next
  case (Some job)
  obtain q job' d where w: "write_block (ext v) \<lparr>blk_id = i, blk_file_num = n, blk_data = data, blk_compressed = z\<rparr> job (disk st) = (q, job', d)"
    using prod_cases3 by blast
  have "frame R I (disk st) d \<and> job_within R I job'"
    using write_block_frame [OF _ got_job [OF assms(1) Some] w] assms(1) by (simp add: confined_def)
  with kept_put [OF assms(1)] assms(2) Some w show ?thesis by (auto simp: Let_def split: sum.splits)
qed

lemma check_digest_kept:
  assumes "confined R I st"
  shows "kept R I st (check_digest x i n sz t up res st)"
proof -
  have "job_within R I (set_digest a b j)" if "get_job i (write_jobs st) = Some j" for a b j
  proof (rule same_job_within [OF got_job [OF assms that]])
    show "stream_in I (data_stream (set_digest a b j))"
      using got_job [OF assms that] unfolding job_within_def by (simp add: set_digest_def)
  qed (simp add: same_job_def set_digest_def)
  then have "kept R I st (send_raw_msg m (st\<lparr>write_jobs := put_job (set_digest a b j) (write_jobs st)\<rparr>))"
    if "get_job i (write_jobs st) = Some j" for m a b j
    using that assms by (intro kept_put [OF assms _ frame_refl]) (auto simp: confined_def)
  with kept_same [OF assms] assms show ?thesis
    by (auto simp: check_digest_def Let_def confined_def split: option.splits DataSource.splits sum.splits DigestCheckResult.splits)
qed

lemma send_confirm_kept:
  assumes "confined R I st" "handle_fs v (SendConfirm req) st = Some st'"
  shows "kept R I st st'"
proof -
  have s: "sealed R I (disk st)" using assms(1) by (simp add: confined_def)
  have "kept R I st (st\<lparr>write_jobs := put_job j' (write_jobs st), disk := d\<rparr>)"
    if "get_job (req_id r) (write_jobs st) = Some j" "confirm r j (disk st) = Some (j', d)" for r j j' d
    using confirm_frame [OF s got_job [OF assms(1) that(1)] that(2)] frame_refl [OF s]
    by (intro kept_put [OF assms(1), where j = j']) simp_all
  with kept_same [OF assms(1)] assms(2) show ?thesis by (auto split: option.splits)
qed

lemma confirm_disk: "confirm r j fs = Some (j', fs') \<Longrightarrow> fs' = fs"
proof -
  have "snd (file_open_write False q fs) = fs" if "fs_exists fs q" for q
    using that by (auto simp: file_open_write_def fs_exists_def fs_stat_def split: option.splits node.splits)
  then have "fs2 = fs" if "set_stream_offset n off j2 fs = Some (j3, fs2)" for n off j2 j3 fs2
    using that by (auto simp: set_stream_offset_def Let_def split: DataSource.splits if_splits sum.splits option.splits prod.splits) (metis snd_conv)+
  then show "confirm r j fs = Some (j', fs') \<Longrightarrow> fs' = fs"
    by (auto simp: confirm_def Let_def split: if_splits option.splits confirm_union.splits)
qed

lemma handle_fs_kept:
  assumes "is_transfer r" "confined R I st" "roots r \<subseteq> R" "handle_fs v r st = Some st'"
  shows "kept R I st st'"
proof (cases r)
  case (NewWrite path i n fl od sz conn)
  with new_write_kept [OF assms(2), of path i n fl od sz conn] assms(3,4) show ?thesis by simp
next
  case (CancelWrite i)
  then show ?thesis using assms(4) kept_same [OF assms(2)] kept_remove [OF assms(2)] removed_job [OF assms(2)]
    by (auto split: prod.splits option.splits)
next
  case (WriteDone i n)
  then show ?thesis using assms(4) kept_same [OF assms(2)] kept_remove [OF assms(2)] removed_job [OF assms(2)]
    by (auto split: prod.splits option.splits)
next
  case (WriteError i n err)
  have "frame R I (disk st) (disk st)" using assms(2) by (simp add: confined_def frame_refl)
  then show ?thesis using WriteError assms(4) kept_same [OF assms(2)] kept_remove [OF assms(2)]
    by (auto split: prod.splits option.splits)
next
  case (WriteBlock i n data z)
  then show ?thesis using write_block_kept [OF assms(2)] assms(4) by blast
next
  case (CheckDigest i n sz t up res)
  then show ?thesis using check_digest_kept [OF assms(2)] assms(4) by auto
next
  case (SendConfirm req)
  then show ?thesis using send_confirm_kept [OF assms(2)] assms(4) by blast
next
  case (SendConfirmForRead i n skip off conn)
  then show ?thesis using assms(4) kept_same [OF assms(2)] confirm_disk by (fastforce split: option.splits)
qed (use assms kept_same [OF assms(2)] in \<open>auto simp: serve_read_empty_dirs_def serve_read_dir_def start_read_job_def
      read_all_files_def Let_def split: sum.splits if_splits\<close>)

lemma serve_kept:
  "\<lbrakk>list_all is_transfer rs; confined R I st; (\<Union>r \<in> set rs. roots r) \<subseteq> R; serve v rs st = Some st'\<rbrakk> \<Longrightarrow> kept R I st st'"
proof (induction rs arbitrary: st)
  case (Cons r rs)
  from Cons.prems(4) obtain st1 where 1: "handle_fs v r st = Some st1" "serve v rs st1 = Some st'" by (auto split: option.splits)
  have k: "kept R I st st1" using handle_fs_kept [OF _ Cons.prems(2) _ 1(1)] Cons.prems(1,3) by auto
  then have "confined R I st1" by (simp add: kept_def confined_def frame_def)
  with Cons.IH [OF _ this _ 1(2)] Cons.prems(1,3) have "kept R I st1 st'" by auto
  with k show ?case using frame_trans unfolding kept_def by blast
qed (simp add: kept_same)

text \<open>A disk with neither symbolic nor hard links.\<close>

definition file_inos :: "file_sys \<Rightarrow> nat list" where
  "file_inos fs = List.map_filter (\<lambda>e. case snd e of RegFile i \<Rightarrow> Some i | _ \<Rightarrow> None) (names fs)"

definition plain_disk :: "file_sys \<Rightarrow> bool" where
  "plain_disk fs \<longleftrightarrow> no_links fs \<and> hm_ok (names fs) \<and> distinct (file_inos fs) \<and> list_all (\<lambda>i. i < next_ino fs) (file_inos fs)"

lemma plain_disk_ino:
  assumes "plain_disk fs" "(k, RegFile i) \<in> set (names fs)"
  shows "i < next_ino fs" "(k', RegFile i) \<in> set (names fs) \<Longrightarrow> k' = k"
proof -
  have "i \<in> set (file_inos fs)" using assms(2) by (force simp: file_inos_def List.map_filter_def)
  then show "i < next_ino fs" using assms(1) by (simp add: plain_disk_def list_all_iff)
  show "k' = k" if "(k', RegFile i) \<in> set (names fs)"
    using map_filter_distinct_inj [of "\<lambda>e. case snd e of RegFile i \<Rightarrow> Some i | _ \<Rightarrow> None" "names fs" "(k, RegFile i)" "(k', RegFile i)"]
      assms that by (simp add: plain_disk_def file_inos_def)
qed

lemma plain_disk_sealed:
  assumes "plain_disk fs"
  obtains I where "sealed R I fs" "\<And>k i. \<lbrakk>\<not> inside R k; node_of fs k = Some (RegFile i)\<rbrakk> \<Longrightarrow> i \<notin> I"
proof
  let ?I = "{i. next_ino fs \<le> i \<or> (\<exists>k. (k, RegFile i) \<in> set (names fs) \<and> inside R k)}"
  show "sealed R ?I fs" using assms unfolding sealed_def plain_disk_def by blast
  fix k i assume *: "\<not> inside R k" "node_of fs k = Some (RegFile i)"
  note k = node_of_file_in [OF *(2)]
  show "i \<notin> ?I" using plain_disk_ino [OF assms k] *(1) by (auto simp: not_le)
qed

text \<open>
  C3. A client that sends any sequence of transfer requests (new write jobs, blocks, digests,
  confirmations, read jobs, cancellations) to the connection manager cannot touch the disk
  outside the destinations of its write jobs.  On a disk without symbolic or hard links, for an
  entry that is neither at nor below such a destination: if it exists it is the same node with
  the same content and time afterwards, if not, it is still missing, or a directory has been
  created there on the way to a destination.
\<close>

theorem transfers_stay_inside:
  assumes "list_all is_transfer rs" "write_jobs st = []" "plain_disk (disk st)" "serve v rs st = Some st'"
    "\<forall>r \<in> set rs. \<forall>t \<in> roots r. \<not> under t k"
  shows "(node_of (disk st') k = node_of (disk st) k \<and> key_file (disk st') k = key_file (disk st) k)
    \<or> (node_of (disk st) k = None \<and> (\<exists>m. node_of (disk st') k = Some (Directory m)))"
proof -
  let ?R = "\<Union>r \<in> set rs. roots r"
  obtain I where I: "sealed ?R I (disk st)" "\<And>k i. \<lbrakk>\<not> inside ?R k; node_of (disk st) k = Some (RegFile i)\<rbrakk> \<Longrightarrow> i \<notin> I"
    by (rule plain_disk_sealed [OF assms(3)]) blast
  have "confined ?R I st" using I(1) assms(2) by (simp add: confined_def jobs_within_def)
  from serve_kept [OF assms(1) this order_refl assms(4)] have f: "frame ?R I (disk st) (disk st')" by (simp add: kept_def)
  have k: "\<not> inside ?R k" unfolding inside_def using assms(5) by blast
  consider "node_of (disk st') k = node_of (disk st) k" | "node_of (disk st) k = None \<and> (\<exists>m. node_of (disk st') k = Some (Directory m))"
    using f k unfolding frame_def by blast
  then show ?thesis
  proof cases
    case 1
    have "hm_get (inodes (disk st')) i = hm_get (inodes (disk st)) i" if "node_of (disk st) k = Some (RegFile i)" for i
      using f I(2) [OF k that] unfolding frame_def by blast
    with 1 have "key_file (disk st') k = key_file (disk st) k"
      by (auto simp: key_file_def ino_content_def ino_mtime_def split: option.splits node.splits)
    with 1 show ?thesis by blast
  qed blast
qed

definition example_server :: fs_server where
  "example_server = \<lparr>write_jobs = [], read_jobs = [], disk = example_partial, out = []\<rparr>"

definition example_env :: fs_env where
  "example_env = \<lparr>home_dir = ''/'', max_files_opt = [], ext = example_ext\<rparr>"

definition example_attack :: "FS list" where
  "example_attack = [NewWrite ''/dst'' 1 0 [(''x'', 0), (''y/../../etc'', 0)] False 0 1,
     NewWrite ''/dst'' 2 0 [(''sub/x'', 0)] False 0 1, WriteBlock 2 0 [1, 2] False, WriteDone 2 0]"

theorem transfers_stay_inside_witness:
  "\<exists>st'. serve example_env example_attack example_server = Some st' \<and>
     node_of (disk st') (True, [''etc'']) = node_of (disk example_server) (True, [''etc'']) \<and>
     fs_content (disk st') ''/dst/sub/x'' = Some [1, 2]"
proof -
  let ?st = "the (serve example_env example_attack example_server)"
  have run: "serve example_env example_attack example_server = Some ?st" by code_simp
  have tr: "list_all is_transfer example_attack" "write_jobs example_server = []" "plain_disk (disk example_server)" by code_simp+
  have out: "\<forall>r \<in> set example_attack. \<forall>t \<in> roots r. \<not> under t (True, [''etc''])" by code_simp
  have no: "\<not> (\<exists>m. node_of (disk ?st) (True, [''etc'']) = Some (Directory m))"
  proof -
    have "node_of (disk ?st) (True, [''etc'']) = None" by code_simp
    then show ?thesis by simp
  qed
  have "fs_content (disk ?st) ''/dst/sub/x'' = Some [1, 2]" by code_simp
  with transfers_stay_inside [OF tr run out] no run show ?thesis by blast
qed

end
