(* ===== verification/Connection_State.thy ===== *)
theory Connection_State
  imports Server_Core Login_Guard Permissions Video_QoS Net_Addr File_Server
begin

text \<open>
  The state an incoming connection works on (\<open>src/server/connection.rs\<close>): the messages of the login
  phase, the record \<open>Connection\<close>, the shared tables of the host (\<open>SESSIONS\<close>, \<open>AUTHED_CONNS\<close>,
  \<open>LOGIN_FAILURES\<close>, \<open>SWITCH_SIDES_UUID\<close>, trusted devices, the server and the video QoS), and the
  operations of the module \<open>raii\<close> on them.  The build modelled is the Linux desktop with the flutter
  feature and without \<open>unix-file-copy-paste\<close> and \<open>hwcodec\<close>; there no privacy mode exists.  Log lines,
  audit reports and the Telegram notice are left out.

  \<open>Arc<Mutex<Instant>>\<close> is the number of a cell in \<open>clock_cells\<close>, so a session and the connections
  that keep it alive share one instant.  Calls into modules that are not modelled are logged in
  \<open>calls\<close>, messages to the peer and to the connection manager in \<open>outbox\<close> and \<open>to_cm\<close>.  What the
  source asks of the platform, the clock, the configuration, SHA-256, TOTP, CIDR matching, regular
  expressions and protobuf is the record \<open>host_env\<close>.
\<close>

section \<open>Messages\<close>

datatype BoolOption = NotSet | OptNo | OptYes

text \<open>A protobuf enum field whose number is not one of the enum's is \<open>None\<close>.\<close>

record OptionMessage =
  om_image_quality :: "int option"
  om_custom_image_quality :: int
  om_custom_fps :: int
  om_supported_decoding :: "bytes option"
  om_lock_after_session_end :: "BoolOption option"
  om_show_remote_cursor :: "BoolOption option"
  om_privacy_mode :: "BoolOption option"
  om_block_input :: "BoolOption option"
  om_disable_audio :: "BoolOption option"
  om_disable_clipboard :: "BoolOption option"
  om_disable_keyboard :: "BoolOption option"
  om_follow_remote_cursor :: "BoolOption option"
  om_follow_remote_window :: "BoolOption option"
  om_terminal_persistent :: "BoolOption option"
  om_show_my_cursor :: "BoolOption option"

datatype login_union =
    LU_FileTransfer string bool
  | LU_PortForward string int
  | LU_ViewCamera
  | LU_Terminal string

record LoginRequest =
  lr_username :: string
  lr_password :: string
  lr_my_id :: string
  lr_my_name :: string
  lr_option :: "OptionMessage option"
  lr_union :: "login_union option"
  lr_video_ack_required :: bool
  lr_session_id :: nat
  lr_version :: string
  lr_os_login :: "(string \<times> string) option"
  lr_my_platform :: string
  lr_hwid :: string
  lr_avatar :: string

definition LoginRequest_default :: LoginRequest where
  "LoginRequest_default =
     \<lparr>lr_username = '''', lr_password = '''', lr_my_id = '''', lr_my_name = '''', lr_option = None,
      lr_union = None, lr_video_ack_required = False, lr_session_id = 0, lr_version = '''',
      lr_os_login = None, lr_my_platform = '''', lr_hwid = '''', lr_avatar = ''''\<rparr>"

record PeerInfo =
  pi_username :: string
  pi_version :: string
  pi_hostname :: string
  pi_platform :: string
  pi_platform_additions :: string
  pi_terminal_feature :: bool
  pi_encoding :: "string option"
  pi_displays :: "string list"
  pi_current_display :: nat
  pi_resolutions :: "(int \<times> int) list option"

datatype perm_info = Keyboard | Clipboard | Audio | File | Restart | Recording | BlockInput

datatype PrivacyModeState = OffSucceeded | OffByPeer | OffUnknown

datatype out_msg =
    HashMsg string string
  | LoginError string bool
  | LoginPeerInfo PeerInfo
  | PermissionInfo perm_info bool
  | CloseReasonMsg string
  | PrivacyModeNotSupported string
  | MessageBox string string
  | TestDelayMsg bool int
  | TestDelayProbe nat nat
  | BlockInputError BoolOption
  | InitedMsg
  | ChatMsg string
  | SwitchBackMsg
  | VoiceCallResponse int bool
  | VoiceCallRequest bool
  | FileMsg Message
  | DisplayChangedMsg bytes
  | TerminalResponse bytes
  | TerminalError string
  | RawMsg bytes
  | PrivacyModeStateMsg PrivacyModeState string
  | FollowCurrentDisplay nat
  | ClipboardMsg bytes
  | ServiceMsg bytes

record cm_login =
  cl_id :: int
  cl_is_file_transfer :: bool
  cl_is_view_camera :: bool
  cl_is_terminal :: bool
  cl_port_forward :: string
  cl_peer_id :: string
  cl_name :: string
  cl_avatar :: string
  cl_authorized :: bool
  cl_keyboard :: bool
  cl_clipboard :: bool
  cl_audio :: bool
  cl_file :: bool
  cl_file_transfer_enabled :: bool
  cl_restart :: bool
  cl_recording :: bool
  cl_block_input :: bool
  cl_from_switch :: bool

text \<open>The entries of \<open>FileTransferLog\<close>, whose JSON text is left out.\<close>

datatype file_log =
    LogRemove int int string bool
  | LogCreateDir int int string
  | LogRename int string string
  | LogTransfer TransferJob bool bool string
  | LogTransfers "TransferJob list"

datatype cm_msg =
    CmLogin cm_login
  | CmFS FS
  | CmClose
  | CmDisconnected
  | CmStartVoiceCall
  | CmCloseVoiceCall string
  | CmVoiceCallIncoming
  | CmChatMessage string
  | CmFileLog file_log

record MouseEvent =
  me_mask :: int
  me_x :: int
  me_y :: int

datatype key_union = ControlKey int | Chr nat | Unicode nat | Seq string | Win2winHotkey nat

record KeyEvent =
  ke_down :: bool
  ke_press :: bool
  ke_union :: "key_union option"
  ke_modifiers :: "int list"
  ke_mode :: "int option"

datatype message_input =
    InputMouse MouseEvent int string u32 bool bool
  | InputKey KeyEvent bool
  | InputPointer bytes int
  | BlockOn
  | BlockOff

section \<open>Sessions and connections\<close>

record SessionKey =
  sk_peer_id :: string
  sk_name :: string
  sk_session_id :: nat

record Session =
  last_recv_time :: nat
  random_password :: string
  tfa :: bool

datatype AuthConnType = Remote | FileTransfer | PortForward | ViewCamera | Terminal

record AuthedConn =
  ac_conn_id :: int
  ac_conn_type :: AuthConnType
  ac_session_key :: SessionKey
  ac_printer :: bool

record TrustedDevice =
  td_hwid :: string
  td_time :: int
  td_id :: string
  td_name :: string
  td_platform :: string

text \<open>\<open>FileRemoveLogControl\<close>: what was removed since the last report, as path, id and file number.\<close>

record FileRemoveLogControl =
  fl_conn_id :: int
  fl_instant :: nat
  removed_files :: "(string \<times> int \<times> int) list"
  removed_dirs :: "(string \<times> int \<times> bool) list"

record Connection =
  inner :: ConnInner
  display_idx :: nat
  hash_salt :: string
  hash_challenge :: string
  file_transfer :: "(string \<times> bool) option"
  view_camera :: bool
  terminal :: bool
  port_forward_socket :: "string option"
  port_forward_address :: string
  authorized :: bool
  require_2fa :: "string option"
  keyboard :: bool
  clipboard :: bool
  audio :: bool
  file_perm :: bool
  restart :: bool
  recording :: bool
  block_input :: bool
  control_permissions :: "u64 option"
  last_test_delay :: "nat option"
  network_delay :: nat
  lock_after_session_end :: bool
  show_remote_cursor :: bool
  conn_ip :: ip_addr
  disable_keyboard :: bool
  show_my_cursor :: bool
  disable_clipboard :: bool
  disable_audio :: bool
  video_ack_required :: bool
  conn_lr :: LoginRequest
  peer_argb :: u32
  session_last_recv_time :: "nat option"
  chat_unanswered :: bool
  file_transferred :: bool
  from_switch :: bool
  voice_call_request_timestamp :: "int option"
  voice_calling :: bool
  options_in_login :: "OptionMessage option"
  closed :: bool
  cm_ipc_started :: bool
  auto_disconnect_timer :: "(nat \<times> nat) option"
  authed_conn_id :: "(int \<times> AuthConnType) option"
  last_supported_encoding :: "string option"
  services_subed :: bool
  follow_remote_cursor :: bool
  follow_remote_window :: bool
  multi_ui_session :: bool
  terminal_service_id :: string
  terminal_persistent :: bool
  terminal_user_token :: bool
  terminal_generic_service :: "ServiceInner option"
  conn_read_jobs :: "TransferJob list"
  audio_sender :: bool
  pressed_modifiers :: "nat set"
  file_remove_log_control :: FileRemoveLogControl
  delayed_read_dir :: "(string \<times> bool) option"
  printer_data :: "(nat \<times> string \<times> bytes) list"
  cm_read_job_ids :: "int set"
  outbox :: "out_msg list"
  to_cm :: "cm_msg list"
  input_log :: "message_input list"

datatype call =
    EncoderUpdate int bytes
  | EncoderNewOnlyVP9 int
  | EncoderRemove int
  | RegisterWhiteboard int
  | UnregisterWhiteboard int
  | ActivateScreen
  | SetupRdpInput
  | WakeLock nat nat
  | SetTerminalPersistent string bool
  | SetVoiceCallInput bool
  | LockScreen
  | ClearRelativeMouse int
  | RestoreResolutions
  | CloseWaylandSession
  | UpdateClipboard "bytes list"
  | NotifyVideoFrameFetched int
  | ForceReboot
  | Reboot
  | StartAudioThread bytes
  | SendAudioFrame bytes
  | RunSwitchSides string string
  | ChangeResolution string int int
  | TakeScreenshot nat string nat
  | VideoFrameFetched nat int
  | KeyReleases "nat set"

record host =
  login_failures :: failure_table
  tfa_failures :: failure_table
  sessions :: "(SessionKey, Session) hashmap"
  clock_cells :: "nat list"
  authed_conns :: "AuthedConn list"
  control_permissions_array :: permissions_array
  alive_conns :: "int list"
  wakelock_option :: "bool option"
  switch_sides_uuid :: "(string, nat \<times> string) hashmap"
  trusted_devices :: "TrustedDevice list"
  temporary_password :: string
  server :: "Server option"
  video_qos :: VideoQoS
  host_channels :: channels
  wallpaper_remover :: bool
  click_time :: int
  mouse_move_time :: int
  host_disk :: file_sys
  calls :: "call list"

text \<open>A display; the product of its scale with a coordinate is the rounded one of \<open>f64\<close>.\<close>

record DisplayInfo =
  di_x :: int
  di_y :: int
  di_width :: int
  di_height :: int
  di_scale :: real

record host_env =
  now :: nat
  time_ms :: int
  cfg :: option_fn
  builtin_cfg :: option_fn
  config_id :: string
  permanent_password :: string
  sha256 :: "string \<Rightarrow> string"
  cidr_contains :: "string \<Rightarrow> ip_addr \<Rightarrow> bool option"
  totp_check :: "string \<Rightarrow> string \<Rightarrow> bool option"
  is_match :: "string \<Rightarrow> string \<Rightarrow> bool"
  uuid_from_slice :: "string \<Rightarrow> string option"
  encode_msg :: "out_msg \<Rightarrow> bytes"
  json_text :: "(string \<times> bool) list \<Rightarrow> string"
  tcp_connect :: "string \<Rightarrow> bool"
  is_dir :: "string \<Rightarrow> bool"
  only_conn_window_closed :: bool
  active_username :: string
  hostname :: string
  platform :: string
  version_text :: string
  is_wayland :: bool
  headless :: bool
  login_screen_wayland :: bool
  display_server :: string
  is_prelogin :: bool
  is_locked :: bool
  desktop_error :: "(string \<times> string) option \<Rightarrow> string"
  displays_on_login :: "string + string list"
  inited_msg :: bool
  resolutions :: "string \<Rightarrow> (int \<times> int) list"
  cameras :: "string list"
  camera_resolution :: "(int \<times> int) list"
  camera_exists :: bool
  primary_display :: nat
  supported_encoding :: string
  wayland_use_rdp_input :: bool
  wallpaper_ok :: bool
  whiteboard_supported :: bool
  service_specified_user :: "string \<Rightarrow> bool option"
  fresh_service_id :: string
  fresh_temporary_password :: string
  keycode_to_rdev_key :: "nat \<Rightarrow> nat"
  rdev_is_modifier :: "nat \<Rightarrow> bool"
  display_changed_msg :: "nat \<Rightarrow> VideoSource \<Rightarrow> bytes option"
  display_names :: "string list option"
  terminal_handle_action :: "string \<Rightarrow> bool \<Rightarrow> bytes \<Rightarrow> string + bytes option"
  devices_json_len :: "TrustedDevice list \<Rightarrow> nat"
  sync_displays :: "DisplayInfo list"
  f64_mul :: "real \<Rightarrow> real \<Rightarrow> real"
  file_ext :: ext_funs

section \<open>Clocks and the session table\<close>

definition SESSION_TIMEOUT :: nat where "SESSION_TIMEOUT = 30000"

definition cell_time :: "host \<Rightarrow> nat \<Rightarrow> nat" where
  "cell_time h i = (if i < length (clock_cells h) then clock_cells h ! i else 0)"

definition new_cell :: "host_env \<Rightarrow> host \<Rightarrow> nat \<times> host" where
  "new_cell e h = (length (clock_cells h), h\<lparr>clock_cells := clock_cells h @ [now e]\<rparr>)"

definition log_call :: "call \<Rightarrow> host \<Rightarrow> host" where
  "log_call x h = h\<lparr>calls := calls h @ [x]\<rparr>"

definition with_server :: "(Server \<Rightarrow> Server) \<Rightarrow> host \<Rightarrow> host" where
  "with_server f h = h\<lparr>server := map_option f (server h)\<rparr>"

definition update_or_insert_session :: "host_env \<Rightarrow> SessionKey \<Rightarrow> string option \<Rightarrow> bool option \<Rightarrow> host \<Rightarrow> host" where
  "update_or_insert_session e key password second h =
     (case hm_get (sessions h) key of
        Some s \<Rightarrow>
          (let s = (case password of Some p \<Rightarrow> s\<lparr>random_password := p\<rparr> | None \<Rightarrow> s);
               s = (case second of Some t \<Rightarrow> s\<lparr>tfa := t\<rparr> | None \<Rightarrow> s)
           in h\<lparr>sessions := hm_insert key s (sessions h)\<rparr>)
      | None \<Rightarrow>
          (let (i, h) = new_cell e h
           in h\<lparr>sessions := hm_insert key
                 \<lparr>last_recv_time = i, random_password = (case password of Some p \<Rightarrow> p | None \<Rightarrow> ''''),
                  tfa = (case second of Some t \<Rightarrow> t | None \<Rightarrow> False)\<rparr> (sessions h)\<rparr>))"

definition set_session_2fa :: "host_env \<Rightarrow> SessionKey \<Rightarrow> host \<Rightarrow> host" where
  "set_session_2fa e key h =
     (case hm_get (sessions h) key of
        Some s \<Rightarrow> h\<lparr>sessions := hm_insert key (s\<lparr>tfa := True\<rparr>) (sessions h)\<rparr>
      | None \<Rightarrow>
          (let (i, h) = new_cell e h
           in h\<lparr>sessions := hm_insert key \<lparr>last_recv_time = i, random_password = '''', tfa = True\<rparr> (sessions h)\<rparr>))"

definition check_remove_session :: "int \<Rightarrow> SessionKey \<Rightarrow> host \<Rightarrow> host" where
  "check_remove_session i key h =
     (if hm_get (sessions h) key = None then h
      else
        let is_remote = list_ex (\<lambda>c. ac_conn_id c = i \<and> ac_conn_type c = Remote) (authed_conns h);
            another_remote = list_ex (\<lambda>c. ac_conn_id c \<noteq> i \<and> ac_session_key c = key \<and> ac_conn_type c = Remote) (authed_conns h)
        in if is_remote \<or> \<not> another_remote then h\<lparr>sessions := hm_remove key (sessions h)\<rparr> else h)"

definition retain_sessions :: "host_env \<Rightarrow> host \<Rightarrow> host" where
  "retain_sessions e h =
     h\<lparr>sessions := filter (\<lambda>(_, s). now e - cell_time h (last_recv_time s) < SESSION_TIMEOUT) (sessions h)\<rparr>"

section \<open>Authorized connections\<close>

definition is_support_remote_print :: "string \<Rightarrow> bool" where
  "is_support_remote_print ver \<longleftrightarrow> sint (get_version_number ''1.3.9'') \<le> sint (get_version_number ver)"

definition check_wake_lock :: "host \<Rightarrow> host" where
  "check_wake_lock h =
     log_call (WakeLock (length (authed_conns h)) (length (filter (\<lambda>c. ac_conn_type c = Remote) (authed_conns h)))) h"

definition check_wake_lock_on_setting_changed :: "host_env \<Rightarrow> host \<Rightarrow> host" where
  "check_wake_lock_on_setting_changed e h =
     (let current = option2bool ''keep-awake-during-incoming-sessions'' (cfg e ''keep-awake-during-incoming-sessions'')
      in if wakelock_option h \<noteq> Some current then check_wake_lock h else h)"

definition ConnectionID_new :: "int \<Rightarrow> host \<Rightarrow> host" where
  "ConnectionID_new i h = h\<lparr>alive_conns := alive_conns h @ [i]\<rparr>"

definition ConnectionID_drop :: "int \<Rightarrow> host \<Rightarrow> host" where
  "ConnectionID_drop i h = h\<lparr>alive_conns := filter (\<lambda>c. c \<noteq> i) (alive_conns h)\<rparr>"

definition AuthedConnID_new :: "host_env \<Rightarrow> int \<Rightarrow> AuthConnType \<Rightarrow> SessionKey \<Rightarrow> LoginRequest \<Rightarrow> host \<Rightarrow> (int \<times> AuthConnType) \<times> host" where
  "AuthedConnID_new e i ty key l h =
     (let printer = (ty = Remote \<and> is_support_remote_print (lr_version l) \<and> lr_my_platform l = ''Windows'');
          h = h\<lparr>authed_conns := authed_conns h @ [\<lparr>ac_conn_id = i, ac_conn_type = ty, ac_session_key = key, ac_printer = printer\<rparr>]\<rparr>;
          h = check_wake_lock h;
          h = (if ty = Remote \<or> ty = ViewCamera
               then h\<lparr>video_qos := on_connection_open (now e) (cfg e ''enable-abr'') i (video_qos h)\<rparr> else h)
      in ((i, ty), h))"

definition AuthedConnID_drop :: "host_env \<Rightarrow> int \<times> AuthConnType \<Rightarrow> host \<Rightarrow> host" where
  "AuthedConnID_drop e x h =
     (case x of (i, ty) \<Rightarrow>
        let h = (if ty = Remote \<or> ty = ViewCamera
                 then (log_call (EncoderRemove i) h)\<lparr>video_qos := on_connection_close (now e) i (video_qos h)\<rparr> else h);
            h = log_call (ClearRelativeMouse i) h;
            h = h\<lparr>authed_conns := filter (\<lambda>c. ac_conn_id c \<noteq> i) (authed_conns h)\<rparr>;
            h = (if \<not> list_ex (\<lambda>c. ac_conn_type c = Remote) (authed_conns h)
                 then log_call CloseWaylandSession (log_call RestoreResolutions (h\<lparr>wallpaper_remover := False\<rparr>)) else h);
            h = check_wake_lock h
        in log_call (UnregisterWhiteboard i) h)"

section \<open>Small operations of a connection\<close>

definition session_key :: "Connection \<Rightarrow> SessionKey" where
  "session_key c = \<lparr>sk_peer_id = lr_my_id (conn_lr c), sk_name = lr_my_name (conn_lr c), sk_session_id = lr_session_id (conn_lr c)\<rparr>"

definition conn_send_msg :: "out_msg \<Rightarrow> Connection \<Rightarrow> Connection" where
  "conn_send_msg m c = c\<lparr>outbox := outbox c @ [m]\<rparr>"

definition send_to_cm :: "cm_msg \<Rightarrow> Connection \<Rightarrow> Connection" where
  "send_to_cm m c = c\<lparr>to_cm := to_cm c @ [m]\<rparr>"

definition REQUIRE_2FA :: string where "REQUIRE_2FA = ''2FA Required''"

definition enable_trusted_devices :: "host_env \<Rightarrow> bool" where
  "enable_trusted_devices e = option2bool ''enable-trusted-devices'' (cfg e ''enable-trusted-devices'')"

definition send_login_error :: "host_env \<Rightarrow> string \<Rightarrow> Connection \<Rightarrow> Connection" where
  "send_login_error e err c = conn_send_msg (LoginError err (err = REQUIRE_2FA \<and> enable_trusted_devices e)) c"

definition send_permission :: "perm_info \<Rightarrow> bool \<Rightarrow> Connection \<Rightarrow> Connection" where
  "send_permission p enabled c = conn_send_msg (PermissionInfo p enabled) c"

definition peer_keyboard_enabled :: "Connection \<Rightarrow> bool" where
  "peer_keyboard_enabled c \<longleftrightarrow> keyboard c \<and> \<not> disable_keyboard c"

definition clipboard_enabled :: "Connection \<Rightarrow> bool" where
  "clipboard_enabled c \<longleftrightarrow> clipboard c \<and> \<not> disable_clipboard c"

definition can_sub_clipboard_service :: "host_env \<Rightarrow> Connection \<Rightarrow> bool" where
  "can_sub_clipboard_service e c \<longleftrightarrow>
     clipboard_enabled c \<and> peer_keyboard_enabled c \<and> builtin_cfg e ''one-way-clipboard-redirection'' \<noteq> ''Y''"

definition audio_enabled :: "Connection \<Rightarrow> bool" where
  "audio_enabled c \<longleftrightarrow> audio c \<and> \<not> disable_audio c"

definition conn_is_remote :: "Connection \<Rightarrow> bool" where
  "conn_is_remote c \<longleftrightarrow> file_transfer c = None \<and> port_forward_socket c = None \<and> \<not> view_camera c \<and> \<not> terminal c"

definition is_authed_remote_conn :: "Connection \<Rightarrow> bool" where
  "is_authed_remote_conn c = (case authed_conn_id c of Some (_, ty) \<Rightarrow> ty = Remote | None \<Rightarrow> False)"

definition is_authed_view_camera_conn :: "Connection \<Rightarrow> bool" where
  "is_authed_view_camera_conn c = (case authed_conn_id c of Some (_, ty) \<Rightarrow> ty = ViewCamera | None \<Rightarrow> False)"

definition video_source :: "Connection \<Rightarrow> VideoSource" where
  "video_source c = (if view_camera c then Camera else Monitor)"

definition try_start_cm :: "string \<Rightarrow> string \<Rightarrow> bool \<Rightarrow> Connection \<Rightarrow> Connection" where
  "try_start_cm peer name auth c =
     send_to_cm (CmLogin
       \<lparr>cl_id = conn_inner_id (inner c), cl_is_file_transfer = (file_transfer c \<noteq> None), cl_is_view_camera = view_camera c,
        cl_is_terminal = terminal c, cl_port_forward = port_forward_address c, cl_peer_id = peer, cl_name = name,
        cl_avatar = lr_avatar (conn_lr c), cl_authorized = auth, cl_keyboard = keyboard c, cl_clipboard = clipboard c,
        cl_audio = audio c, cl_file = file_perm c, cl_file_transfer_enabled = file_perm c, cl_restart = restart c,
        cl_recording = recording c, cl_block_input = block_input c, cl_from_switch = from_switch c\<rparr>) c"

fun str2color_hash :: "nat list \<Rightarrow> u32 \<Rightarrow> u32" where
  "str2color_hash [] h = h"
| "str2color_hash (b # bs) h = str2color_hash bs (of_nat b + (push_bit 5 h - h))"

definition str2color :: "string \<Rightarrow> u32 \<Rightarrow> u32" where
  "str2color s alpha =
     (let h = str2color_hash (map of_char s) 0;
          h = h mod 16777216;
          rgb = h AND 0xFF7FFF
      in push_bit 24 alpha OR rgb)"

definition outdate :: "host_env \<Rightarrow> TrustedDevice \<Rightarrow> bool" where
  "outdate e d \<longleftrightarrow> td_time d + 90 * 24 * 60 * 60 * 1000 < time_ms e"

definition set_trusted_devices :: "host_env \<Rightarrow> TrustedDevice list \<Rightarrow> host \<Rightarrow> host" where
  "set_trusted_devices e ds h =
     (let ds = filter (\<lambda>d. \<not> outdate e d) ds
      in if devices_json_len e ds > 1024 * 1024 then h else h\<lparr>trusted_devices := ds\<rparr>)"

definition add_trusted_device :: "host_env \<Rightarrow> TrustedDevice \<Rightarrow> host \<Rightarrow> host" where
  "add_trusted_device e d h =
     set_trusted_devices e (filter (\<lambda>d'. td_hwid d' \<noteq> td_hwid d) (trusted_devices h) @ [d]) h"

definition on_close :: "bool \<Rightarrow> Connection \<Rightarrow> host \<Rightarrow> Connection \<times> host" where
  "on_close lock c h =
     (if closed c then (c, h)
      else
        let c = c\<lparr>closed := True\<rparr>;
            h = log_call (SetVoiceCallInput False) h;
            h = (if lock \<and> lock_after_session_end c \<and> keyboard c then log_call LockScreen h else h);
            c = send_to_cm (if chat_unanswered c \<or> file_transferred c then CmDisconnected else CmClose) c
        in (c\<lparr>port_forward_socket := None\<rparr>, h))"

definition send_close_reason_no_retry :: "string \<Rightarrow> Connection \<Rightarrow> host \<Rightarrow> Connection \<times> host" where
  "send_close_reason_no_retry reason c h =
     (conn_send_msg (CloseReasonMsg (if reason = '''' then ''Closed manually by the peer'' else reason)) c,
      check_remove_session (conn_inner_id (inner c)) (session_key c) h)"

definition get_auto_disconenct_timer :: "host_env \<Rightarrow> (nat \<times> nat) option" where
  "get_auto_disconenct_timer e =
     (if cfg e ''allow-auto-disconnect'' = ''Y'' then
        (let minute = (case parse_int 0 (2 ^ 64 - 1) (cfg e ''auto-disconnect-timeout'') of Some m \<Rightarrow> nat m | None \<Rightarrow> 10);
             minute = (if minute = 0 then 10 else minute)
         in Some (now e, minute))
      else None)"

definition update_auto_disconnect_timer :: "host_env \<Rightarrow> Connection \<Rightarrow> Connection" where
  "update_auto_disconnect_timer e c =
     c\<lparr>auto_disconnect_timer := map_option (\<lambda>(_, m). (now e, m)) (auto_disconnect_timer c)\<rparr>"

end
