(* ===== verification/Login.thy ===== *)
theory Login
  imports Connection_State
begin

text \<open>
  The login phase of an incoming connection (\<open>src/server/connection.rs\<close>): opening, password and
  two-factor checks, \<open>send_logon_response_and_keep_alive\<close>, the messages a peer may send before it is
  authorized, and the options and displays a peer chooses afterwards.  A handler returns whether the
  connection is kept, with the new connection and host; \<open>None\<close> is a panic of the QoS arithmetic,
  which \<open>step_panics_iff\<close> excludes.
\<close>

section \<open>Opening a connection\<close>

definition Connection_new :: "host_env \<Rightarrow> int \<Rightarrow> nat \<Rightarrow> nat \<Rightarrow> string \<Rightarrow> string \<Rightarrow> string option \<Rightarrow> u64 option \<Rightarrow> Connection" where
  "Connection_new e i t v salt challenge totp cp =
     \<lparr>inner = ConnInner_new i (Some t) (Some v), display_idx = primary_display e,
      hash_salt = salt, hash_challenge = challenge, file_transfer = None, view_camera = False, terminal = False,
      port_forward_socket = None, port_forward_address = '''', authorized = False, require_2fa = totp,
      keyboard = permission (cfg e) OPTION_ENABLE_KEYBOARD cp, clipboard = permission (cfg e) OPTION_ENABLE_CLIPBOARD cp,
      audio = permission (cfg e) OPTION_ENABLE_AUDIO cp, file_perm = permission (cfg e) OPTION_ENABLE_FILE_TRANSFER cp,
      restart = permission (cfg e) OPTION_ENABLE_REMOTE_RESTART cp,
      recording = permission (cfg e) OPTION_ENABLE_RECORD_SESSION cp,
      block_input = permission (cfg e) OPTION_ENABLE_BLOCK_INPUT cp, control_permissions = cp,
      last_test_delay = None, network_delay = 0, lock_after_session_end = False, show_remote_cursor = False,
      conn_ip = IpV4 0, disable_keyboard = False, show_my_cursor = False, disable_clipboard = False,
      disable_audio = False, video_ack_required = False, conn_lr = LoginRequest_default, peer_argb = 0,
      session_last_recv_time = None, chat_unanswered = False, file_transferred = False, from_switch = False,
      voice_call_request_timestamp = None, voice_calling = False, options_in_login = None, closed = False,
      cm_ipc_started = False, auto_disconnect_timer = None, authed_conn_id = None, last_supported_encoding = None,
      services_subed = False, follow_remote_cursor = False, follow_remote_window = False, multi_ui_session = False,
      terminal_service_id = '''', terminal_persistent = False, terminal_user_token = False,
      terminal_generic_service = None, conn_read_jobs = [], audio_sender = False, pressed_modifiers = {},
      file_remove_log_control = \<lparr>fl_conn_id = i, fl_instant = now e, removed_files = [], removed_dirs = []\<rparr>,
      delayed_read_dir = None, printer_data = [], cm_read_job_ids = {}, outbox = [], to_cm = [], input_log = []\<rparr>"

definition check_whitelist :: "host_env \<Rightarrow> ip_addr \<Rightarrow> Connection \<Rightarrow> bool \<times> Connection" where
  "check_whitelist e addr c =
     (let whitelist = filter (\<lambda>x. x \<noteq> '''') (split_char CHR '','' (cfg e ''whitelist''))
      in if whitelist \<noteq> [] \<and> filter (\<lambda>x. x = ''0.0.0.0'') whitelist = []
            \<and> filter (\<lambda>x. cidr_contains e x addr = Some True) whitelist = []
         then (False, send_login_error e ''Your ip is blocked by the peer'' c)
         else (True, c))"

definition on_open :: "host_env \<Rightarrow> ip_addr \<Rightarrow> Connection \<Rightarrow> bool \<times> Connection" where
  "on_open e addr c =
     (case check_whitelist e addr c of
        (False, c) \<Rightarrow> (False, c)
      | (True, c) \<Rightarrow>
          if cfg e ''allow-only-conn-window-open'' = ''Y'' \<and> only_conn_window_closed e
          then (False, send_login_error e ''The main window is not open'' c)
          else (True, conn_send_msg (HashMsg (hash_salt c) (hash_challenge c)) (c\<lparr>conn_ip := addr\<rparr>)))"

text \<open>\<open>Connection::start\<close> up to its loop: \<open>None\<close> when the peer is turned away at once.\<close>

definition deny_note :: "perm_info \<Rightarrow> bool \<Rightarrow> Connection \<Rightarrow> Connection" where
  "deny_note p b c = (if b then c else send_permission p False c)"

definition Connection_start :: "host_env \<Rightarrow> ip_addr \<Rightarrow> Connection \<Rightarrow> bool \<times> Connection" where
  "Connection_start e addr c =
     (case on_open e addr c of
        (False, c) \<Rightarrow> (False, c\<lparr>closed := True\<rparr>)
      | (True, c) \<Rightarrow>
          (let c = deny_note Keyboard (keyboard c) c;
               c = deny_note Clipboard (clipboard c) c;
               c = deny_note Audio (audio c) c;
               c = deny_note File (file_perm c) c;
               c = deny_note Restart (restart c) c;
               c = deny_note Recording (recording c) c;
               c = deny_note BlockInput (block_input c) c
           in (True, c)))"

section \<open>Passwords and recent sessions\<close>

definition validate_one_password :: "host_env \<Rightarrow> string \<Rightarrow> Connection \<Rightarrow> bool" where
  "validate_one_password e password c =
     (if length password = 0 then False
      else sha256 e (sha256 e (password @ hash_salt c) @ hash_challenge c) = lr_password (conn_lr c))"

definition validate_password :: "host_env \<Rightarrow> Connection \<Rightarrow> host \<Rightarrow> bool \<times> host" where
  "validate_password e c h =
     (if temporary_enabled (cfg e) \<and> validate_one_password e (temporary_password h) c
      then (True, update_or_insert_session e (session_key c) (Some (temporary_password h)) (Some False) h)
      else if permanent_enabled (cfg e) \<and> validate_one_password e (permanent_password e) c then (True, h)
      else (False, h))"

definition is_recent_session :: "host_env \<Rightarrow> bool \<Rightarrow> Connection \<Rightarrow> host \<Rightarrow> bool \<times> host" where
  "is_recent_session e second c h =
     (let h = retain_sessions e h
      in case hm_get (sessions h) (session_key c) of
           Some s \<Rightarrow> (lr_password (conn_lr c) \<noteq> '''' \<and>
                        (second \<and> tfa s \<or> \<not> second \<and> validate_one_password e (random_password s) c), h)
         | None \<Rightarrow> (False, h))"

definition handle_login_request_without_validation :: "host_env \<Rightarrow> LoginRequest \<Rightarrow> Connection \<Rightarrow> host \<Rightarrow> Connection" where
  "handle_login_request_without_validation e l c h =
     (let c = c\<lparr>conn_lr := l, peer_argb := str2color (lr_my_id l @ lr_my_platform l) 0xFF\<rparr>;
          c = (case lr_option l of Some m \<Rightarrow> c\<lparr>options_in_login := Some m\<rparr> | None \<Rightarrow> c);
          c = (if require_2fa c \<noteq> None \<and> lr_hwid l \<noteq> '''' \<and> enable_trusted_devices e then
                 (case find (\<lambda>d. td_hwid d = lr_hwid l) (trusted_devices h) of
                    Some d \<Rightarrow>
                      if \<not> outdate e d \<and> td_id d = lr_my_id l \<and> td_name d = lr_my_name l \<and> td_platform d = lr_my_platform l
                      then c\<lparr>require_2fa := None\<rparr> else c
                  | None \<Rightarrow> c)
               else c)
      in c\<lparr>video_ack_required := lr_video_ack_required l\<rparr>)"

section \<open>Port forwarding\<close>

definition normalize_port_forward_target :: "string \<Rightarrow> int \<Rightarrow> string \<times> bool" where
  "normalize_port_forward_target host port =
     (let (host, port, is_rdp) = (if host = ''RDP'' \<and> port = 0 then (''localhost'', 3389, True) else (host, port, False));
          host = (if host = '''' then ''localhost'' else host)
      in (host @ '':'' @ int_to_string port, is_rdp))"

definition connect_port_forward_if_needed :: "host_env \<Rightarrow> Connection \<Rightarrow> bool \<times> Connection" where
  "connect_port_forward_if_needed e c =
     (if port_forward_socket c \<noteq> None then (True, c)
      else case lr_union (conn_lr c) of
        Some (LU_PortForward host port) \<Rightarrow>
          (let (addr, is_rdp) = normalize_port_forward_target host port;
               c = c\<lparr>port_forward_address := addr\<rparr>
           in if tcp_connect e addr then (True, c\<lparr>port_forward_socket := Some addr\<rparr>)
              else (False, send_login_error e
                      (''Failed to access remote '' @ (if is_rdp then ''RDP'' else addr)
                        @ ''. Please make sure it is reachable/open.'') c))
      | _ \<Rightarrow> (True, c))"

section \<open>Options of the peer\<close>

definition qos_call :: "(VideoQoS \<Rightarrow> VideoQoS option) \<Rightarrow> host \<Rightarrow> host option" where
  "qos_call f h = map_option (\<lambda>q. h\<lparr>video_qos := q\<rparr>) (f (video_qos h))"

definition option_quality :: "OptionMessage \<Rightarrow> int" where
  "option_quality m =
     (case om_image_quality m of
        None \<Rightarrow> - 1
      | Some q \<Rightarrow> if q = 0 then (if om_custom_image_quality m > 0 then om_custom_image_quality m else - 1) else q)"

fun set_flag :: "BoolOption option \<Rightarrow> (bool \<Rightarrow> Connection \<times> host \<Rightarrow> Connection \<times> host) \<Rightarrow> Connection \<times> host \<Rightarrow> Connection \<times> host" where
  "set_flag (Some OptYes) f s = f True s"
| "set_flag (Some OptNo) f s = f False s"
| "set_flag _ f s = s"

definition subscribe_conn :: "string \<Rightarrow> Connection \<Rightarrow> bool \<Rightarrow> host \<Rightarrow> host" where
  "subscribe_conn name c on h = with_server (subscribe name (inner c) on) h"

definition set_audio_subscription :: "Connection \<Rightarrow> host \<Rightarrow> host" where
  "set_audio_subscription c h =
     (if is_authed_view_camera_conn c then
        (if voice_calling c \<or> \<not> audio_enabled c then subscribe_conn audio_NAME c (audio_enabled c) h else h)
      else subscribe_conn audio_NAME c (audio_enabled c) h)"

definition privacy_options :: "OptionMessage \<Rightarrow> Connection \<Rightarrow> Connection" where
  "privacy_options m c =
     (if sint (get_version_number (lr_version (conn_lr c))) < sint (get_version_number ''1.2.4'') then
        (case om_privacy_mode m of
           Some q \<Rightarrow> if keyboard c \<and> (q = OptYes \<or> q = OptNo) then conn_send_msg (PrivacyModeNotSupported '''') c else c
         | None \<Rightarrow> c)
      else c)"

definition block_input_options :: "host_env \<Rightarrow> OptionMessage \<Rightarrow> Connection \<times> host \<Rightarrow> Connection \<times> host" where
  "block_input_options e m s =
     (case s of (c, h) \<Rightarrow>
       (case om_block_input m of
         None \<Rightarrow> (c, h)
       | Some q \<Rightarrow>
           if keyboard c \<and> block_input c then
             (case q of
                OptYes \<Rightarrow> (c\<lparr>input_log := input_log c @ [BlockOn]\<rparr>, h)
              | OptNo \<Rightarrow> (c\<lparr>input_log := input_log c @ [BlockOff]\<rparr>, h)
              | NotSet \<Rightarrow> (c, h))
           else if q \<noteq> NotSet then
             (case tx (inner c) of
                Some t \<Rightarrow> (c, h\<lparr>host_channels := channel_send (MiscOther (encode_msg e (BlockInputError q))) t (host_channels h)\<rparr>)
              | None \<Rightarrow> (c, h))
           else (c, h)))"

definition show_cursor_option :: "host_env \<Rightarrow> bool \<Rightarrow> Connection \<times> host \<Rightarrow> Connection \<times> host" where
  "show_cursor_option e on s =
     (case s of (c, h) \<Rightarrow>
       let c = c\<lparr>show_my_cursor := on\<rparr>;
           i = conn_inner_id (inner c)
       in if on then
            (if whiteboard_supported e then (c, log_call (RegisterWhiteboard i) h)
             else (conn_send_msg (MessageBox ''Show my cursor''
                     ''This feature is not supported on native Wayland, please install XWayland or switch to X11.'') c, h))
          else (if whiteboard_supported e then (c, log_call (UnregisterWhiteboard i) h) else (c, h)))"

text \<open>The switches of an option message, in the order of the source.\<close>

definition apply_flags :: "host_env \<Rightarrow> OptionMessage \<Rightarrow> Connection \<times> host \<Rightarrow> Connection \<times> host" where
  "apply_flags e m s =
     (let s = set_flag (om_lock_after_session_end m) (\<lambda>b (c, h). (c\<lparr>lock_after_session_end := b\<rparr>, h)) s;
          s = set_flag (om_show_remote_cursor m)
                 (\<lambda>b (c, h). let c = c\<lparr>show_remote_cursor := b\<rparr>
                   in (c, subscribe_conn NAME_POS c b
                            (subscribe_conn NAME_CURSOR c (peer_keyboard_enabled c \<or> b) h))) s;
          s = set_flag (om_follow_remote_cursor m) (\<lambda>b (c, h). (c\<lparr>follow_remote_cursor := b\<rparr>, h)) s;
          s = set_flag (om_follow_remote_window m)
                 (\<lambda>b (c, h). let c = c\<lparr>follow_remote_window := b\<rparr> in (c, subscribe_conn NAME_WINDOW_FOCUS c b h)) s;
          s = set_flag (om_disable_audio m)
                 (\<lambda>b (c, h). let c = c\<lparr>disable_audio := b\<rparr> in (c, set_audio_subscription c h)) s;
          s = set_flag (om_disable_clipboard m)
                 (\<lambda>b (c, h). let c = c\<lparr>disable_clipboard := b\<rparr>
                   in (c, subscribe_conn CLIPBOARD_NAME c (can_sub_clipboard_service e c) h)) s;
          s = set_flag (om_disable_keyboard m)
                 (\<lambda>b (c, h). let c = c\<lparr>disable_keyboard := b\<rparr>
                   in (c, subscribe_conn NAME_CURSOR c (peer_keyboard_enabled c \<or> show_remote_cursor c)
                            (subscribe_conn CLIPBOARD_NAME c (can_sub_clipboard_service e c) h))) s;
          s = apfst (privacy_options m) s;
          s = block_input_options e m s;
          s = set_flag (om_terminal_persistent m)
                 (\<lambda>b (c, h). (c\<lparr>terminal_persistent := b\<rparr>, log_call (SetTerminalPersistent (terminal_service_id c) b) h)) s
      in set_flag (om_show_my_cursor m) (show_cursor_option e) s)"

definition update_options :: "host_env \<Rightarrow> OptionMessage \<Rightarrow> Connection \<Rightarrow> host \<Rightarrow> (Connection \<times> host) option" where
  "update_options e m c h =
     do {
       let i = conn_inner_id (inner c);
       h \<leftarrow> (if option_quality m > 0 then qos_call (user_image_quality (time_ms e) i (option_quality m)) h else Some h);
       let h = (if om_custom_fps m > 0 then h\<lparr>video_qos := user_custom_fps i (nat (om_custom_fps m)) (video_qos h)\<rparr> else h);
       let h = (case om_supported_decoding m of Some q \<Rightarrow> log_call (EncoderUpdate i q) h | None \<Rightarrow> h);
       Some (apply_flags e m (c, h))
     }"

section \<open>Displays and voice calls\<close>

definition is_support_multi_ui_session :: "string \<Rightarrow> bool" where
  "is_support_multi_ui_session ver \<longleftrightarrow> sint (get_version_number ''1.2.4'') \<le> sint (get_version_number ver)"

definition ensure_video_service :: "VideoSource \<Rightarrow> nat \<Rightarrow> Server \<Rightarrow> Server" where
  "ensure_video_service source i sv =
     (if contains (get_service_name source i) sv then sv else add_service (video_service_new source i) sv)"

definition switch_display_to :: "host_env \<Rightarrow> nat \<Rightarrow> Connection \<Rightarrow> host \<Rightarrow> Connection \<times> host" where
  "switch_display_to e i c h =
     (let source = video_source c;
          new_name = get_service_name source i;
          old_name = get_service_name source (display_idx c);
          h = (if i \<noteq> primary_display e then with_server (ensure_video_service source i) h else h);
          h = (if \<not> is_support_multi_ui_session (lr_version (conn_lr c)) then subscribe_conn old_name c False h else h);
          h = subscribe_conn new_name c True h
      in (c\<lparr>display_idx := i\<rparr>, h))"

definition conn_capture_displays :: "nat list \<Rightarrow> nat list \<Rightarrow> nat list \<Rightarrow> Connection \<Rightarrow> host \<Rightarrow> Connection \<times> host" where
  "conn_capture_displays adds subs sets c h =
     (case server h of
        None \<Rightarrow> (c, h)
      | Some sv \<Rightarrow>
          (let source = video_source c;
               sv = fold (ensure_video_service source) adds sv;
               sv = fold (ensure_video_service source) sets sv;
               sv = (if adds \<noteq> [] then capture_displays (inner c) source adds True False sv
                     else if subs \<noteq> [] then capture_displays (inner c) source subs False True sv
                     else capture_displays (inner c) source sets True True sv);
               c = c\<lparr>multi_ui_session := get_subbed_displays_count (conn_inner_id (inner c)) sv > 1\<rparr>;
               sv = (if follow_remote_window c
                     then subscribe NAME_WINDOW_FOCUS (inner c) (\<not> multi_ui_session c) sv else sv)
           in (c, h\<lparr>server := Some sv\<rparr>)))"

definition handle_voice_call :: "bool \<Rightarrow> Connection \<Rightarrow> host \<Rightarrow> Connection \<times> host" where
  "handle_voice_call accepted c h =
     (case voice_call_request_timestamp c of
        None \<Rightarrow> (c, h)
      | Some ts \<Rightarrow>
          (let c = c\<lparr>voice_call_request_timestamp := None\<rparr>;
               h = (if accepted then log_call (SetVoiceCallInput True) h else h);
               c = send_to_cm (if accepted then CmStartVoiceCall else CmCloseVoiceCall '''') c;
               c = conn_send_msg (VoiceCallResponse ts accepted) c;
               c = c\<lparr>voice_calling := accepted\<rparr>;
               h = (if is_authed_view_camera_conn c
                    then subscribe_conn audio_NAME c (audio_enabled c \<and> accepted) h else h)
           in (c, h)))"

definition close_voice_call :: "Connection \<Rightarrow> host \<Rightarrow> Connection \<times> host" where
  "close_voice_call c h =
     (let h = log_call (SetVoiceCallInput False) h;
          c = send_to_cm (CmCloseVoiceCall '''') c;
          c = c\<lparr>voice_calling := False\<rparr>;
          h = (if is_authed_view_camera_conn c then subscribe_conn audio_NAME c False h else h)
      in (c, h))"

section \<open>The answer to a successful login\<close>

definition noperms :: "host_env \<Rightarrow> Connection \<Rightarrow> string list" where
  "noperms e c =
     (if \<not> peer_keyboard_enabled c \<and> \<not> show_remote_cursor c then [NAME_CURSOR] else [])
   @ (if \<not> show_remote_cursor c then [NAME_POS] else [])
   @ (if \<not> follow_remote_window c then [NAME_WINDOW_FOCUS] else [])
   @ (if \<not> can_sub_clipboard_service e c then [CLIPBOARD_NAME] else [])
   @ (if \<not> audio_enabled c then [audio_NAME] else [])"

definition try_sub_monitor_services :: "host_env \<Rightarrow> Connection \<Rightarrow> host \<Rightarrow> Connection \<times> host" where
  "try_sub_monitor_services e c h =
     (if conn_is_remote c \<and> \<not> services_subed c then
        (let c = c\<lparr>services_subed := True\<rparr> in
         case server h of
           None \<Rightarrow> (c, h)
         | Some sv \<Rightarrow>
             (c\<lparr>auto_disconnect_timer := get_auto_disconenct_timer e\<rparr>,
              h\<lparr>server := Some (add_connection (primary_display e) (inner c) (noperms e c)
                                (try_add_primay_video_service (primary_display e) sv))\<rparr>))
      else (c, h))"

definition try_sub_camera_displays :: "host_env \<Rightarrow> Connection \<Rightarrow> host \<Rightarrow> host" where
  "try_sub_camera_displays e c h =
     with_server (\<lambda>sv. add_camera_connection (camera_exists e) (inner c)
                        (try_add_primary_camera_service (camera_exists e) sv)) h"

definition update_codec_on_login :: "Connection \<Rightarrow> host \<Rightarrow> host" where
  "update_codec_on_login c h =
     log_call (case lr_option (conn_lr c) of
                 Some m \<Rightarrow> (case om_supported_decoding m of
                             Some q \<Rightarrow> EncoderUpdate (conn_inner_id (inner c)) q
                           | None \<Rightarrow> EncoderNewOnlyVP9 (conn_inner_id (inner c)))
               | None \<Rightarrow> EncoderNewOnlyVP9 (conn_inner_id (inner c))) h"

definition on_remote_authorized :: "host_env \<Rightarrow> Connection \<Rightarrow> host \<Rightarrow> host" where
  "on_remote_authorized e c h =
     (let h = update_codec_on_login c h
      in if option2bool ''allow-remove-wallpaper'' (cfg e ''allow-remove-wallpaper'') \<and> \<not> wallpaper_remover h
         then h\<lparr>wallpaper_remover := wallpaper_ok e\<rparr> else h)"

definition init_terminal_service :: "host_env \<Rightarrow> Connection \<Rightarrow> Connection" where
  "init_terminal_service e c =
     (if \<not> terminal_user_token c then c
      else
        let c = (if terminal_service_id c = '''' then c\<lparr>terminal_service_id := fresh_service_id e\<rparr> else c)
        in c\<lparr>terminal_generic_service := Some (on_subscribe (inner c) (ServiceTmpl_new (terminal_service_id c) False))\<rparr>)"

definition platform_additions :: "host_env \<Rightarrow> (string \<times> bool) list" where
  "platform_additions e =
     (if is_wayland e then [(''is_wayland'', True)] else [])
   @ (if headless e then [(''headless'', True)] else [])
   @ [(''support_view_camera'', True)]"

definition base_peer_info :: "host_env \<Rightarrow> PeerInfo" where
  "base_peer_info e =
     \<lparr>pi_username = active_username e, pi_version = version_text e, pi_hostname = hostname e, pi_platform = platform e,
      pi_platform_additions = json_text e (platform_additions e), pi_terminal_feature = False, pi_encoding = None,
      pi_displays = [], pi_current_display = 0, pi_resolutions = None\<rparr>"

definition auth_conn_type :: "Connection \<Rightarrow> AuthConnType" where
  "auth_conn_type c =
     (if file_transfer c \<noteq> None then FileTransfer
      else if port_forward_socket c \<noteq> None then PortForward
      else if view_camera c then ViewCamera
      else if terminal c then Terminal
      else Remote)"

definition mark_authorized :: "host_env \<Rightarrow> Connection \<Rightarrow> host \<Rightarrow> Connection \<times> host" where
  "mark_authorized e c h =
     (let (i, h) = AuthedConnID_new e (conn_inner_id (inner c)) (auth_conn_type c) (session_key c) (conn_lr c) h
      in (c\<lparr>authorized := True, authed_conn_id := Some i,
            session_last_recv_time := map_option last_recv_time (hm_get (sessions h) (session_key c))\<rparr>, h))"

definition display_error :: "host_env \<Rightarrow> string" where
  "display_error e =
     (if login_screen_wayland e then ''Wayland login screen is not supported''
      else if display_server e \<noteq> ''x11'' \<and> display_server e \<noteq> ''wayland''
      then ''Unsupported display server type '' @ CHR 0x22 # display_server e @ CHR 0x22 # '', x11 or wayland expected''
      else '''')"

definition nth_opt :: "'a list \<Rightarrow> nat \<Rightarrow> 'a option" where
  "nth_opt xs i = (if i < length xs then Some (xs ! i) else None)"

text \<open>The peer information by kind of connection, and whether the monitor services are subscribed.\<close>

definition login_response :: "host_env \<Rightarrow> PeerInfo \<Rightarrow> Connection \<Rightarrow> host \<Rightarrow> bool \<times> out_msg \<times> Connection \<times> host" where
  "login_response e p c h =
     (if file_transfer c \<noteq> None \<or> terminal c then (False, LoginPeerInfo p, c, h)
      else if view_camera c then
        (let c = c\<lparr>last_supported_encoding := Some (supported_encoding e)\<rparr>;
             p = p\<lparr>pi_encoding := Some (supported_encoding e), pi_displays := cameras e,
                   pi_current_display := PRIMARY_CAMERA_IDX, pi_resolutions := Some (camera_resolution e)\<rparr>
         in (False, LoginPeerInfo p, c, update_codec_on_login c h))
      else
        (let c = c\<lparr>last_supported_encoding := Some (supported_encoding e)\<rparr>;
             p = p\<lparr>pi_encoding := Some (supported_encoding e)\<rparr>;
             c = (if inited_msg e then conn_send_msg InitedMsg c else c);
             h = log_call ActivateScreen h
         in case displays_on_login e of
              Inl err \<Rightarrow> (False, LoginError err False, c, on_remote_authorized e c h)
            | Inr ds \<Rightarrow>
                (let p = p\<lparr>pi_displays := ds, pi_current_display := display_idx c,
                           pi_resolutions := Some (case nth_opt ds (display_idx c) of Some d \<Rightarrow> resolutions e d | None \<Rightarrow> [])\<rparr>;
                     h = (if wayland_use_rdp_input e then log_call SetupRdpInput h else h)
                 in (True, LoginPeerInfo p, c, on_remote_authorized e c h))))"

definition after_login :: "host_env \<Rightarrow> bool \<Rightarrow> Connection \<Rightarrow> host \<Rightarrow> Connection \<times> host" where
  "after_login e sub_service c h =
     (case file_transfer c of
        Some (dir, hidden) \<Rightarrow>
          (send_to_cm (CmFS (ReadDir (if dir \<noteq> '''' \<and> is_dir e dir then dir else '''') hidden)) c, h)
      | None \<Rightarrow>
          if terminal c then (init_terminal_service e (c\<lparr>keyboard := False\<rparr>), h)
          else if view_camera c then
            (send_permission Keyboard False (c\<lparr>keyboard := False\<rparr>), try_sub_camera_displays e c h)
          else if sub_service then try_sub_monitor_services e c h
          else (c, h))"

definition logon_response :: "host_env \<Rightarrow> Connection \<Rightarrow> host \<Rightarrow> (Connection \<times> host) option" where
  "logon_response e c h =
     (let p = base_peer_info e in
      if port_forward_socket c \<noteq> None then Some (conn_send_msg (LoginPeerInfo p) c, h)
      else if conn_is_remote c \<and> display_error e \<noteq> '''' then Some (conn_send_msg (LoginError (display_error e) False) c, h)
      else
        let p = p\<lparr>pi_username := (if file_transfer c \<noteq> None \<and> is_prelogin e then '''' else active_username e),
                  pi_terminal_feature := True\<rparr>;
            (sub_service, res, c, h) = login_response e p c h;
            c = conn_send_msg res c
        in do {
             (c, h) \<leftarrow> (case options_in_login c of
                          Some m \<Rightarrow> update_options e m (c\<lparr>options_in_login := None\<rparr>) h
                        | None \<Rightarrow> Some (c, h));
             Some (after_login e sub_service c h)
           })"

definition send_logon_response_and_keep_alive :: "host_env \<Rightarrow> Connection \<Rightarrow> host \<Rightarrow> (bool \<times> Connection \<times> host) option" where
  "send_logon_response_and_keep_alive e c h =
     (if authorized c then Some (True, c, h)
      else
        let (recent, h) = (if require_2fa c \<noteq> None then is_recent_session e True c h else (False, h))
        in if require_2fa c \<noteq> None \<and> \<not> recent \<and> \<not> from_switch c
           then Some (True, send_login_error e REQUIRE_2FA c, h)
           else (case connect_port_forward_if_needed e c of
                   (False, c) \<Rightarrow> Some (False, c, h)
                 | (True, c) \<Rightarrow>
                     (let (c, h) = mark_authorized e c h
                      in map_option (Pair True) (logon_response e c h))))"

section \<open>Messages of the peer\<close>

definition LOGIN_MSG_DESKTOP_SESSION_NOT_READY :: string where
  "LOGIN_MSG_DESKTOP_SESSION_NOT_READY = ''Desktop session not ready''"
definition LOGIN_MSG_DESKTOP_SESSION_NOT_READY_PASSWORD_EMPTY :: string where
  "LOGIN_MSG_DESKTOP_SESSION_NOT_READY_PASSWORD_EMPTY = ''Desktop session not ready, password empty''"
definition LOGIN_MSG_DESKTOP_SESSION_NOT_READY_PASSWORD_WRONG :: string where
  "LOGIN_MSG_DESKTOP_SESSION_NOT_READY_PASSWORD_WRONG = ''Desktop session not ready, password wrong''"
definition LOGIN_MSG_PASSWORD_WRONG :: string where "LOGIN_MSG_PASSWORD_WRONG = ''Wrong Password''"
definition LOGIN_MSG_2FA_WRONG :: string where "LOGIN_MSG_2FA_WRONG = ''Wrong 2FA Code''"
definition LOGIN_MSG_NO_PASSWORD_ACCESS :: string where "LOGIN_MSG_NO_PASSWORD_ACCESS = ''No Password Access''"
definition LOGIN_MSG_OFFLINE :: string where "LOGIN_MSG_OFFLINE = ''Offline''"

definition domain_port_pattern :: string where
  "domain_port_pattern =
     ''(?i)^([a-z0-9]([a-z0-9-]{0,61}[a-z0-9])?'' @ CHR 0x5C # ''.)+[a-z][a-z-]{0,61}[a-z]:'' @ CHR 0x5C # ''d{1,5}$''"

definition is_ip_str :: "(string \<Rightarrow> string \<Rightarrow> bool) \<Rightarrow> string \<Rightarrow> bool" where
  "is_ip_str matches i \<longleftrightarrow> is_ipv4_str matches i \<or> is_ipv6_str matches i"

definition is_domain_port_str :: "(string \<Rightarrow> string \<Rightarrow> bool) \<Rightarrow> string \<Rightarrow> bool" where
  "is_domain_port_str matches i = matches domain_port_pattern i"

fun refusal_text :: "refusal \<Rightarrow> string" where
  "refusal_text (TooManyForPrefix n) = ''Too many wrong attempts for IPv6 prefix /'' @ nat_to_string n"
| "refusal_text TooManyAttempts = ''Too many wrong attempts''"
| "refusal_text TryOneMinuteLater = ''Please try 1 minute later''"

text \<open>
  What a login request asks for: the connection's kind is set when its permission is given, otherwise
  the request is answered with an error and the connection dropped.
\<close>

definition request_kind :: "host_env \<Rightarrow> LoginRequest \<Rightarrow> Connection \<Rightarrow> bool \<times> Connection" where
  "request_kind e l c =
     (case lr_union l of
        Some (LU_FileTransfer dir hidden) \<Rightarrow>
          if permission (cfg e) OPTION_ENABLE_FILE_TRANSFER (control_permissions c)
          then (True, c\<lparr>file_transfer := Some (dir, hidden)\<rparr>)
          else (False, send_login_error e ''No permission of file transfer'' c)
      | Some LU_ViewCamera \<Rightarrow>
          if permission (cfg e) OPTION_ENABLE_CAMERA (control_permissions c) then (True, c\<lparr>view_camera := True\<rparr>)
          else (False, send_login_error e ''No permission of viewing camera'' c)
      | Some (LU_Terminal service) \<Rightarrow>
          if permission (cfg e) OPTION_ENABLE_TERMINAL (control_permissions c) then
            (let c = c\<lparr>terminal := True\<rparr>;
                 c = (case options_in_login c of
                        Some m \<Rightarrow> c\<lparr>terminal_persistent := (om_terminal_persistent m = Some OptYes)\<rparr>
                      | None \<Rightarrow> c);
                 c = c\<lparr>terminal_service_id := service, terminal_user_token := True\<rparr>
             in if service_specified_user e service = Some True
                then (False, send_login_error e ''Terminal service user mismatch detected.'' c)
                else (True, c))
          else (False, send_login_error e ''No permission of terminal'' c)
      | Some (LU_PortForward host port) \<Rightarrow>
          if permission (cfg e) OPTION_ENABLE_TUNNEL (control_permissions c)
          then (True, c\<lparr>port_forward_address := fst (normalize_port_forward_target host port)\<rparr>)
          else (False, send_login_error e ''No permission of IP tunneling'' c)
      | None \<Rightarrow> (True, c))"

definition needs_click :: "host_env \<Rightarrow> host \<Rightarrow> bool" where
  "needs_click e h \<longleftrightarrow>
     (approve_mode (cfg e) = ApproveClick
        \<and> \<not> (builtin_cfg e ''allow-logon-screen-password'' = ''Y'' \<and> (is_prelogin e \<or> is_locked e)))
     \<or> (approve_mode (cfg e) = ApproveBoth
        \<and> \<not> has_valid_password (cfg e) (temporary_password h) (permanent_password e))"

definition logon_and_start_cm :: "host_env \<Rightarrow> string \<Rightarrow> string \<Rightarrow> Connection \<Rightarrow> host \<Rightarrow> (bool \<times> Connection \<times> host) option" where
  "logon_and_start_cm e i name c h =
     map_option (\<lambda>(keep, c, h). if keep then (True, try_start_cm i name (authorized c) c, h) else (False, c, h))
       (send_logon_response_and_keep_alive e c h)"

definition password_login :: "host_env \<Rightarrow> string \<Rightarrow> LoginRequest \<Rightarrow> Connection \<Rightarrow> host \<Rightarrow> (bool \<times> Connection \<times> host) option" where
  "password_login e err_msg l c h =
     (case check_failure (minute_of (nat (time_ms e))) (conn_ip c) (login_failures h) of
        (failure, Some r) \<Rightarrow> Some (True, send_login_error e (refusal_text r) c, h)
      | (failure, None) \<Rightarrow>
          (case validate_password e c h of
             (False, h) \<Rightarrow>
               (let h = h\<lparr>login_failures := update_failure (conn_ip c) failure False (login_failures h)\<rparr>
                in Some (True,
                     (if err_msg = ''''
                      then try_start_cm (lr_my_id l) (lr_my_name l) False (send_login_error e LOGIN_MSG_PASSWORD_WRONG c)
                      else send_login_error e LOGIN_MSG_DESKTOP_SESSION_NOT_READY_PASSWORD_WRONG c), h))
           | (True, h) \<Rightarrow>
               (let h = h\<lparr>login_failures := update_failure (conn_ip c) failure True (login_failures h)\<rparr>
                in if err_msg = '''' then logon_and_start_cm e (lr_my_id l) (lr_my_name l) c h
                   else Some (True, send_login_error e err_msg c, h))))"

definition on_login_request :: "host_env \<Rightarrow> LoginRequest \<Rightarrow> Connection \<Rightarrow> host \<Rightarrow> (bool \<times> Connection \<times> host) option" where
  "on_login_request e l c h =
     (let c = handle_login_request_without_validation e l c h in
      if authorized c then Some (True, c, h)
      else case request_kind e l c of
        (False, c) \<Rightarrow> Some (False, c, h)
      | (True, c) \<Rightarrow>
          (let c = c\<lparr>cm_ipc_started := True\<rparr>;
               err_msg = desktop_error e (lr_os_login l)
           in if err_msg \<noteq> '''' \<and> err_msg \<noteq> LOGIN_MSG_DESKTOP_SESSION_NOT_READY
              then Some (True, send_login_error e err_msg c, h)
              else if \<not> is_ip_str (is_match e) (lr_username l) \<and> \<not> is_domain_port_str (is_match e) (lr_username l)
                      \<and> lr_username l \<noteq> config_id e
              then Some (False, send_login_error e LOGIN_MSG_OFFLINE c, h)
              else if needs_click e h then
                (let c = try_start_cm (lr_my_id l) (lr_my_name l) False c
                 in Some (True,
                      (if sint (get_version_number ''1.2.0'') \<le> sint (get_version_number (lr_version l))
                       then send_login_error e LOGIN_MSG_NO_PASSWORD_ACCESS c else c), h))
              else
                (let (recent, h) = is_recent_session e False c h
                 in if recent then
                      (if err_msg = '''' then logon_and_start_cm e (lr_my_id l) (lr_my_name l) c h
                       else Some (True, send_login_error e err_msg c, h))
                    else if lr_password l = '''' then
                      Some (True,
                        (if err_msg = '''' then try_start_cm (lr_my_id l) (lr_my_name l) False c
                         else send_login_error e LOGIN_MSG_DESKTOP_SESSION_NOT_READY_PASSWORD_EMPTY c), h)
                    else password_login e err_msg l c h)))"

definition on_auth_2fa :: "host_env \<Rightarrow> string \<Rightarrow> string \<Rightarrow> Connection \<Rightarrow> host \<Rightarrow> (bool \<times> Connection \<times> host) option" where
  "on_auth_2fa e code hwid c h =
     (case check_failure (minute_of (nat (time_ms e))) (conn_ip c) (tfa_failures h) of
        (failure, Some r) \<Rightarrow> Some (True, send_login_error e (refusal_text r) c, h)
      | (failure, None) \<Rightarrow>
          (case require_2fa c of
             None \<Rightarrow> Some (True, c, h)
           | Some totp \<Rightarrow>
               (case totp_check e totp code of
                  None \<Rightarrow> Some (True, c, h)
                | Some False \<Rightarrow>
                    Some (True, send_login_error e LOGIN_MSG_2FA_WRONG c,
                      h\<lparr>tfa_failures := update_failure (conn_ip c) failure False (tfa_failures h)\<rparr>)
                | Some True \<Rightarrow>
                    (let h = h\<lparr>tfa_failures := update_failure (conn_ip c) failure True (tfa_failures h)\<rparr>;
                         c = c\<lparr>require_2fa := None\<rparr>;
                         h = set_session_2fa e (session_key c) h
                     in map_option (\<lambda>(keep, c, h).
                          if \<not> keep then (False, c, h)
                          else (True, c,
                            if hwid \<noteq> '''' \<and> enable_trusted_devices e
                            then add_trusted_device e
                                   \<lparr>td_hwid = hwid, td_time = time_ms e, td_id = lr_my_id (conn_lr c),
                                    td_name = lr_my_name (conn_lr c), td_platform = lr_my_platform (conn_lr c)\<rparr> h
                            else h))
                          (logon_and_start_cm e (lr_my_id (conn_lr c)) (lr_my_name (conn_lr c)) c h)))))"

definition on_test_delay :: "host_env \<Rightarrow> bool \<Rightarrow> int \<Rightarrow> Connection \<Rightarrow> host \<Rightarrow> (bool \<times> Connection \<times> host) option" where
  "on_test_delay e from_client t c h =
     (if from_client then
        Some (True, c, h\<lparr>host_channels := conn_send (OtherUnion (encode_msg e (TestDelayMsg from_client t))) (inner c) (host_channels h)\<rparr>)
      else case last_test_delay c of
        None \<Rightarrow> Some (True, c, h)
      | Some tm \<Rightarrow>
          (let new_delay = (now e - tm) mod 2 ^ 32
           in map_option (\<lambda>h. (True, c\<lparr>last_test_delay := None, network_delay := new_delay\<rparr>, h))
                (qos_call (user_network_delay True (now e) (conn_inner_id (inner c)) new_delay) h)))"

definition on_switch_sides_response :: "host_env \<Rightarrow> LoginRequest option \<Rightarrow> string \<Rightarrow> Connection \<Rightarrow> host \<Rightarrow> (bool \<times> Connection \<times> host) option" where
  "on_switch_sides_response e lo raw c h =
     (case lo of
        None \<Rightarrow> Some (True, c, h)
      | Some l \<Rightarrow>
          (let c = handle_login_request_without_validation e l c h;
               table = filter (\<lambda>(_, v). now e - fst v < 10000) (switch_sides_uuid h);
               uuid_old = hm_get table (lr_my_id l);
               h = h\<lparr>switch_sides_uuid := hm_remove (lr_my_id l) table\<rparr>
           in case (uuid_from_slice e raw, uuid_old) of
                (Some u, Some (_, u_old)) \<Rightarrow>
                  if u = u_old then
                    map_option (\<lambda>(keep, c, h). if keep then (True, c\<lparr>cm_ipc_started := True\<rparr>, h) else (False, c, h))
                      (logon_and_start_cm e (lr_my_id l) (lr_my_name l) (c\<lparr>from_switch := True\<rparr>) h)
                  else Some (True, c, h)
              | _ \<Rightarrow> Some (True, c, h)))"

definition on_close_reason :: "Connection \<Rightarrow> host \<Rightarrow> bool \<times> Connection \<times> host" where
  "on_close_reason c h =
     (let (c, h) = on_close True c h
      in (False, c, check_remove_session (conn_inner_id (inner c)) (session_key c) h))"


section \<open>Who gets in\<close>

text \<open>The specification: what counts as a password, as a live session and as a second factor.\<close>

definition request_key :: "LoginRequest \<Rightarrow> SessionKey" where
  "request_key l = \<lparr>sk_peer_id = lr_my_id l, sk_name = lr_my_name l, sk_session_id = lr_session_id l\<rparr>"

definition live_session :: "host_env \<Rightarrow> host \<Rightarrow> SessionKey \<Rightarrow> Session \<Rightarrow> bool" where
  "live_session e h key s \<longleftrightarrow>
     (key, s) \<in> set (sessions h) \<and> now e - cell_time h (last_recv_time s) < SESSION_TIMEOUT"

definition accepted_password :: "host_env \<Rightarrow> host \<Rightarrow> SessionKey \<Rightarrow> string \<Rightarrow> bool" where
  "accepted_password e h key pw \<longleftrightarrow> pw \<noteq> '''' \<and>
     (temporary_enabled (cfg e) \<and> pw = temporary_password h
      \<or> permanent_enabled (cfg e) \<and> pw = permanent_password e
      \<or> (\<exists>s. live_session e h key s \<and> pw = random_password s))"

definition first_factor :: "host_env \<Rightarrow> LoginRequest \<Rightarrow> Connection \<Rightarrow> host \<Rightarrow> bool" where
  "first_factor e l c h \<longleftrightarrow>
     (\<exists>pw. accepted_password e h (request_key l) pw
           \<and> lr_password l = sha256 e (sha256 e (pw @ hash_salt c) @ hash_challenge c))"

definition trusted_device :: "host_env \<Rightarrow> LoginRequest \<Rightarrow> host \<Rightarrow> bool" where
  "trusted_device e l h \<longleftrightarrow> enable_trusted_devices e \<and> lr_hwid l \<noteq> '''' \<and>
     (\<exists>d \<in> set (trusted_devices h). td_hwid d = lr_hwid l \<and> \<not> outdate e d
         \<and> td_id d = lr_my_id l \<and> td_name d = lr_my_name l \<and> td_platform d = lr_my_platform l)"

definition second_factor :: "host_env \<Rightarrow> LoginRequest \<Rightarrow> Connection \<Rightarrow> host \<Rightarrow> bool" where
  "second_factor e l c h \<longleftrightarrow>
     require_2fa c = None \<or> trusted_device e l h \<or> (\<exists>s. live_session e h (request_key l) s \<and> tfa s)"

lemmas conn_messages = send_login_error_def conn_send_msg_def try_start_cm_def send_to_cm_def send_permission_def

lemma set_hm_insert_sub: "set (hm_insert k v m) \<subseteq> insert (k, v) (set m)"
  unfolding hm_insert_def by (induction m) auto

lemma hm_get_in: "hm_get m k = Some v \<Longrightarrow> (k, v) \<in> set m"
  by (simp add: hm_get_def map_of_SomeD)

lemma hm_get_None: "hm_get m k = None \<Longrightarrow> (k, v) \<notin> set m"
  by (force simp: hm_get_def map_of_eq_None_iff)

lemma session_key_request: "conn_lr c = l \<Longrightarrow> session_key c = request_key l"
  by (simp add: session_key_def request_key_def)

lemma recent_live:
  assumes "fst (is_recent_session e second c h)"
  shows "\<exists>s. live_session e h (session_key c) s \<and>
    (second \<and> tfa s \<or> \<not> second \<and> validate_one_password e (random_password s) c)"
  using assms
  by (auto simp: is_recent_session_def Let_def retain_sessions_def live_session_def split: option.splits
      dest!: hm_get_in)

lemma recent_host: "server (snd (is_recent_session e second c h)) = server h"
  by (simp add: is_recent_session_def Let_def retain_sessions_def split: option.splits)

lemma update_session_live:
  assumes "live_session e (update_or_insert_session e' key p (Some False) h) key s" "tfa s"
  shows "live_session e h key s"
proof (cases "hm_get (sessions h) key")
  case None
  with assms show ?thesis
    using set_hm_insert_sub hm_get_None [OF None]
    by (fastforce simp: update_or_insert_session_def live_session_def new_cell_def Let_def)
next
  case (Some s0)
  with assms show ?thesis
    using set_hm_insert_sub
    by (fastforce simp: update_or_insert_session_def live_session_def Let_def cell_time_def split: option.splits)
qed

text \<open>What the steps before the decision leave alone.\<close>

definition same_login :: "Connection \<Rightarrow> Connection \<Rightarrow> bool" where
  "same_login c c' \<longleftrightarrow> authorized c' = authorized c \<and> hash_salt c' = hash_salt c \<and> hash_challenge c' = hash_challenge c
     \<and> from_switch c' = from_switch c \<and> conn_ip c' = conn_ip c \<and> inner c' = inner c
     \<and> session_last_recv_time c' = session_last_recv_time c \<and> authed_conn_id c' = authed_conn_id c"

lemma same_login_trans: "\<lbrakk>same_login a b; same_login b c\<rbrakk> \<Longrightarrow> same_login a c"
  by (simp add: same_login_def)

lemma same_loginD:
  assumes "same_login c c'"
  shows "authorized c' = authorized c" "hash_salt c' = hash_salt c" "hash_challenge c' = hash_challenge c"
    "from_switch c' = from_switch c" "conn_ip c' = conn_ip c" "inner c' = inner c"
    "session_last_recv_time c' = session_last_recv_time c" "authed_conn_id c' = authed_conn_id c"
  using assms by (simp_all add: same_login_def)

lemma handle_login_same: "same_login c (handle_login_request_without_validation e l c h)"
  by (auto simp: handle_login_request_without_validation_def same_login_def Let_def split: option.splits)

lemma handle_login_lr: "conn_lr (handle_login_request_without_validation e l c h) = l"
  by (auto simp: handle_login_request_without_validation_def Let_def split: option.splits)

lemma handle_login_2fa:
  assumes "require_2fa (handle_login_request_without_validation e l c h) = None"
  shows "require_2fa c = None \<or> trusted_device e l h"
proof (rule ccontr)
  assume n: "\<not> (require_2fa c = None \<or> trusted_device e l h)"
  have "find (\<lambda>d. td_hwid d = lr_hwid l) (trusted_devices h) = Some d \<Longrightarrow>
      d \<in> set (trusted_devices h) \<and> td_hwid d = lr_hwid l" for d
    by (auto simp: find_Some_iff)
  with n assms show False
    by (auto simp: handle_login_request_without_validation_def trusted_device_def Let_def split: option.splits if_splits)
qed

lemma handle_login_2fa_kept:
  "require_2fa (handle_login_request_without_validation e l c h) \<in> {None, require_2fa c}"
  by (auto simp: handle_login_request_without_validation_def Let_def split: option.splits)

lemma request_kind_same:
  "request_kind e l c = (k, c') \<Longrightarrow> same_login c c' \<and> conn_lr c' = conn_lr c \<and> require_2fa c' = require_2fa c"
  by (auto simp: request_kind_def same_login_def conn_messages Let_def split: option.splits login_union.splits if_splits)

lemma connect_same:
  "connect_port_forward_if_needed e c = (k, c') \<Longrightarrow> same_login c c' \<and> conn_lr c' = conn_lr c"
  by (auto simp: connect_port_forward_if_needed_def same_login_def conn_messages Let_def
      split: option.splits login_union.splits if_splits prod.splits)

lemma logon_authorized:
  assumes "send_logon_response_and_keep_alive e c h = Some (k, c', h')" "authorized c'" "\<not> authorized c"
  shows "require_2fa c = None \<or> fst (is_recent_session e True c h) \<or> from_switch c"
  using assms
  by (auto simp: send_logon_response_and_keep_alive_def conn_messages Let_def split: prod.splits if_splits)

lemma set_flag_same:
  assumes "\<And>b s. same_login (fst s) (fst (f b s))" "same_login c (fst s)"
  shows "same_login c (fst (set_flag x f s))"
  using same_login_trans [OF assms(2) assms(1)] assms(2) by (cases "(x, f, s)" rule: set_flag.cases) simp_all

lemma privacy_options_same: "same_login c (privacy_options m c)"
  by (auto simp: privacy_options_def same_login_def conn_messages split: option.splits)

lemma block_input_options_same: "same_login (fst s) (fst (block_input_options e m s))"
  by (auto simp: block_input_options_def same_login_def split: prod.splits option.splits BoolOption.splits)

lemma show_cursor_option_same: "same_login (fst s) (fst (show_cursor_option e b s))"
  by (auto simp: show_cursor_option_def same_login_def conn_messages Let_def split: prod.splits)

lemma apply_flags_same: "same_login (fst s) (fst (apply_flags e m s))"
proof -
  have f: "same_login c0 (fst (apfst (privacy_options m) s))" if "same_login c0 (fst s)" for c0 and s :: "Connection \<times> host"
    using that privacy_options_same same_login_trans by (metis fst_apfst)
  have g: "same_login c0 (fst (block_input_options e m s))" if "same_login c0 (fst s)" for c0 s
    using that block_input_options_same same_login_trans by blast
  show ?thesis unfolding apply_flags_def Let_def
    by (intro set_flag_same show_cursor_option_same f g) (auto simp: same_login_def split: prod.splits)
qed

lemma update_options_same:
  assumes "update_options e m c h = Some (c', h')"
  shows "same_login c c'"
proof -
  from assms obtain h1 where "apply_flags e m (c, h1) = (c', h')"
    by (auto simp: update_options_def Let_def bind_eq_Some_conv)
  then show ?thesis using apply_flags_same [of "(c, h1)" e m] by simp
qed

lemma login_response_same: "login_response e p c h = (b, r, c', h') \<Longrightarrow> same_login c c'"
  by (auto simp: login_response_def same_login_def conn_messages Let_def split: sum.splits if_splits)

lemma after_login_same: "same_login c (fst (after_login e b c h))"
  by (auto simp: after_login_def same_login_def conn_messages init_terminal_service_def try_sub_monitor_services_def Let_def
      split: option.splits)

lemma logon_response_same:
  assumes "logon_response e c h = Some (c', h')"
  shows "same_login c c'"
proof -
  have snd: "same_login c0 (conn_send_msg r c1)" if "same_login c0 c1" for c0 r c1
    using that by (simp add: same_login_def conn_send_msg_def)
  obtain p where p: "p = (base_peer_info e)\<lparr>pi_username := (if file_transfer c \<noteq> None \<and> is_prelogin e then '''' else active_username e),
      pi_terminal_feature := True\<rparr>" by simp
  obtain b r c1 h1 where lr: "login_response e p c h = (b, r, c1, h1)" by (metis prod_cases4)
  show ?thesis
  proof (cases "port_forward_socket c \<noteq> None \<or> conn_is_remote c \<and> display_error e \<noteq> ''''")
    case True
    then show ?thesis using assms by (auto simp: logon_response_def Let_def same_login_def conn_send_msg_def split: if_splits)
  next
    case False
    let ?c = "conn_send_msg r c1"
    from False assms obtain c2 h2 where o: "(case options_in_login ?c of Some m \<Rightarrow> update_options e m (?c\<lparr>options_in_login := None\<rparr>) h1
          | None \<Rightarrow> Some (?c, h1)) = Some (c2, h2)" and a: "after_login e b c2 h2 = (c', h')"
      using lr unfolding logon_response_def Let_def p by (auto simp: bind_eq_Some_conv split: if_splits)
    have "same_login c ?c" using login_response_same [OF lr] snd by blast
    moreover have "same_login ?c c2"
      using o update_options_same by (fastforce simp: same_login_def split: option.splits)
    moreover have "same_login c2 c'" using after_login_same [of c2 e b h2] a by simp
    ultimately show ?thesis using same_login_trans by blast
  qed
qed

lemma logon_unauthorized:
  assumes "send_logon_response_and_keep_alive e c h = Some (k, c', h')" "\<not> authorized c'"
  shows "same_login c c' \<and> server h' = server h"
proof (cases "authorized c \<or> require_2fa c \<noteq> None \<and> \<not> fst (is_recent_session e True c h) \<and> \<not> from_switch c")
  case True
  with assms(1,2) recent_host [of e True c h] show ?thesis
    by (auto simp: send_logon_response_and_keep_alive_def same_login_def conn_messages Let_def split: prod.splits if_splits)
next
  case False
  obtain k1 c1 where con: "connect_port_forward_if_needed e c = (k1, c1)" by (cases "connect_port_forward_if_needed e c")
  from connect_same [OF con] have s: "same_login c c1" by simp
  show ?thesis
  proof (cases k1)
    case True
    have "authorized c3" if "logon_response e c2 h2 = Some (c3, h3)" "authorized c2" for c2 h2 c3 h3
      using logon_response_same [OF that(1)] that(2) by (simp add: same_login_def)
    with True False assms(1,2) con show ?thesis
      by (fastforce simp: send_logon_response_and_keep_alive_def mark_authorized_def Let_def split: prod.splits if_splits)
  next
    case k1: False
    with False assms(1) con s recent_host [of e True c h] show ?thesis
      by (auto simp: send_logon_response_and_keep_alive_def Let_def split: prod.splits if_splits)
  qed
qed

lemma try_start_cm_same [simp]: "same_login c (try_start_cm i n b c)" "conn_lr (try_start_cm i n b c) = conn_lr c"
  "authorized (try_start_cm i n b c) = authorized c"
  by (simp_all add: same_login_def conn_messages)

lemma send_login_error_same [simp]: "same_login c (send_login_error e m c)" "authorized (send_login_error e m c) = authorized c"
  by (simp_all add: same_login_def conn_messages)

lemma same_login_refl [simp]: "same_login c c"
  by (simp add: same_login_def)

lemma logon_and_start_cm_Some:
  assumes "logon_and_start_cm e i n c h = Some (k, c', h')"
  obtains c1 where "send_logon_response_and_keep_alive e c h = Some (k, c1, h')" "same_login c1 c'"
  using assms by (auto simp: logon_and_start_cm_def split: if_splits)

lemma password_login_host:
  assumes "validate_password e c h = (True, h1)" "conn_lr c = l"
  shows "first_factor e l c h"
    and "fst (is_recent_session e True c (h1\<lparr>login_failures := t\<rparr>)) \<Longrightarrow> \<exists>s. live_session e h (request_key l) s \<and> tfa s"
proof -
  have w: "pw \<noteq> [] \<and> lr_password l = sha256 e (sha256 e (pw @ hash_salt c) @ hash_challenge c)"
    if "validate_one_password e pw c" for pw
    using that assms(2) by (simp add: validate_one_password_def split: if_splits)
  have "\<exists>pw. validate_one_password e pw c \<and> (temporary_enabled (cfg e) \<and> pw = temporary_password h
      \<or> permanent_enabled (cfg e) \<and> pw = permanent_password e)"
    using assms(1) by (auto simp: validate_password_def split: if_splits)
  with w show "first_factor e l c h"
    unfolding first_factor_def accepted_password_def by metis
  assume "fst (is_recent_session e True c (h1\<lparr>login_failures := t\<rparr>))"
  then obtain s where s: "live_session e h1 (request_key l) s" "tfa s"
    using recent_live assms(2) by (fastforce simp: session_key_request live_session_def cell_time_def)
  have "h1 = h \<or> h1 = update_or_insert_session e (session_key c) (Some (temporary_password h)) (Some False) h"
    using assms(1) by (auto simp: validate_password_def split: if_splits)
  with s update_session_live show "\<exists>s. live_session e h (request_key l) s \<and> tfa s"
    using session_key_request [OF assms(2)] by metis
qed

lemma password_login_authorized:
  assumes "password_login e err l c h = Some (k, c', h')" "\<not> authorized c" "authorized c'" "conn_lr c = l"
  shows "first_factor e l c h \<and>
    (require_2fa c = None \<or> (\<exists>s. live_session e h (request_key l) s \<and> tfa s) \<or> from_switch c)"
proof -
  obtain failure r where cf: "check_failure (minute_of (nat (time_ms e))) (conn_ip c) (login_failures h) = (failure, r)"
    by (cases "check_failure (minute_of (nat (time_ms e))) (conn_ip c) (login_failures h)")
  obtain ok h1 where v: "validate_password e c h = (ok, h1)" by (cases "validate_password e c h")
  have ok: "r = None" "ok" "err = ''''"
    using assms cf v by (auto simp: password_login_def Let_def split: option.splits if_splits bool.splits)
  then obtain t where "logon_and_start_cm e (lr_my_id l) (lr_my_name l) c (h1\<lparr>login_failures := t\<rparr>) = Some (k, c', h')"
    using assms(1) cf v by (auto simp: password_login_def Let_def)
  then obtain c1 where c1: "send_logon_response_and_keep_alive e c (h1\<lparr>login_failures := t\<rparr>) = Some (k, c1, h')" "same_login c1 c'"
    by (rule logon_and_start_cm_Some)
  from logon_authorized [OF c1(1)] assms(2,3) same_loginD(1) [OF c1(2)]
  have "require_2fa c = None \<or> fst (is_recent_session e True c (h1\<lparr>login_failures := t\<rparr>)) \<or> from_switch c" by simp
  moreover have "validate_password e c h = (True, h1)" using v ok(2) by simp
  ultimately show ?thesis using password_login_host assms(4) by blast
qed

text \<open>A step that leaves the peer outside: nothing is subscribed and the connection stays as it was.\<close>

definition stays_out :: "bool \<Rightarrow> Connection \<Rightarrow> host \<Rightarrow> Connection \<Rightarrow> host \<Rightarrow> bool" where
  "stays_out k c h c' h' \<longleftrightarrow> server h' = server h \<and> inner c' = inner c \<and> (k \<longrightarrow> from_switch c' = from_switch c)"

lemma stays_outI: "\<lbrakk>same_login c c'; server h' = server h\<rbrakk> \<Longrightarrow> stays_out k c h c' h'"
  by (simp add: stays_out_def same_login_def)

lemma stays_out_start: "\<lbrakk>same_login c c1; stays_out k c1 h c' h'\<rbrakk> \<Longrightarrow> stays_out k c h c' h'"
  by (simp add: stays_out_def same_login_def)

lemma logon_and_start_cm_out:
  assumes "logon_and_start_cm e i n c h = Some (k, c', h')" "\<not> authorized c'"
  shows "same_login c c' \<and> server h' = server h"
proof -
  from assms(1) obtain c1 where c1: "send_logon_response_and_keep_alive e c h = Some (k, c1, h')" "same_login c1 c'"
    by (rule logon_and_start_cm_Some)
  with logon_unauthorized [OF c1(1)] assms(2) same_loginD(1) [OF c1(2)] same_login_trans show ?thesis by blast
qed

lemma validate_password_server: "server (snd (validate_password e c h)) = server h"
  by (auto simp: validate_password_def update_or_insert_session_def new_cell_def Let_def split: option.splits)

lemma password_login_out:
  assumes "password_login e err l c h = Some (k, c', h')" "\<not> authorized c'"
  shows "same_login c c' \<and> server h' = server h"
proof -
  obtain failure r where cf: "check_failure (minute_of (nat (time_ms e))) (conn_ip c) (login_failures h) = (failure, r)"
    by (cases "check_failure (minute_of (nat (time_ms e))) (conn_ip c) (login_failures h)")
  obtain ok h1 where v: "validate_password e c h = (ok, h1)" by (cases "validate_password e c h")
  then have s: "server h1 = server h" using validate_password_server [of e c h] by simp
  have t: "same_login c (try_start_cm i n b (send_login_error e m c))" for i n b m
    by (simp add: same_login_def conn_messages)
  show ?thesis
  proof (cases "r = None \<and> ok \<and> err = ''''")
    case True
    then obtain t where "logon_and_start_cm e (lr_my_id l) (lr_my_name l) c (h1\<lparr>login_failures := t\<rparr>) = Some (k, c', h')"
      using assms(1) cf v by (auto simp: password_login_def Let_def)
    from logon_and_start_cm_out [OF this assms(2)] s show ?thesis by simp
  next
    case False
    with assms(1) cf v s t show ?thesis
      by (cases r; cases ok) (auto simp: password_login_def Let_def split: if_splits)
  qed
qed

lemma on_login_request_cases:
  assumes "on_login_request e l c h = Some (k, c', h')" "\<not> authorized c"
  obtains (refused) "same_login c c'" "server h' = server h"
  | (recent) c1 where "same_login c c1" "conn_lr c1 = l" "require_2fa c1 = require_2fa (handle_login_request_without_validation e l c h)"
      "fst (is_recent_session e False c1 h)"
      "logon_and_start_cm e (lr_my_id l) (lr_my_name l) c1 (snd (is_recent_session e False c1 h)) = Some (k, c', h')"
      "\<not> needs_click e h"
  | (password) c1 err where "same_login c c1" "conn_lr c1 = l" "require_2fa c1 = require_2fa (handle_login_request_without_validation e l c h)"
      "password_login e err l c1 (snd (is_recent_session e False c1 h)) = Some (k, c', h')" "\<not> needs_click e h"
proof -
  let ?c0 = "handle_login_request_without_validation e l c h"
  have c0: "same_login c ?c0" "conn_lr ?c0 = l" by (rule handle_login_same, rule handle_login_lr)
  obtain kk ck where rk: "request_kind e l ?c0 = (kk, ck)" by (cases "request_kind e l ?c0")
  define c1 where "c1 = ck\<lparr>cm_ipc_started := True\<rparr>"
  from request_kind_same [OF rk] c0 same_login_trans have ck: "same_login c ck" by blast
  then have c1: "same_login c c1" "conn_lr c1 = l" "require_2fa c1 = require_2fa ?c0"
    using request_kind_same [OF rk] c0 by (simp_all add: c1_def same_login_def)
  obtain rec h1 where r: "is_recent_session e False c1 h = (rec, h1)" by (cases "is_recent_session e False c1 h")
  have h1: "server h1 = server h" using recent_host [of e False c1 h] r by simp
  have t: "same_login c (send_login_error e m c1)" "same_login c (try_start_cm i n b c1)"
    "same_login c (send_login_error e m (try_start_cm i n b c1))" for m i n b
    using c1(1) by (simp_all add: same_login_def conn_messages)
  let ?err = "desktop_error e (lr_os_login l)"
  let ?out = "?err \<noteq> '''' \<and> ?err \<noteq> LOGIN_MSG_DESKTOP_SESSION_NOT_READY"
  let ?off = "\<not> is_ip_str (is_match e) (lr_username l) \<and> \<not> is_domain_port_str (is_match e) (lr_username l) \<and> lr_username l \<noteq> config_id e"
  have a0: "\<not> authorized ?c0" using c0(1) assms(2) by (simp add: same_login_def)
  show thesis
  proof (cases "\<not> kk \<or> ?out \<or> ?off \<or> needs_click e h \<or> (rec \<and> ?err \<noteq> '''') \<or> (\<not> rec \<and> lr_password l = '''')")
    case True
    have "same_login c c' \<and> server h' = server h"
    proof (cases kk)
      case kk: True
      show ?thesis using assms(1) True t h1 c1
        by (simp add: on_login_request_def Let_def a0 rk kk c1_def [symmetric] r split: if_splits) auto
    next
      case False
      then show ?thesis using assms(1) ck by (simp add: on_login_request_def Let_def a0 rk)
    qed
    then show thesis using refused by blast
  next
    case False
    then have "if rec then logon_and_start_cm e (lr_my_id l) (lr_my_name l) c1 h1 = Some (k, c', h')
        else password_login e ?err l c1 h1 = Some (k, c', h')"
      using assms(1) by (simp add: on_login_request_def Let_def a0 rk c1_def [symmetric] r split: if_splits)
    then show thesis using recent [of c1] password [of c1 ?err] c1 r False by (cases rec) simp_all
  qed
qed

lemma recent_sessions:
  "sessions (snd (is_recent_session e second c h)) =
     filter (\<lambda>(_, s). now e - cell_time h (last_recv_time s) < SESSION_TIMEOUT) (sessions h)"
  "clock_cells (snd (is_recent_session e second c h)) = clock_cells h"
  "temporary_password (snd (is_recent_session e second c h)) = temporary_password h"
  by (simp_all add: is_recent_session_def retain_sessions_def Let_def split: option.splits)

lemma recent_live_back: "live_session e (snd (is_recent_session e second c h)) key s \<Longrightarrow> live_session e h key s"
  by (auto simp: live_session_def recent_sessions cell_time_def)

lemma first_factor_same: "same_login c c1 \<Longrightarrow> first_factor e l c1 h = first_factor e l c h"
  by (simp add: first_factor_def same_login_def)

lemma first_factor_back: "first_factor e l c (snd (is_recent_session e second c1 h)) \<Longrightarrow> first_factor e l c h"
  using recent_live_back [of e second c1 h]
  by (auto simp: first_factor_def accepted_password_def recent_sessions(3))

lemma recent_first_factor:
  assumes "fst (is_recent_session e False c h)" "conn_lr c = l"
  shows "first_factor e l c h"
proof -
  from recent_live [OF assms(1)] obtain s where
    s: "live_session e h (request_key l) s" "validate_one_password e (random_password s) c"
    using session_key_request [OF assms(2)] by auto
  then have "random_password s \<noteq> []" "lr_password l = sha256 e (sha256 e (random_password s @ hash_salt c) @ hash_challenge c)"
    using assms(2) by (simp_all add: validate_one_password_def split: if_splits)
  with s(1) show ?thesis unfolding first_factor_def accepted_password_def by blast
qed

lemma second_factorI:
  assumes "require_2fa (handle_login_request_without_validation e l c h) = None \<or> (\<exists>s. live_session e h (request_key l) s \<and> tfa s)"
  shows "second_factor e l c h"
  using assms handle_login_2fa [of e l c h] by (auto simp: second_factor_def)

lemma on_login_request_authorized:
  assumes r: "on_login_request e l c h = Some (k, c', h')" and "\<not> authorized c" "authorized c'"
  shows "first_factor e l c h \<and> (second_factor e l c h \<or> from_switch c) \<and> \<not> needs_click e h"
  using r assms(2)
proof (cases rule: on_login_request_cases)
  case refused
  then show ?thesis using assms(2,3) by (simp add: same_login_def)
next
  case (recent c1)
  from recent(5) obtain c2 where
    c2: "send_logon_response_and_keep_alive e c1 (snd (is_recent_session e False c1 h)) = Some (k, c2, h')" "same_login c2 c'"
    by (rule logon_and_start_cm_Some)
  from logon_authorized [OF c2(1)] recent(1) c2(2) assms(2,3)
  have "require_2fa c1 = None \<or> fst (is_recent_session e True c1 (snd (is_recent_session e False c1 h))) \<or> from_switch c"
    by (simp add: same_login_def)
  then have "second_factor e l c h \<or> from_switch c"
    using second_factorI [of e l c h] recent(3) recent_live recent_live_back session_key_request [OF recent(2)] by metis
  moreover have "first_factor e l c h"
    using recent_first_factor [OF recent(4,2)] first_factor_same [OF recent(1)] by simp
  ultimately show ?thesis using recent(6) by blast
next
  case (password c1 err)
  have a1: "\<not> authorized c1" using password(1) assms(2) by (simp add: same_login_def)
  from password_login_authorized [OF password(4) a1 assms(3) password(2)]
  have p: "first_factor e l c1 (snd (is_recent_session e False c1 h))"
    "require_2fa c1 = None \<or> (\<exists>s. live_session e (snd (is_recent_session e False c1 h)) (request_key l) s \<and> tfa s) \<or> from_switch c1"
    by blast+
  then have "second_factor e l c h \<or> from_switch c"
    using second_factorI [of e l c h] password(1,3) recent_live_back unfolding same_login_def by metis
  moreover have "first_factor e l c h"
    using first_factor_back [OF p(1)] first_factor_same [OF password(1)] by simp
  ultimately show ?thesis using password(5) by blast
qed

lemma on_login_request_out:
  assumes r: "on_login_request e l c h = Some (k, c', h')" and "\<not> authorized c" "\<not> authorized c'"
  shows "same_login c c' \<and> server h' = server h"
  using r assms(2)
proof (cases rule: on_login_request_cases)
  case refused then show ?thesis by simp
next
  case (recent c1)
  then show ?thesis
    using logon_and_start_cm_out [OF recent(5) assms(3)] recent_host same_login_trans by metis
next
  case (password c1 err)
  then show ?thesis
    using password_login_out [OF password(4) assms(3)] recent_host same_login_trans by metis
qed

lemma set_session_2fa_server [simp]: "server (set_session_2fa e key h) = server h"
  by (simp add: set_session_2fa_def new_cell_def Let_def split: option.splits)

lemma add_trusted_device_server [simp]: "server (add_trusted_device e d h) = server h"
  by (simp add: add_trusted_device_def set_trusted_devices_def Let_def)

lemma on_auth_2fa_cases:
  assumes "on_auth_2fa e code hwid c h = Some (k, c', h')"
  obtains (out) "same_login c c'" "server h' = server h"
  | (right) totp c1 h1 h2 where "require_2fa c = Some totp" "totp_check e totp code = Some True"
      "same_login c c1" "server h1 = server h"
      "logon_and_start_cm e (lr_my_id (conn_lr c)) (lr_my_name (conn_lr c)) c1 h1 = Some (k, c', h2)" "server h' = server h2"
proof -
  obtain failure r where cf: "check_failure (minute_of (nat (time_ms e))) (conn_ip c) (tfa_failures h) = (failure, r)"
    by (cases "check_failure (minute_of (nat (time_ms e))) (conn_ip c) (tfa_failures h)")
  show thesis
  proof (cases "r = None \<and> (\<exists>totp. require_2fa c = Some totp \<and> totp_check e totp code = Some True)")
    case False
    with assms cf have "same_login c c' \<and> server h' = server h"
      by (auto simp: on_auth_2fa_def split: option.splits bool.splits)
    then show thesis using out by blast
  next
    case True
    then obtain totp where t: "require_2fa c = Some totp" "totp_check e totp code = Some True" by blast
    define h1 where "h1 = set_session_2fa e (session_key (c\<lparr>require_2fa := None\<rparr>))
        (h\<lparr>tfa_failures := update_failure (conn_ip c) failure True (tfa_failures h)\<rparr>)"
    from assms cf t True obtain h2 where
      "logon_and_start_cm e (lr_my_id (conn_lr c)) (lr_my_name (conn_lr c)) (c\<lparr>require_2fa := None\<rparr>) h1 = Some (k, c', h2)"
      "server h' = server h2"
      by (auto simp: on_auth_2fa_def Let_def h1_def split: if_splits)
    moreover have "same_login c (c\<lparr>require_2fa := None\<rparr>)" "server h1 = server h"
      by (simp_all add: same_login_def h1_def)
    ultimately show thesis using right t by blast
  qed
qed

lemma on_switch_sides_cases:
  assumes "on_switch_sides_response e lo raw c h = Some (k, c', h')"
  obtains (out) "same_login c c'" "server h' = server h"
  | (switch) l u t c1 c2 h1 where "lo = Some l" "uuid_from_slice e raw = Some u" "(lr_my_id l, t, u) \<in> set (switch_sides_uuid h)"
      "now e - t < 10000" "authorized c1 = authorized c" "inner c1 = inner c" "from_switch c1" "server h1 = server h"
      "logon_and_start_cm e (lr_my_id l) (lr_my_name l) c1 h1 = Some (k, c2, h')" "same_login c2 c'"
proof (cases lo)
  case None
  with assms show thesis using out by (simp add: on_switch_sides_response_def)
next
  case (Some l)
  let ?c0 = "handle_login_request_without_validation e l c h"
  let ?table = "filter (\<lambda>(_, v). now e - fst v < 10000) (switch_sides_uuid h)"
  define h1 where "h1 = h\<lparr>switch_sides_uuid := hm_remove (lr_my_id l) ?table\<rparr>"
  have h1: "server h1 = server h" by (simp add: h1_def)
  have c0: "same_login c ?c0" by (rule handle_login_same)
  show thesis
  proof (cases "\<exists>u t. uuid_from_slice e raw = Some u \<and> hm_get ?table (lr_my_id l) = Some (t, u)")
    case False
    then have "c' = ?c0 \<and> h' = h1"
      using assms Some by (auto simp: on_switch_sides_response_def Let_def h1_def split: option.splits prod.splits if_splits)
    then show thesis using out c0 h1 by blast
  next
    case True
    then obtain u t where u: "uuid_from_slice e raw = Some u" "hm_get ?table (lr_my_id l) = Some (t, u)" by blast
    from hm_get_in [OF u(2)] have m: "(lr_my_id l, t, u) \<in> set (switch_sides_uuid h)" "now e - t < 10000" by auto
    from assms Some u obtain c2 where
      "logon_and_start_cm e (lr_my_id l) (lr_my_name l) (?c0\<lparr>from_switch := True\<rparr>) h1 = Some (k, c2, h')" "same_login c2 c'"
      by (auto simp: on_switch_sides_response_def Let_def h1_def [symmetric] same_login_def split: if_splits)
    then show thesis using switch [OF Some u(1) m, of "?c0\<lparr>from_switch := True\<rparr>" h1] c0 h1 by (simp add: same_login_def)
  qed
qed

text \<open>After \<open>from_switch\<close> a kept connection is authorized.\<close>

lemma logon_from_switch:
  assumes "send_logon_response_and_keep_alive e c h = Some (k, c', h')" "from_switch c" "k"
  shows "authorized c'"
proof (cases "authorized c")
  case True
  with assms show ?thesis by (simp add: send_logon_response_and_keep_alive_def)
next
  case False
  obtain rec h1 where r: "(if require_2fa c \<noteq> None then is_recent_session e True c h else (False, h)) = (rec, h1)"
    by (metis surj_pair)
  obtain k1 c1 where con: "connect_port_forward_if_needed e c = (k1, c1)" by (cases "connect_port_forward_if_needed e c")
  from assms False r con have "k1" and "logon_response e (fst (mark_authorized e c1 h1)) (snd (mark_authorized e c1 h1)) = Some (c', h')"
    by (auto simp: send_logon_response_and_keep_alive_def Let_def split: bool.splits prod.splits)
  from logon_response_same [OF this(2)] show ?thesis
    by (simp add: same_login_def mark_authorized_def Let_def split: prod.splits)
qed

lemma logon_and_start_cm_from_switch:
  assumes "logon_and_start_cm e i n c h = Some (k, c', h')" "from_switch c" "k"
  shows "authorized c'"
proof -
  from assms(1) obtain c1 where "send_logon_response_and_keep_alive e c h = Some (k, c1, h')" "same_login c1 c'"
    by (rule logon_and_start_cm_Some)
  with logon_from_switch assms(2,3) show ?thesis by (simp add: same_login_def)
qed

end
