(* ===== verification/Dispatch.thy ===== *)
theory Dispatch
  imports Login
begin

text \<open>
  The messages an authorized peer sends (\<open>Connection::on_message\<close>), the events of the connection
  manager and the timers of the connection's loop (\<open>Connection::start\<close> of
  \<open>src/server/connection.rs\<close>), and the theorems on whole runs of a connection: who gets in, what a
  peer outside receives, and what a peer inside can reach.
\<close>

section \<open>Input\<close>

definition is_left_up :: "MouseEvent \<Rightarrow> bool" where
  "is_left_up m \<longleftrightarrow> me_mask m div 8 = 1 \<and> me_mask m mod 8 = 2"

definition is_modifier :: "KeyEvent \<Rightarrow> bool" where
  "is_modifier k = (case ke_union k of Some (ControlKey v) \<Rightarrow> v \<in> {1, 29, 4, 23, 75, 73, 74, 64} | _ \<Rightarrow> False)"

definition is_enter :: "KeyEvent \<Rightarrow> bool" where
  "is_enter k = (case ke_union k of Some (ControlKey v) \<Rightarrow> v = 27 \<or> v = 72 | _ \<Rightarrow> False)"

definition push_input :: "message_input \<Rightarrow> Connection \<Rightarrow> Connection" where
  "push_input i c = c\<lparr>input_log := input_log c @ [i]\<rparr>"

definition on_mouse_event :: "host_env \<Rightarrow> MouseEvent \<Rightarrow> Connection \<Rightarrow> host \<Rightarrow> Connection \<times> host" where
  "on_mouse_event e m c h =
     (if is_authed_view_camera_conn c then (c, h)
      else
        let (c, h) =
              (if peer_keyboard_enabled c then
                 (push_input (InputMouse m (conn_inner_id (inner c)) (lr_my_name (conn_lr c)) (peer_argb c) True (show_my_cursor c)) c,
                  if is_left_up m then h\<lparr>click_time := time_ms e\<rparr> else h\<lparr>mouse_move_time := time_ms e\<rparr>)
               else if show_my_cursor c then
                 (push_input (InputMouse m (conn_inner_id (inner c)) (lr_my_name (conn_lr c)) (peer_argb c) False True) c, h)
               else (c, h))
        in (update_auto_disconnect_timer e c, h))"

definition on_pointer_event :: "host_env \<Rightarrow> bytes \<Rightarrow> Connection \<Rightarrow> host \<Rightarrow> Connection \<times> host" where
  "on_pointer_event e p c h =
     (if is_authed_view_camera_conn c then (c, h)
      else
        let (c, h) =
              (if peer_keyboard_enabled c
               then (push_input (InputPointer p (conn_inner_id (inner c))) c, h\<lparr>mouse_move_time := time_ms e\<rparr>)
               else (c, h))
        in (update_auto_disconnect_timer e c, h))"

definition modifier_key :: "host_env \<Rightarrow> KeyEvent \<Rightarrow> nat option" where
  "modifier_key e k =
     (case (if ke_mode k = Some 1 then
              Some (keycode_to_rdev_key e (case ke_union k of Some (Chr n) \<Rightarrow> n | _ \<Rightarrow> 0))
            else if ke_mode k = Some 2 then
              (case ke_union k of Some (Chr n) \<Rightarrow> Some (keycode_to_rdev_key e (n mod 2 ^ 16)) | _ \<Rightarrow> None)
            else None) of
        Some key \<Rightarrow> if rdev_is_modifier e key then Some key else None
      | None \<Rightarrow> None)"

definition on_key_event :: "host_env \<Rightarrow> KeyEvent \<Rightarrow> Connection \<Rightarrow> host \<Rightarrow> Connection \<times> host" where
  "on_key_event e k c h =
     (if is_authed_view_camera_conn c then (c, h)
      else
        let (c, h) =
              (if peer_keyboard_enabled c then
                 (let h = (if is_enter k then h\<lparr>click_time := time_ms e\<rparr> else h);
                      h = h\<lparr>mouse_move_time := time_ms e\<rparr>;
                      key = modifier_key e k;
                      is_press = ((ke_press k \<or> ke_down k) \<and> \<not> (is_modifier k \<or> key \<noteq> None));
                      c = (case key of
                             Some x \<Rightarrow> c\<lparr>pressed_modifiers :=
                                         (if is_press then insert x (pressed_modifiers c) else pressed_modifiers c - {x})\<rparr>
                           | None \<Rightarrow> c)
                  in (push_input (InputKey k
                        (is_press \<and> \<not> (case ke_union k of Some (Unicode _) \<Rightarrow> True | Some (Seq _) \<Rightarrow> True | _ \<Rightarrow> False))) c, h))
               else (c, h))
        in (update_auto_disconnect_timer e c, h))"

section \<open>Removed files\<close>

definition path_parts :: "string \<Rightarrow> bool \<times> string list" where
  "path_parts p = (starts_with p [CHR 0x2F], path_comps p)"

definition direct_child :: "string \<Rightarrow> string \<Rightarrow> bool" where
  "direct_child parent child \<longleftrightarrow> map_option path_parts (path_parent child) = Some (path_parts parent)"

definition on_remove_file :: "host_env \<Rightarrow> string \<times> int \<times> int \<Rightarrow> FileRemoveLogControl \<Rightarrow> file_log \<times> FileRemoveLogControl" where
  "on_remove_file e f l =
     (LogRemove (fst (snd f)) (fl_conn_id l) (fst f) False,
      l\<lparr>fl_instant := now e, removed_files := removed_files l @ [f]\<rparr>)"

definition on_remove_dir :: "host_env \<Rightarrow> string \<times> int \<times> bool \<Rightarrow> FileRemoveLogControl \<Rightarrow> file_log \<times> FileRemoveLogControl" where
  "on_remove_dir e d l =
     (let l = l\<lparr>fl_instant := now e,
                removed_files := filter (\<lambda>f. \<not> direct_child (fst f) (fst d)) (removed_files l),
                removed_dirs := filter (\<lambda>x. \<not> direct_child (fst d) (fst x)) (removed_dirs l)\<rparr>
      in (LogRemove (fst (snd d)) (fl_conn_id l) (fst d) True,
          if \<not> list_ex (\<lambda>x. direct_child (fst x) (fst d)) (removed_dirs l)
          then l\<lparr>removed_dirs := removed_dirs l @ [d]\<rparr> else l))"

definition on_timer :: "host_env \<Rightarrow> FileRemoveLogControl \<Rightarrow> file_log list \<times> FileRemoveLogControl" where
  "on_timer e l =
     (if (now e - fl_instant l) div 1000 < 1 then ([], l)
      else (map (\<lambda>(p, i, _). LogRemove i (fl_conn_id l) p False) (removed_files l)
            @ map (\<lambda>(p, i, _). LogRemove i (fl_conn_id l) p True) (removed_dirs l),
            l\<lparr>removed_files := [], removed_dirs := []\<rparr>))"

section \<open>Files\<close>

datatype file_action =
    FA_ReadEmptyDirs string bool
  | FA_ReadDir string bool
  | FA_AllFiles string int bool
  | FA_Send int string int bool JobType
  | FA_Receive string int int "FileEntry list" nat
  | FA_RemoveDir string int bool
  | FA_RemoveFile string int int
  | FA_Create string int
  | FA_Cancel int
  | FA_SendConfirm FileTransferSendConfirmRequest
  | FA_Rename int string string

definition can_enable_overwrite_detection :: "string \<Rightarrow> bool" where
  "can_enable_overwrite_detection ver \<longleftrightarrow> sint (get_version_number ''1.1.10'') \<le> sint (get_version_number ver)"

definition send_fs :: "FS \<Rightarrow> Connection \<Rightarrow> Connection" where
  "send_fs f c = send_to_cm (CmFS f) c"

definition process_new_read_job :: "TransferJob \<Rightarrow> string \<Rightarrow> Connection \<Rightarrow> Connection" where
  "process_new_read_job job path c =
     (let c = conn_send_msg (FileMsg (new_dir (job_id job) path (files job))) c
      in c\<lparr>conn_read_jobs := conn_read_jobs c @ [job\<lparr>is_remote := True, conn_id := conn_inner_id (inner c)\<rparr>]\<rparr>)"

definition create_and_start_read_job ::
  "host_env \<Rightarrow> int \<Rightarrow> JobType \<Rightarrow> DataSource \<Rightarrow> int \<Rightarrow> bool \<Rightarrow> bool \<Rightarrow> string \<Rightarrow> bool \<Rightarrow> Connection \<Rightarrow> host \<Rightarrow> Connection" where
  "create_and_start_read_job e i ty src n hidden od path check_limit c h =
     (case new_read i ty '''' src n hidden False od (host_disk h) of
        Inl err \<Rightarrow> conn_send_msg (FileMsg (new_error i err 0)) c
      | Inr job \<Rightarrow>
          (case (if check_limit then check_file_count_limit (builtin_cfg e ''file-transfer-max-files'') (length (files job)) else Inr ()) of
             Inl err \<Rightarrow> conn_send_msg (FileMsg (new_error i err (- 1))) c
           | Inr _ \<Rightarrow> process_new_read_job job path c))"

definition printer_job :: "string \<Rightarrow> Connection \<Rightarrow> (bytes \<times> Connection) option" where
  "printer_job path c =
     (case find (\<lambda>(_, p, _). p = path) (printer_data c) of
        Some x \<Rightarrow> Some (snd (snd x), c\<lparr>printer_data := remove1 x (printer_data c)\<rparr>)
      | None \<Rightarrow> None)"

definition on_send_action :: "host_env \<Rightarrow> int \<Rightarrow> string \<Rightarrow> int \<Rightarrow> bool \<Rightarrow> JobType \<Rightarrow> Connection \<Rightarrow> host \<Rightarrow> Connection" where
  "on_send_action e i path n hidden ty c h =
     (case ty of
        Generic \<Rightarrow>
          (let c = create_and_start_read_job e i ty (FilePath path) n hidden
                     (can_enable_overwrite_detection (lr_version (conn_lr c))) path True c h
           in c\<lparr>file_transferred := True\<rparr>)
      | Printer \<Rightarrow>
          (case printer_job path c of
             None \<Rightarrow> c
           | Some (data, c) \<Rightarrow>
               (let c = create_and_start_read_job e i ty (MemoryCursor data 0) n hidden True path False c h
                in c\<lparr>file_transferred := True\<rparr>)))"

fun one_way_job :: "file_action \<Rightarrow> int option" where
  "one_way_job (FA_Send i _ _ _ _) = Some i"
| "one_way_job (FA_RemoveFile _ i _) = Some i"
| "one_way_job (FA_Rename i _ _) = Some i"
| "one_way_job (FA_Create _ i) = Some i"
| "one_way_job (FA_RemoveDir _ i _) = Some i"
| "one_way_job _ = None"

fun is_printer_send :: "file_action \<Rightarrow> bool" where
  "is_printer_send (FA_Send _ _ _ _ ty) = (ty = Printer)"
| "is_printer_send _ = False"

fun serve_file_action :: "host_env \<Rightarrow> file_action \<Rightarrow> Connection \<Rightarrow> host \<Rightarrow> (Connection \<times> host) option" where
  "serve_file_action e (FA_ReadEmptyDirs p hidden) c h = Some (send_fs (ReadEmptyDirs p hidden) c, h)"
| "serve_file_action e (FA_ReadDir p hidden) c h = Some (send_fs (ReadDir p hidden) c, h)"
| "serve_file_action e (FA_AllFiles p i hidden) c h =
     Some (case get_recursive_files p hidden (host_disk h) of
             Inl err \<Rightarrow> conn_send_msg (FileMsg (new_error i err (- 1))) c
           | Inr fl \<Rightarrow>
               (case check_file_count_limit (builtin_cfg e ''file-transfer-max-files'') (length fl) of
                  Inl err \<Rightarrow> conn_send_msg (FileMsg (new_error i err (- 1))) c
                | Inr _ \<Rightarrow> conn_send_msg (FileMsg (new_dir i p fl)) c), h)"
| "serve_file_action e (FA_Send i p n hidden ty) c h = Some (on_send_action e i p n hidden ty c h, h)"
| "serve_file_action e (FA_Receive p i n fl total_sz) c h =
     Some ((send_fs (NewWrite p i n (map (\<lambda>f. (fe_name f, modified_time f)) fl)
              (can_enable_overwrite_detection (lr_version (conn_lr c))) total_sz (conn_inner_id (inner c))) c)
              \<lparr>file_transferred := True\<rparr>, h)"
| "serve_file_action e (FA_RemoveDir p i rec) c h =
     (let c = send_fs (RemoveDir p i rec) c
      in Some (c\<lparr>file_remove_log_control := snd (on_remove_dir e (p, i, rec) (file_remove_log_control c))\<rparr>, h))"
| "serve_file_action e (FA_RemoveFile p i n) c h =
     (let c = send_fs (RemoveFile p i n) c
      in Some (c\<lparr>file_remove_log_control := snd (on_remove_file e (p, i, n) (file_remove_log_control c))\<rparr>, h))"
| "serve_file_action e (FA_Create p i) c h =
     Some (send_to_cm (CmFileLog (LogCreateDir i (conn_inner_id (inner c)) p)) (send_fs (CreateDir p i) c), h)"
| "serve_file_action e (FA_Cancel i) c h =
     (let c = send_fs (CancelWrite i) c;
          c = c\<lparr>cm_read_job_ids := cm_read_job_ids c - {i}\<rparr>;
          c = send_fs (CancelRead i (conn_inner_id (inner c))) c;
          (job, js) = remove_job i (conn_read_jobs c);
          c = c\<lparr>conn_read_jobs := js\<rparr>
      in Some (case job of Some j \<Rightarrow> send_to_cm (CmFileLog (LogTransfer j False True '''')) c | None \<Rightarrow> c, h))"
| "serve_file_action e (FA_SendConfirm r) c h =
     (case get_job (req_id r) (conn_read_jobs c) of
        Some job \<Rightarrow>
          map_option (\<lambda>(job, fs). (c\<lparr>conn_read_jobs := put_job job (conn_read_jobs c)\<rparr>, h\<lparr>host_disk := fs\<rparr>))
            (confirm r job (host_disk h))
      | None \<Rightarrow>
          Some (if req_id r \<in> cm_read_job_ids c then
                  send_fs (SendConfirmForRead (req_id r) (req_file_num r)
                    (case req_union r of Some (Skip b) \<Rightarrow> b | _ \<Rightarrow> False)
                    (case req_union r of Some (OffsetBlk off) \<Rightarrow> off | _ \<Rightarrow> 0) (conn_inner_id (inner c))) c
                else send_fs (SendConfirm (Some r)) c, h))"
| "serve_file_action e (FA_Rename i p new_name) c h =
     Some (send_to_cm (CmFileLog (LogRename (conn_inner_id (inner c)) p new_name)) (send_fs (Rename i p new_name) c), h)"

definition on_file_action :: "host_env \<Rightarrow> file_action \<Rightarrow> Connection \<Rightarrow> host \<Rightarrow> (Connection \<times> host) option" where
  "on_file_action e fa c h =
     (if file_transfer c = None \<and> \<not> is_printer_send fa then Some (c, h)
      else if delayed_read_dir c \<noteq> None then
        Some (case fa of FA_ReadDir p hidden \<Rightarrow> c\<lparr>delayed_read_dir := Some (p, hidden)\<rparr> | _ \<Rightarrow> c, h)
      else if builtin_cfg e ''one-way-file-transfer'' = ''Y'' \<and> one_way_job fa \<noteq> None then
        Some (conn_send_msg (FileMsg (new_error (the (one_way_job fa)) (Bail ''one-way-file-transfer-tip'') 0)) c, h)
      else serve_file_action e fa c h)"

datatype file_response =
    FR_Block FileTransferBlock
  | FR_Done int int
  | FR_Digest FileTransferDigest
  | FR_Error int int string

fun on_file_response :: "file_response \<Rightarrow> Connection \<Rightarrow> Connection" where
  "on_file_response (FR_Block b) c = send_fs (WriteBlock (blk_id b) (blk_file_num b) (blk_data b) (blk_compressed b)) c"
| "on_file_response (FR_Done i n) c = send_fs (WriteDone i n) c"
| "on_file_response (FR_Digest d) c =
     send_fs (CheckDigest (ftd_id d) (ftd_file_num d) (ftd_file_size d) (ftd_last_modified d) True (ftd_is_resume d)) c"
| "on_file_response (FR_Error i n err) c = send_fs (WriteError i n err) c"

section \<open>Messages of an authorized peer\<close>

definition OPTION_REFRESH :: string where "OPTION_REFRESH = ''refresh''"

definition refresh_video_display :: "nat option \<Rightarrow> Connection \<Rightarrow> host \<Rightarrow> host" where
  "refresh_video_display d c h =
     with_server (set_video_service_opt (map_option (\<lambda>i. (video_source c, i)) d) OPTION_REFRESH SERVICE_OPTION_VALUE_TRUE) h"

definition change_resolution :: "host_env \<Rightarrow> nat option \<Rightarrow> int \<Rightarrow> int \<Rightarrow> Connection \<Rightarrow> host \<Rightarrow> host" where
  "change_resolution e d width height c h =
     (if keyboard c then
        (case display_names e of
           None \<Rightarrow> h
         | Some ds \<Rightarrow>
             (case nth_opt ds (case d of Some i \<Rightarrow> i | None \<Rightarrow> display_idx c) of
                Some name \<Rightarrow> log_call (ChangeResolution name width height) h
              | None \<Rightarrow> h))
      else h)"

definition handle_switch_display :: "host_env \<Rightarrow> nat \<Rightarrow> int \<Rightarrow> int \<Rightarrow> Connection \<Rightarrow> host \<Rightarrow> Connection \<times> host" where
  "handle_switch_display e i width height c h =
     (if display_idx c \<noteq> i then
        (let (c, h) =
               (case server h of
                  None \<Rightarrow> (c, h)
                | Some _ \<Rightarrow>
                    (let (c, h) = switch_display_to e i c h
                     in (c, if width \<noteq> 0 \<and> height \<noteq> 0 then change_resolution e None width height c h else h)))
         in (case display_changed_msg e (display_idx c) (video_source c) of
               Some m \<Rightarrow> conn_send_msg (DisplayChangedMsg m) c
             | None \<Rightarrow> c, h))
      else (c, h))"

datatype misc =
    SwitchDisplay nat int int
  | CaptureDisplays "nat list" "nat list" "nat list"
  | TogglePrivacyMode bool string
  | ChatMessage string
  | MiscOption OptionMessage
  | RefreshVideo bool
  | RefreshVideoDisplay nat
  | VideoReceived
  | RestartRemoteDevice
  | AudioFormat bytes
  | SwitchSidesRequest string
  | MiscChangeResolution int int
  | ChangeDisplayResolution nat int int
  | AutoAdjustFps nat
  | ClientRecordStatus bool
  | MessageQuery nat

fun on_misc :: "host_env \<Rightarrow> misc \<Rightarrow> Connection \<Rightarrow> host \<Rightarrow> (bool \<times> Connection \<times> host) option" where
  "on_misc e (SwitchDisplay i width height) c h = Some (True, handle_switch_display e i width height c h)"
| "on_misc e (CaptureDisplays adds subs sets) c h = Some (True, conn_capture_displays adds subs sets c h)"
| "on_misc e (TogglePrivacyMode on key) c h = Some (True, conn_send_msg (PrivacyModeNotSupported key) c, h)"
| "on_misc e (ChatMessage text) c h =
     Some (True, update_auto_disconnect_timer e ((send_to_cm (CmChatMessage text) c)\<lparr>chat_unanswered := True\<rparr>), h)"
| "on_misc e (MiscOption m) c h = map_option (Pair True) (update_options e m c h)"
| "on_misc e (RefreshVideo r) c h =
     Some (True, update_auto_disconnect_timer e c, if r then refresh_video_display None c h else h)"
| "on_misc e (RefreshVideoDisplay d) c h = Some (True, update_auto_disconnect_timer e c, refresh_video_display (Some d) c h)"
| "on_misc e VideoReceived c h = Some (True, c, log_call (NotifyVideoFrameFetched (conn_inner_id (inner c))) h)"
| "on_misc e RestartRemoteDevice c h =
     Some (True, c, if restart c then log_call Reboot (log_call ForceReboot h) else h)"
| "on_misc e (AudioFormat f) c h =
     Some (if disable_audio c then (True, c, h) else (True, c\<lparr>audio_sender := True\<rparr>, log_call (StartAudioThread f) h))"
| "on_misc e (SwitchSidesRequest raw) c h =
     Some (case uuid_from_slice e raw of
             Some u \<Rightarrow> (let (c', h') = on_close False c (log_call (RunSwitchSides (lr_my_id (conn_lr c)) u) h) in (False, c', h'))
           | None \<Rightarrow> (True, c, h))"
| "on_misc e (MiscChangeResolution width height) c h = Some (True, c, change_resolution e None width height c h)"
| "on_misc e (ChangeDisplayResolution d width height) c h = Some (True, c, change_resolution e (Some d) width height c h)"
| "on_misc e (AutoAdjustFps fps) c h =
     Some (True, c, h\<lparr>video_qos := user_auto_adjust_fps (conn_inner_id (inner c)) fps (video_qos h)\<rparr>)"
| "on_misc e (ClientRecordStatus b) c h =
     Some (True, c, h\<lparr>video_qos := user_record (conn_inner_id (inner c)) b (video_qos h)\<rparr>)"
| "on_misc e (MessageQuery d) c h =
     Some (True, case display_changed_msg e d (video_source c) of Some m \<Rightarrow> conn_send_msg (DisplayChangedMsg m) c | None \<Rightarrow> c, h)"

definition handle_terminal_action :: "host_env \<Rightarrow> bytes \<Rightarrow> Connection \<Rightarrow> Connection" where
  "handle_terminal_action e a c =
     (if \<not> terminal_user_token c then c
      else case terminal_handle_action e (terminal_service_id c) (terminal_persistent c) a of
        Inr (Some r) \<Rightarrow> conn_send_msg (TerminalResponse r) c
      | Inr None \<Rightarrow> c
      | Inl err \<Rightarrow> conn_send_msg (TerminalError (''Failed to handle action: '' @ err)) c)"

datatype authed_msg =
    AMouseEvent MouseEvent
  | APointerEvent bytes
  | AKeyEvent KeyEvent
  | AClipboard bytes
  | AMultiClipboards "bytes list"
  | AFileAction file_action
  | AFileResponse file_response
  | AMisc misc
  | AAudioFrame bytes
  | AVoiceCallRequest bool int
  | AVoiceCallResponse
  | AScreenshotRequest nat string
  | ATerminalAction bytes

definition keep :: "Connection \<times> host \<Rightarrow> bool \<times> Connection \<times> host" where
  "keep s = (True, s)"

definition on_voice_call_request :: "host_env \<Rightarrow> bool \<Rightarrow> int \<Rightarrow> Connection \<Rightarrow> host \<Rightarrow> Connection \<times> host" where
  "on_voice_call_request e is_connect ts c h =
     (if is_connect
      then (send_to_cm CmVoiceCallIncoming (c\<lparr>voice_call_request_timestamp := Some (if ts = 0 then time_ms e else ts)\<rparr>), h)
      else close_voice_call c h)"

definition on_screenshot_request :: "nat \<Rightarrow> string \<Rightarrow> Connection \<Rightarrow> host \<Rightarrow> Connection \<times> host" where
  "on_screenshot_request d sid c h =
     (case tx (inner c) of
        Some t \<Rightarrow> (c, refresh_video_display (Some d) c (log_call (TakeScreenshot d sid t) h))
      | None \<Rightarrow> (c, h))"

fun on_authed_message :: "host_env \<Rightarrow> authed_msg \<Rightarrow> Connection \<Rightarrow> host \<Rightarrow> (bool \<times> Connection \<times> host) option" where
  "on_authed_message e (AMouseEvent m) c h = Some (keep (on_mouse_event e m c h))"
| "on_authed_message e (APointerEvent p) c h = Some (keep (on_pointer_event e p c h))"
| "on_authed_message e (AKeyEvent k) c h = Some (keep (on_key_event e k c h))"
| "on_authed_message e (AClipboard cb) c h = Some (True, c, if clipboard c then log_call (UpdateClipboard [cb]) h else h)"
| "on_authed_message e (AMultiClipboards cbs) c h = Some (True, c, if clipboard c then log_call (UpdateClipboard cbs) h else h)"
| "on_authed_message e (AFileAction fa) c h = map_option keep (on_file_action e fa c h)"
| "on_authed_message e (AFileResponse fr) c h = Some (True, on_file_response fr c, h)"
| "on_authed_message e (AMisc m) c h = on_misc e m c h"
| "on_authed_message e (AAudioFrame f) c h =
     Some (True, c, if \<not> disable_audio c \<and> audio_sender c then log_call (SendAudioFrame f) h else h)"
| "on_authed_message e (AVoiceCallRequest on ts) c h = Some (keep (on_voice_call_request e on ts c h))"
| "on_authed_message e AVoiceCallResponse c h = Some (True, c, h)"
| "on_authed_message e (AScreenshotRequest d sid) c h = Some (keep (on_screenshot_request d sid c h))"
| "on_authed_message e (ATerminalAction a) c h = Some (True, handle_terminal_action e a c, h)"

datatype peer_msg =
    PCloseReason string
  | PLoginRequest LoginRequest
  | PAuth2fa string string
  | PTestDelay bool int
  | PSwitchSidesResponse "LoginRequest option" string
  | PAuthed authed_msg

fun on_message :: "host_env \<Rightarrow> peer_msg \<Rightarrow> Connection \<Rightarrow> host \<Rightarrow> (bool \<times> Connection \<times> host) option" where
  "on_message e (PCloseReason _) c h = Some (on_close_reason c h)"
| "on_message e (PLoginRequest l) c h = on_login_request e l c h"
| "on_message e (PAuth2fa code hwid) c h = on_auth_2fa e code hwid c h"
| "on_message e (PTestDelay from_client t) c h = on_test_delay e from_client t c h"
| "on_message e (PSwitchSidesResponse lo raw) c h = on_switch_sides_response e lo raw c h"
| "on_message e (PAuthed m) c h =
     (if \<not> authorized c \<or> port_forward_socket c \<noteq> None then Some (True, c, h) else on_authed_message e m c h)"

section \<open>The connection manager and the loop\<close>

definition switch_permission :: "host_env \<Rightarrow> string \<Rightarrow> bool \<Rightarrow> Connection \<Rightarrow> host \<Rightarrow> Connection \<times> host" where
  "switch_permission e name enabled c h =
     (if name = ''keyboard'' then
        (let c = send_permission Keyboard enabled (c\<lparr>keyboard := enabled\<rparr>);
             h = subscribe_conn CLIPBOARD_NAME c (can_sub_clipboard_service e c) h
         in (c, subscribe_conn NAME_CURSOR c (enabled \<or> show_remote_cursor c) h))
      else if name = ''clipboard'' then
        (let c = send_permission Clipboard enabled (c\<lparr>clipboard := enabled\<rparr>)
         in (c, subscribe_conn CLIPBOARD_NAME c (can_sub_clipboard_service e c) h))
      else if name = ''audio'' then
        (let c = send_permission Audio enabled (c\<lparr>audio := enabled\<rparr>)
         in (c, if authorized c then set_audio_subscription c h else h))
      else if name = ''file'' then (send_permission File enabled (c\<lparr>file_perm := enabled\<rparr>), h)
      else if name = ''restart'' then (send_permission Restart enabled (c\<lparr>restart := enabled\<rparr>), h)
      else if name = ''recording'' then (send_permission Recording enabled (c\<lparr>recording := enabled\<rparr>), h)
      else if name = ''block_input'' then (send_permission BlockInput enabled (c\<lparr>block_input := enabled\<rparr>), h)
      else (c, h))"

datatype cm_event =
    Authorize
  | CmEvClose
  | CmErr string
  | CmEvChat string
  | SwitchPermission string bool
  | SwitchSidesBack
  | CmEvVoiceCallResponse bool
  | CmEvCloseVoiceCall
  | CmReadJobInitResult int int "transfer_err + FileDirectory option"
  | CmFileBlock int int bytes bool int
  | CmFileReadDone int int int
  | CmFileReadError int int transfer_err int
  | CmFileDigest int int nat nat bool int
  | CmAllFilesResult int int string "transfer_err + FileDirectory option"
  | CmRawMessage bytes
  | CmPrivacyModeState PrivacyModeState string

definition handle_read_job_init_result :: "int \<Rightarrow> transfer_err + FileDirectory option \<Rightarrow> Connection \<Rightarrow> Connection" where
  "handle_read_job_init_result i r c =
     (if i \<notin> cm_read_job_ids c then c
      else case r of
        Inl err \<Rightarrow> conn_send_msg (FileMsg (new_error i err 0)) (c\<lparr>cm_read_job_ids := cm_read_job_ids c - {i}\<rparr>)
      | Inr None \<Rightarrow>
          conn_send_msg (FileMsg (new_error i (Bail ''internal error'') 0)) (c\<lparr>cm_read_job_ids := cm_read_job_ids c - {i}\<rparr>)
      | Inr (Some d) \<Rightarrow> (conn_send_msg (FileMsg (new_dir i (dir_path d) (entries d))) c)\<lparr>file_transferred := True\<rparr>)"

definition handle_file_block_from_cm :: "int \<Rightarrow> int \<Rightarrow> bytes \<Rightarrow> bool \<Rightarrow> Connection \<Rightarrow> Connection" where
  "handle_file_block_from_cm i n data compressed c =
     (if i \<notin> cm_read_job_ids c then c
      else conn_send_msg (FileMsg (MsgBlock \<lparr>blk_id = i, blk_file_num = n, blk_data = data, blk_compressed = compressed\<rparr>)) c)"

definition handle_file_read_done :: "int \<Rightarrow> int \<Rightarrow> Connection \<Rightarrow> Connection" where
  "handle_file_read_done i n c =
     (if i \<notin> cm_read_job_ids c then c
      else conn_send_msg (FileMsg (MsgDone i n)) (c\<lparr>cm_read_job_ids := cm_read_job_ids c - {i}\<rparr>))"

definition handle_file_read_error :: "int \<Rightarrow> int \<Rightarrow> transfer_err \<Rightarrow> Connection \<Rightarrow> Connection" where
  "handle_file_read_error i n err c =
     (if i \<notin> cm_read_job_ids c then c
      else conn_send_msg (FileMsg (new_error i err n)) (c\<lparr>cm_read_job_ids := cm_read_job_ids c - {i}\<rparr>))"

definition handle_file_digest_from_cm :: "int \<Rightarrow> int \<Rightarrow> nat \<Rightarrow> nat \<Rightarrow> bool \<Rightarrow> Connection \<Rightarrow> Connection" where
  "handle_file_digest_from_cm i n last_modified file_sz resume c =
     (if i \<notin> cm_read_job_ids c then c
      else conn_send_msg (FileMsg (MsgDigest \<lparr>ftd_id = i, ftd_file_num = n, ftd_last_modified = last_modified,
             ftd_file_size = file_sz, ftd_is_upload = False, ftd_is_identical = False, ftd_transferred_size = 0,
             ftd_is_resume = resume\<rparr>)) c)"

definition handle_all_files_result :: "int \<Rightarrow> string \<Rightarrow> transfer_err + FileDirectory option \<Rightarrow> Connection \<Rightarrow> Connection" where
  "handle_all_files_result i path r c =
     (case r of
        Inl err \<Rightarrow> conn_send_msg (FileMsg (new_error i err (- 1))) c
      | Inr (Some d) \<Rightarrow> conn_send_msg (FileMsg (MsgDir d)) c
      | Inr None \<Rightarrow> conn_send_msg (FileMsg (new_error i (Bail (''deserialize failed for '' @ path)) (- 1))) c)"

fun on_cm_event :: "host_env \<Rightarrow> cm_event \<Rightarrow> Connection \<Rightarrow> host \<Rightarrow> (bool \<times> Connection \<times> host) option" where
  "on_cm_event e Authorize c h =
     map_option (\<lambda>(k, c, h). (k \<and> port_forward_socket c = None, c, h))
       (send_logon_response_and_keep_alive e (c\<lparr>require_2fa := None\<rparr>) h)"
| "on_cm_event e CmEvClose c h =
     (let c = c\<lparr>chat_unanswered := False, file_transferred := False\<rparr>;
          (c, h) = send_close_reason_no_retry '''' c h;
          (c, h) = on_close True c h
      in Some (False, c, h))"
| "on_cm_event e (CmErr err) c h =
     Some (if err \<noteq> ''expected'' then (let (c, h) = on_close False c h in (False, c, h)) else (True, c, h))"
| "on_cm_event e (CmEvChat text) c h = Some (True, (conn_send_msg (ChatMsg text) c)\<lparr>chat_unanswered := False\<rparr>, h)"
| "on_cm_event e (SwitchPermission name enabled) c h = Some (True, switch_permission e name enabled c h)"
| "on_cm_event e SwitchSidesBack c h = Some (True, conn_send_msg SwitchBackMsg c, h)"
| "on_cm_event e (CmEvVoiceCallResponse accepted) c h = Some (True, handle_voice_call accepted c h)"
| "on_cm_event e CmEvCloseVoiceCall c h =
     (let (c, h) = close_voice_call c h in Some (True, conn_send_msg (VoiceCallRequest False) c, h))"
| "on_cm_event e (CmReadJobInitResult i cid r) c h =
     Some (True, if cid = conn_inner_id (inner c) then handle_read_job_init_result i r c else c, h)"
| "on_cm_event e (CmFileBlock i n data compressed cid) c h =
     Some (True, if cid = conn_inner_id (inner c) then handle_file_block_from_cm i n data compressed c else c, h)"
| "on_cm_event e (CmFileReadDone i n cid) c h =
     Some (True, if cid = conn_inner_id (inner c) then handle_file_read_done i n c else c, h)"
| "on_cm_event e (CmFileReadError i n err cid) c h =
     Some (True, if cid = conn_inner_id (inner c) then handle_file_read_error i n err c else c, h)"
| "on_cm_event e (CmFileDigest i n lm sz resume cid) c h =
     Some (True, if cid = conn_inner_id (inner c) then handle_file_digest_from_cm i n lm sz resume c else c, h)"
| "on_cm_event e (CmAllFilesResult i cid path r) c h =
     Some (True, if cid = conn_inner_id (inner c) then handle_all_files_result i path r c else c, h)"
| "on_cm_event e (CmRawMessage bytes) c h = Some (True, conn_send_msg (RawMsg bytes) c, h)"
| "on_cm_event e (CmPrivacyModeState st key) c h = Some (True, conn_send_msg (PrivacyModeStateMsg st key) c, h)"

section \<open>Messages of the services\<close>

text \<open>What the connection reads from its two channels, with the encoded message it passes on.\<close>

datatype svc_msg =
    SvAudioFrame bytes
  | SvStopService
  | SvPeerInfo bytes
  | SvCursorPosition int int bytes
  | SvMultiClipboards "(bool \<times> bytes) list" bytes
  | SvOther bytes

definition is_support_multi_clipboard :: "string \<Rightarrow> string \<Rightarrow> bool" where
  "is_support_multi_clipboard peer_version peer_platform =
     (if sint (get_version_number peer_version) < sint (get_version_number ''1.3.0'') then False
      else if peer_platform = '''' \<or> peer_platform = ''iOS'' then False
      else if peer_platform = ''Android'' \<and> sint (get_version_number peer_version) < sint (get_version_number ''1.3.3'') then False
      else True)"

text \<open>A clipboard is given by whether its format is text, and its encoding.\<close>

definition get_msg_if_not_support_multi_clip :: "string \<Rightarrow> string \<Rightarrow> (bool \<times> bytes) list \<Rightarrow> out_msg option" where
  "get_msg_if_not_support_multi_clip version platf clipboards =
     (if is_support_multi_clipboard version platf then None
      else map_option (\<lambda>c. ClipboardMsg (snd c)) (find fst clipboards))"

definition display_index :: "host_env \<Rightarrow> int \<Rightarrow> int \<Rightarrow> nat option" where
  "display_index e x y =
     map_option fst (find (\<lambda>(_, d). x \<ge> di_x d \<and> y \<ge> di_y d
         \<and> f64_mul e (of_int (x - di_x d)) (di_scale d) < of_int (di_width d)
         \<and> f64_mul e (of_int (y - di_y d)) (di_scale d) < of_int (di_height d))
       (enumerate 0 (sync_displays e)))"

definition handle_cursor_switch_display :: "host_env \<Rightarrow> int \<Rightarrow> int \<Rightarrow> Connection \<Rightarrow> Connection" where
  "handle_cursor_switch_display e x y c =
     (if multi_ui_session c then c
      else case display_index e x y of
        Some d \<Rightarrow> if display_idx c \<noteq> d then conn_send_msg (FollowCurrentDisplay d) c else c
      | None \<Rightarrow> c)"

definition close_conn :: "bool \<Rightarrow> Connection \<Rightarrow> host \<Rightarrow> bool \<times> Connection \<times> host" where
  "close_conn lock c h = (False, on_close lock c h)"

text \<open>Passing a message on; \<open>ok\<close> tells whether the stream takes it.\<close>

definition pass_on :: "bool \<Rightarrow> out_msg \<Rightarrow> Connection \<Rightarrow> host \<Rightarrow> bool \<times> Connection \<times> host" where
  "pass_on ok m c h = (if ok then (True, conn_send_msg m c, h) else close_conn False c h)"

fun on_service_message :: "host_env \<Rightarrow> nat \<Rightarrow> svc_msg \<Rightarrow> bool \<Rightarrow> Connection \<Rightarrow> host \<Rightarrow> bool \<times> Connection \<times> host" where
  "on_service_message e latency (SvAudioFrame f) ok c h = (if latency > 1000 then (True, c, h) else pass_on ok (ServiceMsg f) c h)"
| "on_service_message e latency SvStopService ok c h =
     (let (c, h) = send_close_reason_no_retry '''' c h in close_conn False c h)"
| "on_service_message e latency (SvPeerInfo m) ok c h = pass_on ok (ServiceMsg m) c (refresh_video_display None c h)"
| "on_service_message e latency (SvCursorPosition x y m) ok c h =
     pass_on ok (ServiceMsg m) (if follow_remote_cursor c then handle_cursor_switch_display e x y c else c) h"
| "on_service_message e latency (SvMultiClipboards cbs m) ok c h =
     (case get_msg_if_not_support_multi_clip (lr_version (conn_lr c)) (lr_my_platform (conn_lr c)) cbs of
        Some m1 \<Rightarrow> pass_on ok m1 c h
      | None \<Rightarrow> pass_on ok (ServiceMsg m) c h)"
| "on_service_message e latency (SvOther m) ok c h = pass_on ok (ServiceMsg m) c h"

definition on_video_message :: "nat option \<Rightarrow> bytes \<Rightarrow> bool \<Rightarrow> Connection \<Rightarrow> host \<Rightarrow> bool \<times> Connection \<times> host" where
  "on_video_message frame_display m ok c h =
     (let h = (case frame_display of
                 Some d \<Rightarrow> if video_ack_required c then h else log_call (VideoFrameFetched d (conn_inner_id (inner c))) h
               | None \<Rightarrow> h)
      in pass_on ok (ServiceMsg m) c h)"

section \<open>Timers and the loop\<close>

text \<open>
  One turn of the loop of \<open>Connection::start\<close>.  Every message read from the stream first touches the
  session's clock; a message that cannot be parsed does nothing else.
\<close>

datatype conn_event =
    FromPeer "peer_msg option"
  | FromCm cm_event
  | SecondTimer
  | TestDelayTimer nat
  | PeerLost
  | FileTimer "nat \<Rightarrow> nat" "nat option"
  | WebConsole "int list"
  | FromVideo "nat option" bytes bool
  | FromService nat svc_msg bool

definition touch_session :: "host_env \<Rightarrow> Connection \<Rightarrow> host \<Rightarrow> host" where
  "touch_session e c h =
     (case session_last_recv_time c of
        Some i \<Rightarrow> h\<lparr>clock_cells := (clock_cells h)[i := now e]\<rparr>
      | None \<Rightarrow> h)"

definition inactive :: "host_env \<Rightarrow> Connection \<Rightarrow> bool" where
  "inactive e c =
     (case auto_disconnect_timer c of
        Some (instant, minute) \<Rightarrow> (now e - instant) div 1000 > minute * 60
      | None \<Rightarrow> False)"

definition report_removed :: "host_env \<Rightarrow> Connection \<Rightarrow> Connection" where
  "report_removed e c =
     (let (ls, l) = on_timer e (file_remove_log_control c)
      in fold (\<lambda>x. send_to_cm (CmFileLog x)) ls (c\<lparr>file_remove_log_control := l\<rparr>))"

definition second_timer :: "host_env \<Rightarrow> Connection \<Rightarrow> host \<Rightarrow> bool \<times> Connection \<times> host" where
  "second_timer e c h =
     (let h = check_wake_lock_on_setting_changed e h
      in if inactive e c then
           (let (c, h) = send_close_reason_no_retry ''Connection failed due to inactivity'' c h
            in close_conn True c h)
         else (True, report_removed e c, h))"

definition test_delay_timer :: "host_env \<Rightarrow> nat \<Rightarrow> Connection \<Rightarrow> host \<Rightarrow> (bool \<times> Connection \<times> host) option" where
  "test_delay_timer e last_recv c h =
     (if now e - last_recv \<ge> 30000 then (let (c, h) = on_close True c h in Some (False, c, h))
      else
        let c = (if last_test_delay c = None \<and> \<not> (port_forward_socket c \<noteq> None \<and> authorized c)
                 then conn_send_msg (TestDelayProbe (network_delay c) (bitrate_store (video_qos h))) (c\<lparr>last_test_delay := Some (now e)\<rparr>)
                 else c)
        in if is_authed_remote_conn c \<or> view_camera c then
             (case last_test_delay c of
                Some t \<Rightarrow> map_option (\<lambda>h. (True, c, h))
                            (qos_call (user_delay_response_elapsed (now e) (conn_inner_id (inner c)) (now e - t)) h)
              | None \<Rightarrow> Some (True, c, h))
           else Some (True, c, h))"

text \<open>
  A read job reads at most \<open>reads\<close> bytes at a time, and the stream breaks after \<open>brk\<close> messages; the
  log text of a finished job is left out.
\<close>

definition file_timer :: "host_env \<Rightarrow> (nat \<Rightarrow> nat) \<Rightarrow> nat option \<Rightarrow> Connection \<Rightarrow> host \<Rightarrow> bool \<times> Connection \<times> host" where
  "file_timer e reads brk c h =
     (if conn_read_jobs c \<noteq> [] then
        (let c = send_to_cm (CmFileLog (LogTransfers (conn_read_jobs c))) c;
             (r, js, s) = handle_read_jobs (file_ext e) reads (conn_read_jobs c) (host_disk h) \<lparr>sent = [], breaks_after = brk\<rparr>;
             c = c\<lparr>conn_read_jobs := js, outbox := outbox c @ map FileMsg (sent s)\<rparr>
         in case r of Inr _ \<Rightarrow> (True, c, h) | Inl _ \<Rightarrow> close_conn False c h)
      else (True, c, h))"

definition web_console :: "int list \<Rightarrow> Connection \<Rightarrow> host \<Rightarrow> bool \<times> Connection \<times> host" where
  "web_console conns c h =
     (if conn_inner_id (inner c) \<in> set conns
      then (let (c, h) = send_close_reason_no_retry ''Closed manually by web console'' c h in close_conn True c h)
      else (True, c, h))"

fun conn_step :: "host_env \<Rightarrow> conn_event \<Rightarrow> Connection \<Rightarrow> host \<Rightarrow> (bool \<times> Connection \<times> host) option" where
  "conn_step e (FromPeer None) c h = Some (True, c, touch_session e c h)"
| "conn_step e (FromPeer (Some m)) c h =
     map_option (\<lambda>(k, c, h). (k \<and> \<not> (port_forward_socket c \<noteq> None \<and> authorized c \<and> last_test_delay c = None), c, h))
       (on_message e m c (touch_session e c h))"
| "conn_step e (FromCm ev) c h = on_cm_event e ev c h"
| "conn_step e SecondTimer c h = Some (second_timer e c h)"
| "conn_step e (TestDelayTimer last_recv) c h = test_delay_timer e last_recv c h"
| "conn_step e PeerLost c h = Some (close_conn True c h)"
| "conn_step e (FileTimer reads brk) c h = Some (file_timer e reads brk c h)"
| "conn_step e (WebConsole conns) c h = Some (web_console conns c h)"
| "conn_step e (FromVideo d m ok) c h = Some (on_video_message d m ok c h)"
| "conn_step e (FromService latency m ok) c h = Some (on_service_message e latency m ok c h)"

section \<open>The end of a connection\<close>

text \<open>
  What follows the loop: a tunnel runs until it fails, the server forgets the connection, and the
  values the connection owns are dropped.
\<close>

definition forward_until_error :: "Connection \<Rightarrow> host \<Rightarrow> Connection \<times> host" where
  "forward_until_error c h =
     (case port_forward_socket c of
        None \<Rightarrow> (c, h)
      | Some _ \<Rightarrow>
          (let (c, h) = on_close False (c\<lparr>port_forward_socket := None\<rparr>) h
           in (c, check_remove_session (conn_inner_id (inner c)) (session_key c) h)))"

definition release_pressed_modifiers :: "Connection \<Rightarrow> host \<Rightarrow> Connection \<times> host" where
  "release_pressed_modifiers c h = (c\<lparr>pressed_modifiers := {}\<rparr>, log_call (KeyReleases (pressed_modifiers c)) h)"

definition Connection_drop :: "host_env \<Rightarrow> Connection \<Rightarrow> host \<Rightarrow> Connection \<times> host" where
  "Connection_drop e c h =
     (let (c, h) = release_pressed_modifiers c h;
          c = c\<lparr>terminal_generic_service := map_option svc_join (terminal_generic_service c)\<rparr>;
          h = (case authed_conn_id c of Some a \<Rightarrow> AuthedConnID_drop e a h | None \<Rightarrow> h)
      in (c, h))"

definition connection_end :: "host_env \<Rightarrow> Connection \<Rightarrow> host \<Rightarrow> Connection \<times> host" where
  "connection_end e c h =
     (let h = log_call (NotifyVideoFrameFetched (conn_inner_id (inner c))) h;
          h = (if authorized c then h\<lparr>temporary_password := fresh_temporary_password e\<rparr> else h);
          (c, h) = forward_until_error c h;
          h = with_server (remove_connection (inner c)) h;
          (c, h) = on_close True c h;
          (c, h) = Connection_drop e c h;
          h = h\<lparr>control_permissions_array := ControlPermissionsID_drop (conn_inner_id (inner c)) (control_permissions c) (control_permissions_array h)\<rparr>
      in (c, ConnectionID_drop (conn_inner_id (inner c)) h))"

end
