(* ===== verification/Access.thy ===== *)
theory Access
  imports Dispatch "HOL-Library.Code_Target_Nat"
begin

section \<open>Who gets in\<close>

text \<open>
  What lets a peer in, as a specification of the event alone: a click of the local user, a login
  request with both factors, a right two-factor code, or the answer to a switch of sides this host
  asked for at most ten seconds ago.
\<close>

definition credential :: "host_env \<Rightarrow> conn_event \<Rightarrow> Connection \<Rightarrow> host \<Rightarrow> bool" where
  "credential e ev c h \<longleftrightarrow>
     ev = FromCm Authorize
     \<or> (\<exists>l. ev = FromPeer (Some (PLoginRequest l)) \<and> first_factor e l c h \<and> second_factor e l c h)
     \<or> (\<exists>code hwid totp. ev = FromPeer (Some (PAuth2fa code hwid)) \<and> require_2fa c = Some totp
          \<and> totp_check e totp code = Some True)
     \<or> (\<exists>l raw u t. ev = FromPeer (Some (PSwitchSidesResponse (Some l) raw)) \<and> uuid_from_slice e raw = Some u
          \<and> (lr_my_id l, t, u) \<in> set (switch_sides_uuid h) \<and> now e - t < 10000)"

lemma touch_simps [simp]:
  "server (touch_session e c h) = server h" "sessions (touch_session e c h) = sessions h"
  "temporary_password (touch_session e c h) = temporary_password h"
  "trusted_devices (touch_session e c h) = trusted_devices h"
  "switch_sides_uuid (touch_session e c h) = switch_sides_uuid h"
  "video_qos (touch_session e c h) = video_qos h"
  by (simp_all add: touch_session_def split: option.splits)

text \<open>An unauthorized connection holds no session clock, so its messages keep no session alive.\<close>

definition outside_ok :: "Connection \<Rightarrow> bool" where
  "outside_ok c \<longleftrightarrow> (\<not> authorized c \<longrightarrow> session_last_recv_time c = None \<and> \<not> from_switch c \<and> authed_conn_id c = None)"

lemma conn_send_msg_same [simp]: "same_login c (conn_send_msg m c)"
  by (simp add: same_login_def conn_send_msg_def)

lemma send_to_cm_same [simp]: "same_login c (send_to_cm m c)"
  by (simp add: same_login_def send_to_cm_def)

lemma on_close_same: "same_login c (fst (on_close b c h))" "server (snd (on_close b c h)) = server h"
  by (auto simp: on_close_def same_login_def conn_messages log_call_def Let_def)

lemma check_remove_session_server [simp]: "server (check_remove_session i key h) = server h"
  by (simp add: check_remove_session_def Let_def)

lemma switch_permission_same: "same_login c (fst (switch_permission e name b c h))"
  by (auto simp: switch_permission_def same_login_def conn_messages Let_def)

lemma switch_permission_server:
  "\<lbrakk>\<not> authorized c; name \<noteq> ''keyboard''; name \<noteq> ''clipboard''\<rbrakk> \<Longrightarrow> server (snd (switch_permission e name b c h)) = server h"
  by (auto simp: switch_permission_def conn_messages Let_def)

lemma voice_call_same:
  "same_login c (fst (handle_voice_call b c h))" "same_login c (fst (close_voice_call c h))"
  by (auto simp: handle_voice_call_def close_voice_call_def same_login_def conn_messages Let_def split: option.splits)

lemma voice_call_server:
  assumes "authed_conn_id c = None"
  shows "server (snd (handle_voice_call b c h)) = server h" "server (snd (close_voice_call c h)) = server h"
  using assms
  by (auto simp: handle_voice_call_def close_voice_call_def conn_messages is_authed_view_camera_conn_def log_call_def Let_def
      split: option.splits)

lemma cm_file_same:
  "same_login c (handle_read_job_init_result i r c)" "same_login c (handle_file_block_from_cm i n d b c)"
  "same_login c (handle_file_read_done i n c)" "same_login c (handle_file_read_error i n err c)"
  "same_login c (handle_file_digest_from_cm i n lm sz rs c)" "same_login c (handle_all_files_result i p r c)"
  by (auto simp: handle_read_job_init_result_def handle_file_block_from_cm_def handle_file_read_done_def
      handle_file_read_error_def handle_file_digest_from_cm_def handle_all_files_result_def same_login_def conn_messages
      split: sum.splits option.splits)

lemma second_timer_same:
  assumes "second_timer e c h = (k, c', h')"
  shows "same_login c c' \<and> server h' = server h"
proof -
  have f: "same_login c0 (fold (\<lambda>x. send_to_cm (CmFileLog x)) ls c1)" if "same_login c0 c1" for c0 ls c1
    using that by (induction ls arbitrary: c1) (auto simp: same_login_def send_to_cm_def)
  have g: "same_login c (c\<lparr>file_remove_log_control := l\<rparr>)" for l by (simp add: same_login_def)
  have r: "same_login c (fst (on_close True (conn_send_msg m c) h))" "server (snd (on_close True (conn_send_msg m c) h)) = server h" for m h
    using on_close_same [where c = "conn_send_msg m c" and b = True and h = h] conn_send_msg_same same_login_trans by blast+
  have w: "server (check_wake_lock_on_setting_changed e h) = server h" for h
    by (simp add: check_wake_lock_on_setting_changed_def check_wake_lock_def log_call_def Let_def)
  show ?thesis
  proof (cases "inactive e c")
    case True
    let ?m = "CloseReasonMsg ''Connection failed due to inactivity''"
    let ?h = "check_remove_session (conn_inner_id (inner c)) (session_key c) (check_wake_lock_on_setting_changed e h)"
    have "second_timer e c h = (False, on_close True (conn_send_msg ?m c) ?h)"
      using True by (simp add: second_timer_def send_close_reason_no_retry_def close_conn_def case_prod_unfold Let_def)
    with assms r [of ?m ?h] w show ?thesis by (metis Pair_inject check_remove_session_server prod.collapse)
  next
    case False
    with assms f [OF g] w show ?thesis
      by (auto simp: second_timer_def report_removed_def Let_def split: prod.splits)
  qed
qed

lemma close_conn_same: "close_conn b c h = (k, c', h') \<Longrightarrow> same_login c c' \<and> server h' = server h"
  using on_close_same [where c = c and b = b and h = h] by (auto simp: close_conn_def)

lemma pass_on_same: "pass_on ok m c h = (k, c', h') \<Longrightarrow> same_login c c' \<and> server h' = server h"
  using close_conn_same [of False c h k c' h'] conn_send_msg_same [of c m] by (auto simp: pass_on_def split: if_splits)

lemma closing_same:
  assumes "(let (c, h) = send_close_reason_no_retry r c h in close_conn b c h) = (k, c', h')"
  shows "same_login c c' \<and> server h' = server h"
  using assms close_conn_same same_login_trans [OF conn_send_msg_same]
  by (fastforce simp: send_close_reason_no_retry_def)

lemma file_timer_same:
  assumes "file_timer e reads brk c h = (k, c', h')"
  shows "same_login c c' \<and> server h' = server h"
proof -
  have "same_login c (send_to_cm x c\<lparr>conn_read_jobs := js, outbox := o'\<rparr>)" for x js o'
    by (simp add: same_login_def send_to_cm_def)
  then show ?thesis using assms close_conn_same same_login_trans
    by (fastforce simp: file_timer_def Let_def split: if_splits sum.splits prod.splits)
qed

lemma on_service_message_same:
  assumes "on_service_message e latency m ok c h = (k, c', h')"
  shows "same_login c c'" "(\<And>x. m \<noteq> SvPeerInfo x) \<Longrightarrow> server h' = server h"
proof -
  have h: "same_login c (handle_cursor_switch_display e x y c)" for x y
    by (simp add: handle_cursor_switch_display_def split: option.splits)
  have p: "same_login c c'" if "pass_on ok m1 c1 h1 = (k, c', h')" "same_login c c1" for m1 c1 h1
    using pass_on_same [OF that(1)] that(2) same_login_trans by blast
  show "same_login c c'"
    using assms p h closing_same by (cases m) (fastforce split: if_splits option.splits)+
  show "server h' = server h" if "\<And>x. m \<noteq> SvPeerInfo x"
    using assms that pass_on_same closing_same by (cases m) (fastforce split: if_splits option.splits)+
qed

lemma loop_same:
  assumes "conn_step e ev c h = Some (k, c', h')" "ev \<in> range WebConsole \<union> {PeerLost} \<union> {FileTimer r b | r b. True} \<union> {FromVideo d m ok | d m ok. True}"
  shows "same_login c c' \<and> server h' = server h"
proof -
  have "\<And>d m ok. on_video_message d m ok c h = (k, c', h') \<Longrightarrow> same_login c c' \<and> server h' = server h"
    using pass_on_same by (fastforce simp: on_video_message_def log_call_def Let_def split: option.splits if_splits)
  moreover have "web_console conns c h = (k, c', h') \<Longrightarrow> same_login c c' \<and> server h' = server h" for conns
    using closing_same by (auto simp: web_console_def split: if_splits)
  ultimately show ?thesis using assms close_conn_same file_timer_same by auto
qed

lemma test_delay_timer_same:
  assumes "test_delay_timer e l c h = Some (k, c', h')"
  shows "same_login c c' \<and> server h' = server h"
  using assms on_close_same [where c = c and b = True and h = h]
  by (auto simp: test_delay_timer_def same_login_def conn_messages qos_call_def Let_def split: option.splits if_splits prod.splits)

lemma on_test_delay_same:
  assumes "on_test_delay e b t c h = Some (k, c', h')"
  shows "same_login c c' \<and> server h' = server h"
  using assms
  by (auto simp: on_test_delay_def same_login_def qos_call_def Let_def split: option.splits if_splits)

fun opens_services :: "conn_event \<Rightarrow> bool" where
  "opens_services (FromCm (SwitchPermission name _)) = (name = ''keyboard'' \<or> name = ''clipboard'')"
| "opens_services (FromService _ (SvPeerInfo _) _) = True"
| "opens_services _ = False"

lemma cm_close_same:
  assumes "on_cm_event e CmEvClose c h = Some (k, c', h')"
  shows "same_login c c' \<and> server h' = server h"
proof -
  let ?c = "c\<lparr>chat_unanswered := False, file_transferred := False\<rparr>"
  let ?m = "CloseReasonMsg ''Closed manually by the peer''"
  let ?h = "check_remove_session (conn_inner_id (inner ?c)) (session_key ?c) h"
  have "(c', h') = on_close True (conn_send_msg ?m ?c) ?h"
    using assms by (simp add: send_close_reason_no_retry_def case_prod_unfold Let_def)
  with on_close_same [where c = "conn_send_msg ?m ?c" and b = True and h = ?h]
  have "same_login (conn_send_msg ?m ?c) c'" "server h' = server h" by (metis fst_conv, metis snd_conv check_remove_session_server)
  then show ?thesis by (simp add: same_login_def conn_send_msg_def)
qed

lemma on_cm_event_same:
  assumes "on_cm_event e ev c h = Some (k, c', h')" "ev \<noteq> Authorize"
  shows "same_login c c'"
proof (cases ev)
  case CmEvClose with assms cm_close_same show ?thesis by blast
next
  case (CmErr err)
  with assms on_close_same [where c = c and b = False and h = h] show ?thesis
    by (auto simp: case_prod_unfold split: if_splits)
next
  case (SwitchPermission name b)
  with assms switch_permission_same [of c e name b h] show ?thesis by (metis on_cm_event.simps(5) fst_conv option.inject prod.inject)
next
  case (CmEvVoiceCallResponse b)
  with assms voice_call_same(1) [of c b h] show ?thesis by auto
next
  case CmEvCloseVoiceCall
  with assms voice_call_same(2) [of c h] show ?thesis
    by (auto simp: case_prod_unfold Let_def same_login_def conn_send_msg_def)
next
  case (CmEvChat chat)
  with assms show ?thesis by (auto simp: same_login_def conn_send_msg_def)
qed (use assms in \<open>auto simp: cm_file_same split: if_splits\<close>)

lemma on_cm_event_server:
  assumes "on_cm_event e ev c h = Some (k, c', h')" "ev \<noteq> Authorize" "\<not> opens_services (FromCm ev)"
    and "\<not> authorized c" "authed_conn_id c = None"
  shows "server h' = server h"
proof (cases ev)
  case CmEvClose with assms cm_close_same show ?thesis by blast
next
  case (CmErr err)
  with assms on_close_same [where c = c and b = False and h = h] show ?thesis
    by (auto simp: case_prod_unfold split: if_splits)
next
  case (SwitchPermission name b)
  with assms switch_permission_server [of c name e b h] show ?thesis by auto
next
  case (CmEvVoiceCallResponse b)
  with assms voice_call_server(1) [of c b h] show ?thesis by auto
next
  case CmEvCloseVoiceCall
  with assms voice_call_server(2) [of c h] show ?thesis by (auto simp: case_prod_unfold Let_def)
qed (use assms in auto)

lemma authorize_out:
  assumes "on_cm_event e Authorize c h = Some (k, c', h')" "\<not> authorized c'"
  shows "same_login c c' \<and> server h' = server h"
proof -
  obtain k1 where "send_logon_response_and_keep_alive e (c\<lparr>require_2fa := None\<rparr>) h = Some (k1, c', h')"
    using assms(1) by auto
  from logon_unauthorized [OF this assms(2)] show ?thesis by (simp add: same_login_def)
qed

section \<open>Steps and runs\<close>

lemma outside_same: "\<lbrakk>same_login c c'; outside_ok c\<rbrakk> \<Longrightarrow> outside_ok c'"
  by (simp add: outside_ok_def same_login_def)

lemma on_message_out:
  assumes m: "on_message e m c h = Some (k, c', h')" and out: "\<not> authorized c" "\<not> authorized c'"
  shows "server h' = server h \<and> (k \<longrightarrow> same_login c c')"
proof (cases m)
  case (PCloseReason s)
  with m on_close_same [where c = c and b = True and h = h] show ?thesis
    by (auto simp: on_close_reason_def case_prod_unfold Let_def)
next
  case (PLoginRequest l)
  with m out on_login_request_out show ?thesis by (metis on_message.simps(2))
next
  case (PAuth2fa code hwid)
  with m have "on_auth_2fa e code hwid c h = Some (k, c', h')" by simp
  then show ?thesis
  proof (cases rule: on_auth_2fa_cases)
    case (right totp c1 h1 h2)
    with logon_and_start_cm_out [OF right(5) out(2)] same_login_trans show ?thesis by metis
  qed simp
next
  case (PTestDelay b t)
  with m on_test_delay_same show ?thesis by (metis on_message.simps(4))
next
  case (PSwitchSidesResponse lo raw)
  with m have "on_switch_sides_response e lo raw c h = Some (k, c', h')" by simp
  then show ?thesis
  proof (cases rule: on_switch_sides_cases)
    case (switch l u t c1 c2 h1)
    have c2: "\<not> authorized c2" using switch(10) out(2) by (simp add: same_login_def)
    then have "\<not> k" using logon_and_start_cm_from_switch [OF switch(9,7)] by blast
    with logon_and_start_cm_out [OF switch(9) c2] switch(8) show ?thesis by simp
  qed simp
next
  case (PAuthed a)
  with m out show ?thesis by simp
qed

lemma step_out:
  assumes s: "conn_step e ev c h = Some (k, c', h')" and out: "\<not> authorized c" "\<not> authorized c'" and ok: "outside_ok c"
  shows "(\<not> opens_services ev \<longrightarrow> server h' = server h) \<and> (k \<longrightarrow> outside_ok c')"
proof (cases ev)
  case (FromPeer mo)
  show ?thesis
  proof (cases mo)
    case None
    with s FromPeer ok show ?thesis by auto
  next
    case (Some m)
    with s FromPeer obtain k1 where k1: "on_message e m c (touch_session e c h) = Some (k1, c', h')" "k \<longrightarrow> k1" by auto
    from on_message_out [OF k1(1) out] k1(2) ok outside_same show ?thesis by auto
  qed
next
  case (FromCm cm)
  have "authed_conn_id c = None" using ok out by (simp add: outside_ok_def)
  with s FromCm out ok on_cm_event_same [of e cm c h k c' h'] on_cm_event_server [of e cm c h k c' h'] authorize_out [of e c h k c' h']
    outside_same [of c c'] show ?thesis by (cases "cm = Authorize") auto
next
  case SecondTimer
  with s second_timer_same [of e c h k c' h'] ok outside_same [of c c'] show ?thesis by simp
next
  case (TestDelayTimer l)
  with s test_delay_timer_same [of e l c h k c' h'] ok outside_same [of c c'] show ?thesis by simp
next
  case (FromService latency m ok1)
  with s on_service_message_same [of e latency m ok1 c h k c' h'] ok outside_same [of c c'] show ?thesis by (cases m) auto
qed (use s loop_same [OF s] ok outside_same [of c c'] in auto)

lemma on_message_in:
  assumes m: "on_message e m c h = Some (k, c', h')" and "\<not> authorized c" "authorized c'" "\<not> from_switch c"
  shows "credential e (FromPeer (Some m)) c h"
proof (cases m)
  case (PCloseReason x)
  with m on_close_same [where c = c and b = True and h = h] assms(2,3) show ?thesis
    by (auto simp: on_close_reason_def case_prod_unfold Let_def same_login_def)
next
  case (PLoginRequest l)
  with m on_login_request_authorized [of e l c h k c' h'] assms(2-4) show ?thesis by (auto simp: credential_def)
next
  case (PAuth2fa code hwid)
  with m have "on_auth_2fa e code hwid c h = Some (k, c', h')" by simp
  then show ?thesis
  proof (cases rule: on_auth_2fa_cases)
    case out then show ?thesis using assms(2,3) by (simp add: same_login_def)
  next
    case (right totp c1 h1 h2)
    then show ?thesis using PAuth2fa by (auto simp: credential_def)
  qed
next
  case (PTestDelay b x)
  with m on_test_delay_same [of e b x c h k c' h'] assms(2,3) show ?thesis by (auto simp: same_login_def)
next
  case (PSwitchSidesResponse lo raw)
  with m have "on_switch_sides_response e lo raw c h = Some (k, c', h')" by simp
  then show ?thesis
  proof (cases rule: on_switch_sides_cases)
    case out then show ?thesis using assms(2,3) by (simp add: same_login_def)
  next
    case (switch l u x c1 c2 h1)
    then show ?thesis using PSwitchSidesResponse by (auto simp: credential_def)
  qed
next
  case (PAuthed a)
  with m assms(2,3) show ?thesis by simp
qed

lemma step_in:
  assumes s: "conn_step e ev c h = Some (k, c', h')" and "\<not> authorized c" "authorized c'" and ok: "outside_ok c"
  shows "credential e ev c h"
proof (cases ev)
  case (FromPeer mo)
  have t: "touch_session e c h = h" "\<not> from_switch c"
    using ok assms(2) by (simp_all add: outside_ok_def touch_session_def)
  from FromPeer s assms(2,3) obtain m where mo: "mo = Some m" by (cases mo) auto
  with s FromPeer t obtain k1 where m: "on_message e m c h = Some (k1, c', h')" by auto
  with on_message_in [OF m assms(2,3) t(2)] FromPeer mo show ?thesis by simp
next
  case (FromCm cm)
  with s assms(2,3) on_cm_event_same [of e cm c h k c' h'] show ?thesis
    by (cases "cm = Authorize") (auto simp: credential_def same_login_def)
next
  case SecondTimer
  with s second_timer_same [of e c h k c' h'] assms(2,3) show ?thesis by (simp add: same_login_def)
next
  case (TestDelayTimer l)
  with s test_delay_timer_same [of e l c h k c' h'] assms(2,3) show ?thesis by (simp add: same_login_def)
next
  case (FromService latency m ok1)
  with s on_service_message_same(1) [of e latency m ok1 c h k c' h'] assms(2,3) show ?thesis by (simp add: same_login_def)
qed (use loop_same [OF s] assms(2,3) in \<open>auto simp: same_login_def\<close>)

text \<open>
  A run of a connection.  Between its events the other connections and the system may change the
  host in any way, so every event comes with the host it meets.  The flag tells whether the
  connection is still kept.
\<close>

fun conn_run :: "(host_env \<times> host \<times> conn_event) list \<Rightarrow> Connection \<Rightarrow> (bool \<times> Connection) option" where
  "conn_run [] c = Some (True, c)"
| "conn_run ((e, h, ev) # xs) c =
     (case conn_step e ev c h of
        None \<Rightarrow> None
      | Some (k, c', _) \<Rightarrow> if k then conn_run xs c' else Some (False, c'))"

definition outside :: "Connection \<Rightarrow> bool" where
  "outside c \<longleftrightarrow> \<not> authorized c \<and> outside_ok c"

lemma start_outside: "outside (snd (Connection_start e addr (Connection_new e i t v salt challenge totp cp)))"
  by (simp add: Connection_start_def on_open_def check_whitelist_def deny_note_def conn_messages Connection_new_def
      outside_def outside_ok_def Let_def split: bool.splits)

lemma run_credential:
  assumes "conn_run xs c = Some (b, c')" "outside c" "authorized c'"
  shows "\<exists>ys e h ev zs c1. xs = ys @ (e, h, ev) # zs \<and> conn_run ys c = Some (True, c1) \<and> outside c1 \<and> credential e ev c1 h"
  using assms
proof (induction xs arbitrary: c)
  case Nil
  then show ?case by (simp add: outside_def)
next
  case (Cons x xs)
  obtain e h ev where x: "x = (e, h, ev)" by (cases x)
  from Cons.prems(1) x obtain k c1 h1 where s: "conn_step e ev c h = Some (k, c1, h1)" by (auto split: option.splits)
  show ?case
  proof (cases "authorized c1")
    case True
    have "credential e ev c h" using step_in [OF s] Cons.prems(2) True by (simp add: outside_def)
    then have "x # xs = [] @ (e, h, ev) # xs \<and> conn_run [] c = Some (True, c) \<and> outside c \<and> credential e ev c h"
      using x Cons.prems(2) by simp
    then show ?thesis by blast
  next
    case False
    have k: "k" using Cons.prems(1,3) x s False by (auto split: if_splits)
    then have o: "outside c1" using step_out [OF s] Cons.prems(2) False by (simp add: outside_def)
    have "conn_run xs c1 = Some (b, c')" using Cons.prems(1) x s k by simp
    from Cons.IH [OF this o Cons.prems(3)] obtain ys e' h' ev' zs c2 where
      i: "xs = ys @ (e', h', ev') # zs" "conn_run ys c1 = Some (True, c2)" "outside c2" "credential e' ev' c2 h'" by blast
    have "x # xs = (x # ys) @ (e', h', ev') # zs \<and> conn_run (x # ys) c = Some (True, c2)" using i x s k by simp
    with i show ?thesis by blast
  qed
qed

lemma conn_run_one: "conn_step e ev c h = Some (k, c1, h1) \<Longrightarrow> conn_run [(e, h, ev)] c = Some (k, c1)"
  by (cases k) simp_all

section \<open>An example host\<close>

definition example_conn_env :: host_env where
  "example_conn_env =
     \<lparr>now = 100000, time_ms = 1000000, cfg = (\<lambda>_. ''''), builtin_cfg = (\<lambda>_. ''''), config_id = ''42'',
      permanent_password = '''', sha256 = (\<lambda>x. x), cidr_contains = (\<lambda>_ _. None),
      totp_check = (\<lambda>s code. Some (code = s)), is_match = (\<lambda>_ _. False), uuid_from_slice = Some,
      encode_msg = (\<lambda>_. []), json_text = (\<lambda>_. ''''), tcp_connect = (\<lambda>_. True), is_dir = (\<lambda>_. False),
      only_conn_window_closed = False, active_username = ''user'', hostname = ''host'', platform = ''Linux'',
      version_text = ''1.4.0'', is_wayland = False, headless = False, login_screen_wayland = False, display_server = ''x11'',
      is_prelogin = False, is_locked = False, desktop_error = (\<lambda>_. ''''), displays_on_login = Inr [''d0'', ''d1''],
      inited_msg = False, resolutions = (\<lambda>_. []), cameras = [], camera_resolution = [], camera_exists = False,
      primary_display = 0, supported_encoding = '''', wayland_use_rdp_input = False, wallpaper_ok = True,
      whiteboard_supported = True, service_specified_user = (\<lambda>_. None), fresh_service_id = ''ts'',
      fresh_temporary_password = ''new'', keycode_to_rdev_key = (\<lambda>n. n), rdev_is_modifier = (\<lambda>n. n < 8),
      display_changed_msg = (\<lambda>_ _. None), display_names = None, terminal_handle_action = (\<lambda>_ _ _. Inr None),
      devices_json_len = length, sync_displays = [], f64_mul = (*),
      file_ext = \<lparr>zstd_compress = Some, zstd_decode_all = Some, digest_to_json = (\<lambda>_. []), digest_from_json = (\<lambda>_. None)\<rparr>\<rparr>"

definition example_host :: host where
  "example_host =
     \<lparr>login_failures = [], tfa_failures = [], sessions = [], clock_cells = [], authed_conns = [],
      control_permissions_array = [], alive_conns = [5], wakelock_option = Some True, switch_sides_uuid = [], trusted_devices = [], temporary_password = ''secret'',
      server = Some (Server_new 7 False True), video_qos = VideoQoS_default 0, host_channels = [],
      wallpaper_remover = False, click_time = 0, mouse_move_time = 0,
      host_disk = \<lparr>names = [], inodes = [], next_ino = 0, denied = [], clock = 0, dir_size = 0\<rparr>, calls = []\<rparr>"

definition example_conn :: Connection where
  "example_conn = snd (Connection_start example_conn_env (IpV4 1) (Connection_new example_conn_env 5 50 51 ''salt'' ''chal'' None None))"

definition example_request :: LoginRequest where
  "example_request = LoginRequest_default\<lparr>lr_username := ''42'', lr_my_id := ''7'', lr_version := ''1.4.0'',
     lr_password := ''secretsaltchal''\<rparr>"

text \<open>
  C19. A peer outside gets nothing.  As long as it is not authorized, no message it sends, no timer and no event of the
  connection manager changes the server and its subscriptions, except that the local user switches the
  keyboard or the clipboard permission, or a change of the displays makes the video start afresh; and a connection that is kept stays in the state of an outsider.
\<close>

theorem outsiders_change_nothing:
  assumes "outside c" "conn_step e ev c h = Some (k, c', h')" "\<not> authorized c'" "\<not> opens_services ev"
  shows "server h' = server h \<and> (k \<longrightarrow> outside c')"
  using step_out [OF assms(2)] assms(1,3,4) by (auto simp: outside_def)

theorem outsiders_change_nothing_witness:
  "server (snd (snd (the (conn_step example_conn_env (FromPeer (Some (PAuthed (AMisc (CaptureDisplays [] [] [0]))))) example_conn example_host)))) =
     server example_host"
proof -
  let ?ev = "FromPeer (Some (PAuthed (AMisc (CaptureDisplays [] [] [0]))))"
  have o: "outside example_conn" unfolding example_conn_def by (rule start_outside)
  then have s: "conn_step example_conn_env ?ev example_conn example_host = Some (True, example_conn, touch_session example_conn_env example_conn example_host)"
    by (simp add: outside_def)
  from outsiders_change_nothing [OF o s] o s show ?thesis by (simp add: outside_def)
qed

end
