(* ===== verification/Enforcement.thy ===== *)
theory Enforcement
  imports Access
begin

text \<open>
  The permissions of a connection hold in every reachable state: \<open>enforced\<close> relates what the server
  has subscribed for the connection to its permissions and options, and every event keeps it.
\<close>

section \<open>Permissions hold in every state\<close>

text \<open>What a connection may be subscribed to, given its permissions, its options and its kind.\<close>

definition allowed :: "Connection \<Rightarrow> string \<Rightarrow> bool" where
  "allowed c name \<longleftrightarrow>
     (name = CLIPBOARD_NAME \<longrightarrow> clipboard_enabled c) \<and>
     (name = audio_NAME \<longrightarrow> audio_enabled c) \<and>
     (name = NAME_POS \<longrightarrow> show_remote_cursor c) \<and>
     (name = NAME_WINDOW_FOCUS \<longrightarrow> follow_remote_window c) \<and>
     (name = NAME_CURSOR \<longrightarrow> keyboard c \<or> show_remote_cursor c \<or> terminal c \<or> view_camera c) \<and>
     (\<not> authorized c \<longrightarrow> name = CLIPBOARD_NAME \<or> name = NAME_CURSOR)"

definition subs :: "Connection \<Rightarrow> host \<Rightarrow> string \<Rightarrow> bool" where
  "subs c h name \<longleftrightarrow> (\<exists>sv. server h = Some sv \<and> subed_to sv (conn_inner_id (inner c)) name)"

text \<open>The invariant, up to the services in \<open>S\<close> whose subscriptions are about to be renewed.\<close>

definition enforced_but :: "string set \<Rightarrow> Connection \<Rightarrow> host \<Rightarrow> bool" where
  "enforced_but S c h \<longleftrightarrow>
     (\<forall>sv. server h = Some sv \<longrightarrow> server_wf sv) \<and> (\<forall>name. subs c h name \<longrightarrow> name \<in> S \<or> allowed c name)
     \<and> (\<not> authorized c \<longrightarrow> authed_conn_id c = None)"

abbreviation enforced :: "Connection \<Rightarrow> host \<Rightarrow> bool" where
  "enforced \<equiv> enforced_but {}"

definition same_access :: "Connection \<Rightarrow> Connection \<Rightarrow> bool" where
  "same_access c c' \<longleftrightarrow>
     inner c' = inner c \<and> (authorized c \<longrightarrow> authorized c') \<and> (authorized c' \<or> authed_conn_id c' = authed_conn_id c)
     \<and> clipboard c' = clipboard c \<and> disable_clipboard c' = disable_clipboard c
     \<and> audio c' = audio c \<and> disable_audio c' = disable_audio c
     \<and> show_remote_cursor c' = show_remote_cursor c \<and> follow_remote_window c' = follow_remote_window c
     \<and> (terminal c \<longrightarrow> terminal c') \<and> (view_camera c \<longrightarrow> view_camera c')
     \<and> (keyboard c \<longrightarrow> keyboard c' \<or> terminal c' \<or> view_camera c')"

lemma service_names:
  "CLIPBOARD_NAME \<noteq> audio_NAME" "CLIPBOARD_NAME \<noteq> NAME_POS" "CLIPBOARD_NAME \<noteq> NAME_WINDOW_FOCUS" "CLIPBOARD_NAME \<noteq> NAME_CURSOR"
  "audio_NAME \<noteq> NAME_POS" "audio_NAME \<noteq> NAME_WINDOW_FOCUS" "audio_NAME \<noteq> NAME_CURSOR" "NAME_POS \<noteq> NAME_WINDOW_FOCUS"
  "NAME_POS \<noteq> NAME_CURSOR" "NAME_WINDOW_FOCUS \<noteq> NAME_CURSOR"
  by (simp_all add: CLIPBOARD_NAME_def audio_NAME_def NAME_POS_def NAME_WINDOW_FOCUS_def NAME_CURSOR_def)

lemma video_name_neq:
  assumes "is_video_service_name k"
  shows "k \<noteq> CLIPBOARD_NAME" "k \<noteq> audio_NAME" "k \<noteq> NAME_POS" "k \<noteq> NAME_WINDOW_FOCUS" "k \<noteq> NAME_CURSOR"
proof -
  have "\<not> is_video_service_name CLIPBOARD_NAME" "\<not> is_video_service_name audio_NAME" "\<not> is_video_service_name NAME_POS"
    "\<not> is_video_service_name NAME_WINDOW_FOCUS" "\<not> is_video_service_name NAME_CURSOR" by code_simp+
  with assms show "k \<noteq> CLIPBOARD_NAME" "k \<noteq> audio_NAME" "k \<noteq> NAME_POS" "k \<noteq> NAME_WINDOW_FOCUS" "k \<noteq> NAME_CURSOR" by auto
qed

lemma get_service_name_video [simp]: "is_video_service_name (get_service_name source i)"
  by (cases source) (simp_all add: is_video_service_name_def get_service_name_def starts_with_def)

lemma allowed_video: "\<lbrakk>is_video_service_name k; authorized c\<rbrakk> \<Longrightarrow> allowed c k"
  using video_name_neq [of k] by (simp add: allowed_def)

lemma same_access_refl [simp]: "same_access c c"
  by (simp add: same_access_def)

lemma same_access_trans: "\<lbrakk>same_access a b; same_access b c\<rbrakk> \<Longrightarrow> same_access a c"
  by (simp add: same_access_def) metis

lemma allowed_mono: "\<lbrakk>same_access c c'; allowed c name\<rbrakk> \<Longrightarrow> allowed c' name"
  by (simp add: same_access_def allowed_def clipboard_enabled_def audio_enabled_def) metis

lemma enforced_frame:
  assumes "enforced_but S c h" "same_access c c'" "server h' = server h"
  shows "enforced_but S c' h'"
proof -
  have "subs c' h' name = subs c h name" for name using assms(2,3) by (simp add: subs_def same_access_def)
  moreover have "\<not> authorized c' \<longrightarrow> authed_conn_id c' = None"
    using assms(1,2) unfolding same_access_def enforced_but_def by metis
  ultimately show ?thesis using assms(1,3) allowed_mono [OF assms(2)] unfolding enforced_but_def by metis
qed

lemma enforced_subscribe:
  assumes "enforced_but S c h" "b \<Longrightarrow> allowed c name"
  shows "enforced_but (S - {name}) c (subscribe_conn name c b h)"
proof (cases "server h")
  case None
  with assms show ?thesis by (auto simp: enforced_but_def subs_def subscribe_conn_def with_server_def)
next
  case (Some sv)
  with assms(1) have "server_wf sv" by (simp add: enforced_but_def)
  from subscribe_facts [OF this, of name "inner c" b] assms Some show ?thesis
    by (auto simp: enforced_but_def subs_def subscribe_conn_def with_server_def subed_to_def contains_def split: if_splits option.splits)
qed

lemma enforced_subscribe_same:
  "\<lbrakk>enforced c h; b \<Longrightarrow> allowed c name\<rbrakk> \<Longrightarrow> enforced c (subscribe_conn name c b h)"
  using enforced_subscribe [of "{}" c h b name] by simp

lemma set_flag_inv: "\<lbrakk>P s; \<And>b s. P s \<Longrightarrow> P (f b s)\<rbrakk> \<Longrightarrow> P (set_flag x f s)"
  by (cases "(x, f, s)" rule: set_flag.cases) simp_all

lemma enforced_flag:
  assumes "enforced c h" "\<And>name. \<lbrakk>name \<notin> S; allowed c name\<rbrakk> \<Longrightarrow> allowed c' name"
    "inner c' = inner c" "authorized c' = authorized c" "authed_conn_id c' = authed_conn_id c"
  shows "enforced_but S c' h"
proof -
  have "subs c' h name = subs c h name" for name using assms(3) by (simp add: subs_def)
  then show ?thesis using assms unfolding enforced_but_def by auto
qed

lemma enforced_subscribe_last:
  "\<lbrakk>enforced_but {name} c h; b \<Longrightarrow> allowed c name\<rbrakk> \<Longrightarrow> enforced c (subscribe_conn name c b h)"
  using enforced_subscribe [of "{name}" c h b name] by simp

lemma enforced_cursor:
  assumes "enforced c h" "authorized c"
  shows "enforced (c\<lparr>show_remote_cursor := b\<rparr>)
    (subscribe_conn NAME_POS (c\<lparr>show_remote_cursor := b\<rparr>) b
      (subscribe_conn NAME_CURSOR (c\<lparr>show_remote_cursor := b\<rparr>) (peer_keyboard_enabled (c\<lparr>show_remote_cursor := b\<rparr>) \<or> b) h))"
proof -
  let ?c = "c\<lparr>show_remote_cursor := b\<rparr>"
  have "enforced_but {NAME_POS, NAME_CURSOR} ?c h"
    using assms(1) by (rule enforced_flag) (auto simp: allowed_def clipboard_enabled_def audio_enabled_def)
  then have "enforced_but ({NAME_POS, NAME_CURSOR} - {NAME_CURSOR}) ?c (subscribe_conn NAME_CURSOR ?c (peer_keyboard_enabled ?c \<or> b) h)"
    by (rule enforced_subscribe) (use assms(2) service_names in \<open>auto simp: allowed_def peer_keyboard_enabled_def\<close>)
  then have "enforced_but {NAME_POS} ?c (subscribe_conn NAME_CURSOR ?c (peer_keyboard_enabled ?c \<or> b) h)"
    using service_names by (simp add: insert_Diff_if)
  then show ?thesis
    by (rule enforced_subscribe_last) (use assms(2) service_names in \<open>simp add: allowed_def\<close>)
qed

lemma enforced_follow_window:
  assumes "enforced c h" "authorized c"
  shows "enforced (c\<lparr>follow_remote_window := b\<rparr>) (subscribe_conn NAME_WINDOW_FOCUS (c\<lparr>follow_remote_window := b\<rparr>) b h)"
proof (rule enforced_subscribe_last)
  show "enforced_but {NAME_WINDOW_FOCUS} (c\<lparr>follow_remote_window := b\<rparr>) h"
    using assms(1) by (rule enforced_flag) (auto simp: allowed_def clipboard_enabled_def audio_enabled_def)
qed (use assms(2) service_names in \<open>simp add: allowed_def\<close>)

lemma allowed_audio: "\<lbrakk>authorized c; audio_enabled c\<rbrakk> \<Longrightarrow> allowed c audio_NAME"
  using service_names by (simp add: allowed_def)

lemma enforced_audio_subscription:
  assumes "enforced_but {audio_NAME} c h" "authorized c"
  shows "enforced c (set_audio_subscription c h)"
proof -
  have "enforced c (subscribe_conn audio_NAME c (audio_enabled c) h)"
    using assms(1) by (rule enforced_subscribe_last) (rule allowed_audio [OF assms(2)])
  moreover have "enforced c h" if "audio_enabled c"
    using assms allowed_audio [OF assms(2) that] unfolding enforced_but_def by auto
  ultimately show ?thesis by (auto simp: set_audio_subscription_def)
qed

lemma enforced_clipboard:
  assumes "enforced_but (insert CLIPBOARD_NAME S) c h"
  shows "enforced_but (S - {CLIPBOARD_NAME}) c (subscribe_conn CLIPBOARD_NAME c (can_sub_clipboard_service e c) h)"
proof -
  have "enforced_but (insert CLIPBOARD_NAME S - {CLIPBOARD_NAME}) c (subscribe_conn CLIPBOARD_NAME c (can_sub_clipboard_service e c) h)"
    using assms by (rule enforced_subscribe) (use service_names in \<open>simp add: allowed_def can_sub_clipboard_service_def\<close>)
  then show ?thesis by (simp add: insert_Diff_if)
qed

lemma enforced_disable_audio:
  assumes "enforced c h" "authorized c"
  shows "enforced (c\<lparr>disable_audio := b\<rparr>) (set_audio_subscription (c\<lparr>disable_audio := b\<rparr>) h)"
proof (rule enforced_audio_subscription)
  show "enforced_but {audio_NAME} (c\<lparr>disable_audio := b\<rparr>) h"
    using assms(1) by (rule enforced_flag) (auto simp: allowed_def clipboard_enabled_def audio_enabled_def)
qed (use assms(2) in simp)

lemma enforced_disable_clipboard:
  assumes "enforced c h"
  shows "enforced (c\<lparr>disable_clipboard := b\<rparr>)
    (subscribe_conn CLIPBOARD_NAME (c\<lparr>disable_clipboard := b\<rparr>) (can_sub_clipboard_service e (c\<lparr>disable_clipboard := b\<rparr>)) h)"
proof -
  have "enforced_but {CLIPBOARD_NAME} (c\<lparr>disable_clipboard := b\<rparr>) h"
    using assms(1) by (rule enforced_flag) (auto simp: allowed_def clipboard_enabled_def audio_enabled_def)
  from enforced_clipboard [OF this] show ?thesis by simp
qed

lemma enforced_disable_keyboard:
  assumes "enforced c h"
  shows "enforced (c\<lparr>disable_keyboard := b\<rparr>)
    (subscribe_conn NAME_CURSOR (c\<lparr>disable_keyboard := b\<rparr>) (peer_keyboard_enabled (c\<lparr>disable_keyboard := b\<rparr>) \<or> show_remote_cursor c)
      (subscribe_conn CLIPBOARD_NAME (c\<lparr>disable_keyboard := b\<rparr>) (can_sub_clipboard_service e (c\<lparr>disable_keyboard := b\<rparr>)) h))"
proof (rule enforced_subscribe_same)
  have "enforced_but {CLIPBOARD_NAME} (c\<lparr>disable_keyboard := b\<rparr>) h"
    using assms(1) by (rule enforced_flag) (auto simp: allowed_def clipboard_enabled_def audio_enabled_def)
  from enforced_clipboard [OF this]
  show "enforced (c\<lparr>disable_keyboard := b\<rparr>)
    (subscribe_conn CLIPBOARD_NAME (c\<lparr>disable_keyboard := b\<rparr>) (can_sub_clipboard_service e (c\<lparr>disable_keyboard := b\<rparr>)) h)" by simp
qed (use service_names in \<open>auto simp: allowed_def peer_keyboard_enabled_def\<close>)

definition inside :: "Connection \<times> host \<Rightarrow> bool" where
  "inside s \<longleftrightarrow> enforced (fst s) (snd s) \<and> authorized (fst s)"

lemma inside_frame: "\<lbrakk>inside s; same_access (fst s) (fst s'); server (snd s') = server (snd s)\<rbrakk> \<Longrightarrow> inside s'"
  unfolding inside_def using enforced_frame same_access_def by blast

lemma apply_flags_inside: "inside s \<Longrightarrow> inside (apply_flags e m s)"
proof -
  have p: "inside (apfst (privacy_options m) s)" if "inside s" for s
    using that by (rule inside_frame) (auto simp: privacy_options_def same_access_def conn_messages split: option.splits)
  have b: "inside (block_input_options e m s)" if "inside s" for s
    using that by (rule inside_frame) (auto simp: block_input_options_def same_access_def split: prod.splits option.splits BoolOption.splits)
  have w: "inside (show_cursor_option e b s)" if "inside s" for b s
    using that by (rule inside_frame) (auto simp: show_cursor_option_def same_access_def conn_messages log_call_def Let_def split: prod.splits)
  assume "inside s"
  then show ?thesis unfolding apply_flags_def Let_def
    by (intro set_flag_inv [where P = inside] p b w)
      (auto simp: inside_def enforced_cursor enforced_follow_window enforced_disable_audio enforced_disable_clipboard
        enforced_disable_keyboard log_call_def same_access_def intro: enforced_frame split: prod.splits)
qed

lemma update_options_inside:
  assumes "update_options e m c h = Some s" "inside (c, h)"
  shows "inside s"
proof -
  from assms(1) obtain h1 where "apply_flags e m (c, h1) = s" "server h1 = server h"
    by (fastforce simp: update_options_def qos_call_def log_call_def Let_def bind_eq_Some_conv split: if_splits option.splits)
  with assms(2) apply_flags_inside [of "(c, h1)"] inside_frame [of "(c, h)" "(c, h1)"] show ?thesis by auto
qed

lemma enforced_add_connection:
  assumes "inside (c, h)" "server h = Some sv" "server_wf sv'"
    "\<And>name. subed_to sv' (conn_inner_id (inner c)) name = subed_to sv (conn_inner_id (inner c)) name"
  shows "inside (c, h\<lparr>server := Some (add_connection (primary_display e) (inner c) (noperms e c) sv')\<rparr>)"
proof -
  have "allowed c name" if "granted (primary_display e) (noperms e c) name" for name
    using that assms(1) by (auto simp: inside_def granted_def noperms_def allowed_def can_sub_clipboard_service_def peer_keyboard_enabled_def
        split: if_splits)
  moreover have "allowed c name" if "subed_to sv (conn_inner_id (inner c)) name" for name
    using that assms(1,2) by (auto simp: inside_def enforced_but_def subs_def)
  ultimately show ?thesis
    using assms add_connection_wf [OF assms(3)] subed_to_add_connection [OF assms(3)]
    by (auto simp: inside_def enforced_but_def subs_def)
qed

lemma try_sub_monitor_inside:
  assumes "inside (c, h)"
  shows "inside (try_sub_monitor_services e c h)"
proof (cases "conn_is_remote c \<and> \<not> services_subed c \<and> server h \<noteq> None")
  case True
  then obtain sv where sv: "server h = Some sv" by blast
  define c1 where "c1 = c\<lparr>services_subed := True\<rparr>"
  let ?sv = "try_add_primay_video_service (primary_display e) sv"
  have wf: "server_wf sv" using assms sv by (simp add: inside_def enforced_but_def)
  have v: "server_wf ?sv" "\<And>name. subed_to ?sv (conn_inner_id (inner c1)) name = subed_to sv (conn_inner_id (inner c1)) name"
    using server_apply_frame [OF wf, of "OpTryAddVideo (primary_display e)"] by simp_all
  have "inside (c1, h)" using assms by (rule inside_frame) (simp_all add: c1_def same_access_def)
  from enforced_add_connection [OF this sv v]
  have "inside (c1, h\<lparr>server := Some (add_connection (primary_display e) (inner c1) (noperms e c1) ?sv)\<rparr>)" .
  then have "inside (c1\<lparr>auto_disconnect_timer := t\<rparr>, h\<lparr>server := Some (add_connection (primary_display e) (inner c1) (noperms e c1) ?sv)\<rparr>)" for t
    by (rule inside_frame) (simp_all add: same_access_def)
  then show ?thesis using True sv by (simp add: try_sub_monitor_services_def c1_def Let_def)
next
  case False
  show ?thesis
    using assms by (rule inside_frame) (use False in \<open>auto simp: try_sub_monitor_services_def same_access_def Let_def\<close>)
qed

lemma add_camera_subed:
  assumes "server_wf sv" "subed_to (add_camera_connection cam c sv) i k"
  shows "subed_to sv i k \<or> is_video_service_name k"
  using assms
  by (auto simp: add_camera_connection_def server_wf_def subed_to_def get_adjust svc.subed_sub
      split: option.splits if_splits)

lemma camera_inside:
  assumes "inside (c, h)"
  shows "inside (c, try_sub_camera_displays e c h)"
proof (cases "server h")
  case None
  with assms show ?thesis by (simp add: try_sub_camera_displays_def with_server_def inside_def enforced_but_def subs_def)
next
  case (Some sv)
  let ?sv = "try_add_primary_camera_service (camera_exists e) sv"
  have wf: "server_wf sv" using assms Some by (simp add: inside_def enforced_but_def)
  note v = server_apply_frame [OF wf, of "OpTryAddCamera (camera_exists e)", simplified]
  then have wf2: "server_wf ?sv" by blast
  have "allowed c k" if "subed_to (add_camera_connection (camera_exists e) (inner c) ?sv) (conn_inner_id (inner c)) k" for k
    using add_camera_subed [OF wf2 that] v assms Some allowed_video by (auto simp: inside_def enforced_but_def subs_def)
  with assms Some add_camera_connection_facts [OF wf2, of "camera_exists e" "inner c"] show ?thesis
    by (simp add: try_sub_camera_displays_def with_server_def inside_def enforced_but_def subs_def)
qed

lemma after_login_inside:
  assumes "inside (c, h)"
  shows "inside (after_login e b c h)"
proof -
  have f: "inside (c', h)" if "same_access c c'" for c'
    using assms by (rule inside_frame) (simp_all add: that)
  have k: "inside (send_permission Keyboard False (c\<lparr>keyboard := False\<rparr>), try_sub_camera_displays e c h)" if "view_camera c"
    using camera_inside [OF assms] by (rule inside_frame) (simp_all add: that same_access_def conn_messages)
  have t: "same_access c (init_terminal_service e (c\<lparr>keyboard := False\<rparr>))" if "terminal c"
    using that by (simp add: init_terminal_service_def same_access_def Let_def)
  have s: "same_access c (send_to_cm x c)" for x by (simp add: send_to_cm_def same_access_def)
  show ?thesis
    using f [OF s] f [OF t] k try_sub_monitor_inside [OF assms] assms
    by (auto simp: after_login_def split: option.splits)
qed

lemma login_response_access:
  assumes "login_response e p c h = (b, r, c', h')"
  shows "same_access c c' \<and> server h' = server h"
  using assms
  by (auto simp: login_response_def same_access_def conn_messages on_remote_authorized_def update_codec_on_login_def log_call_def Let_def
      split: sum.splits if_splits)

lemma logon_response_inside:
  assumes "logon_response e c h = Some s" "inside (c, h)"
  shows "inside s"
proof -
  define p where "p = (base_peer_info e)\<lparr>pi_username := (if file_transfer c \<noteq> None \<and> is_prelogin e then '''' else active_username e),
      pi_terminal_feature := True\<rparr>"
  obtain b r c1 h1 where lr: "login_response e p c h = (b, r, c1, h1)" by (metis prod_cases4)
  let ?c = "conn_send_msg r c1"
  have snd: "inside (conn_send_msg x c0, h0)" if "inside (c0, h0)" for x c0 h0
    using that by (rule inside_frame) (simp_all add: same_access_def conn_send_msg_def)
  show ?thesis
  proof (cases "port_forward_socket c \<noteq> None \<or> conn_is_remote c \<and> display_error e \<noteq> ''''")
    case True
    then show ?thesis using assms snd by (auto simp: logon_response_def Let_def split: if_splits)
  next
    case False
    from False assms(1) obtain c2 h2 where o: "(case options_in_login ?c of Some m \<Rightarrow> update_options e m (?c\<lparr>options_in_login := None\<rparr>) h1
          | None \<Rightarrow> Some (?c, h1)) = Some (c2, h2)" and a: "s = after_login e b c2 h2"
      using lr unfolding logon_response_def Let_def p_def by (auto simp: bind_eq_Some_conv split: if_splits)
    have i1: "inside (?c, h1)" using inside_frame [OF assms(2), of "(c1, h1)"] login_response_access [OF lr] snd by simp
    have "inside (?c\<lparr>options_in_login := None\<rparr>, h1)" using i1 by (rule inside_frame) (simp_all add: same_access_def)
    with o i1 update_options_inside have "inside (c2, h2)" by (fastforce split: option.splits)
    with a after_login_inside show ?thesis by simp
  qed
qed

lemma logon_enforced:
  assumes "send_logon_response_and_keep_alive e c h = Some (k, c', h')" "enforced c h"
  shows "enforced c' h'"
proof (cases "authorized c \<or> require_2fa c \<noteq> None \<and> \<not> fst (is_recent_session e True c h) \<and> \<not> from_switch c")
  case True
  have "same_access c c' \<and> server h' = server h"
    using assms(1) True recent_host [of e True c h]
    by (auto simp: send_logon_response_and_keep_alive_def same_access_def conn_messages Let_def split: prod.splits if_splits)
  with assms(2) enforced_frame show ?thesis by blast
next
  case False
  obtain k1 c1 where con: "connect_port_forward_if_needed e c = (k1, c1)" by (cases "connect_port_forward_if_needed e c")
  then have s: "same_access c c1"
    by (auto simp: connect_port_forward_if_needed_def same_access_def conn_messages Let_def
        split: option.splits login_union.splits if_splits prod.splits)
  obtain rec h1 where r: "(if require_2fa c \<noteq> None then is_recent_session e True c h else (False, h)) = (rec, h1)"
    by (metis surj_pair)
  have h1: "server h1 = server h" using r recent_host [of e True c h] by (auto split: if_splits)
  have e1: "enforced c1 h1" using enforced_frame [OF assms(2) s h1] .
  show ?thesis
  proof (cases k1)
    case True
    obtain c2 h2 where m: "mark_authorized e c1 h1 = (c2, h2)" by (cases "mark_authorized e c1 h1")
    then have "same_access c1 c2 \<and> server h2 = server h1 \<and> authorized c2"
      by (auto simp: mark_authorized_def AuthedConnID_new_def check_wake_lock_def log_call_def same_access_def Let_def)
    with e1 enforced_frame have "inside (c2, h2)" by (auto simp: inside_def)
    moreover have "logon_response e c2 h2 = Some (c', h')"
      using True False assms(1) con m r
      by (auto simp: send_logon_response_and_keep_alive_def Let_def split: prod.splits if_splits)
    ultimately show ?thesis using logon_response_inside by (fastforce simp: inside_def)
  next
    case k1: False
    with False assms(1) con r have "c' = c1 \<and> h' = h1"
      by (auto simp: send_logon_response_and_keep_alive_def Let_def split: prod.splits if_splits)
    with e1 show ?thesis by simp
  qed
qed

lemma logon_and_start_cm_enforced:
  assumes "logon_and_start_cm e i n c h = Some (k, c', h')" "enforced c h"
  shows "enforced c' h'"
proof -
  from assms(1) obtain k1 c1 h1 where l: "send_logon_response_and_keep_alive e c h = Some (k1, c1, h1)"
    and "h' = h1" "c' = c1 \<or> (\<exists>b. c' = try_start_cm i n b c1)"
    by (auto simp: logon_and_start_cm_def split: if_splits)
  with enforced_frame [OF logon_enforced [OF l assms(2)], of c' h'] show ?thesis
    by (auto simp: same_access_def conn_messages)
qed

lemma validate_server: "validate_password e c h = (b, h1) \<Longrightarrow> server h1 = server h"
  using validate_password_server [of e c h] by simp

lemma enforced_server: "\<lbrakk>enforced c h; server h' = server h\<rbrakk> \<Longrightarrow> enforced c h'"
  by (erule enforced_frame) simp_all

lemma password_login_enforced:
  assumes "password_login e err l c h = Some (k, c', h')" "enforced c h"
  shows "enforced c' h'"
proof -
  obtain failure r where cf: "check_failure (minute_of (nat (time_ms e))) (conn_ip c) (login_failures h) = (failure, r)"
    by (cases "check_failure (minute_of (nat (time_ms e))) (conn_ip c) (login_failures h)")
  obtain ok h1 where v: "validate_password e c h = (ok, h1)" by (cases "validate_password e c h")
  note s = validate_server [OF v]
  show ?thesis
  proof (cases "r = None \<and> ok \<and> err = ''''")
    case True
    then obtain t where "logon_and_start_cm e (lr_my_id l) (lr_my_name l) c (h1\<lparr>login_failures := t\<rparr>) = Some (k, c', h')"
      using assms(1) cf v by (auto simp: password_login_def Let_def)
    then show ?thesis by (rule logon_and_start_cm_enforced) (use assms(2) s enforced_server in auto)
  next
    case False
    with assms(1) cf v s have "same_access c c' \<and> server h' = server h"
      by (cases r; cases ok) (auto simp: password_login_def same_access_def conn_messages Let_def split: if_splits)
    with assms(2) enforced_frame show ?thesis by blast
  qed
qed

lemma request_kind_access: "request_kind e l c = (k, c') \<Longrightarrow> same_access c c'"
  by (auto simp: request_kind_def same_access_def conn_messages Let_def split: option.splits login_union.splits if_splits)

lemma handle_login_access: "same_access c (handle_login_request_without_validation e l c h)"
  by (auto simp: handle_login_request_without_validation_def same_access_def Let_def split: option.splits)

lemma on_login_request_enforced:
  assumes "on_login_request e l c h = Some (k, c', h')" "enforced c h"
  shows "enforced c' h'"
proof -
  let ?c0 = "handle_login_request_without_validation e l c h"
  obtain kk ck where rk: "request_kind e l ?c0 = (kk, ck)" by (cases "request_kind e l ?c0")
  define c1 where "c1 = ck\<lparr>cm_ipc_started := True\<rparr>"
  have ck: "same_access c ck" using request_kind_access [OF rk] handle_login_access same_access_trans by blast
  then have c1: "same_access c c1" by (simp add: c1_def same_access_def)
  obtain rec h1 where r: "is_recent_session e False c1 h = (rec, h1)" by (cases "is_recent_session e False c1 h")
  have h1: "server h1 = server h" using recent_host [of e False c1 h] r by simp
  let ?err = "desktop_error e (lr_os_login l)"
  show ?thesis
  proof (cases "authorized ?c0 \<or> \<not> kk \<or> (same_access c1 c' \<and> server h' = server h)")
    case True
    have "c' = ?c0 \<and> h' = h" if "authorized ?c0" using assms(1) that by (auto simp: on_login_request_def Let_def)
    moreover have "c' = ck \<and> h' = h" if "\<not> authorized ?c0" "kk = False"
      using assms(1) that rk by (simp add: on_login_request_def Let_def)
    ultimately have "same_access c c' \<and> server h' = server h"
      using True ck same_access_trans [OF c1] handle_login_access by blast
    with assms(2) enforced_frame show ?thesis by blast
  next
    case False
    have t: "same_access c1 (send_login_error e m c1)" "same_access c1 (try_start_cm i n b c1)"
      "same_access c1 (send_login_error e m (try_start_cm i n b c1))" for m i n b
      by (simp_all add: same_access_def conn_messages)
    from False have "logon_and_start_cm e (lr_my_id l) (lr_my_name l) c1 h1 = Some (k, c', h') \<or> password_login e ?err l c1 h1 = Some (k, c', h')"
      using assms(1) t h1 by (simp add: on_login_request_def Let_def rk c1_def [symmetric] r split: if_splits) auto
    then show ?thesis
      using logon_and_start_cm_enforced password_login_enforced enforced_frame [OF assms(2) c1 h1] by blast
  qed
qed

lemma on_auth_2fa_enforced:
  assumes "on_auth_2fa e code hwid c h = Some (k, c', h')" "enforced c h"
  shows "enforced c' h'"
proof -
  obtain failure r where cf: "check_failure (minute_of (nat (time_ms e))) (conn_ip c) (tfa_failures h) = (failure, r)"
    by (cases "check_failure (minute_of (nat (time_ms e))) (conn_ip c) (tfa_failures h)")
  show ?thesis
  proof (cases "r = None \<and> (\<exists>totp. require_2fa c = Some totp \<and> totp_check e totp code = Some True)")
    case False
    with assms(1) cf have "same_access c c' \<and> server h' = server h"
      by (auto simp: on_auth_2fa_def same_access_def conn_messages split: option.splits bool.splits)
    with assms(2) enforced_frame show ?thesis by blast
  next
    case True
    define h1 where "h1 = set_session_2fa e (session_key (c\<lparr>require_2fa := None\<rparr>))
        (h\<lparr>tfa_failures := update_failure (conn_ip c) failure True (tfa_failures h)\<rparr>)"
    from assms(1) cf True obtain h2 where
      l: "logon_and_start_cm e (lr_my_id (conn_lr c)) (lr_my_name (conn_lr c)) (c\<lparr>require_2fa := None\<rparr>) h1 = Some (k, c', h2)"
      "server h' = server h2"
      by (auto simp: on_auth_2fa_def Let_def h1_def split: if_splits)
    have "enforced (c\<lparr>require_2fa := None\<rparr>) h1"
      using assms(2) by (rule enforced_frame) (simp_all add: same_access_def h1_def)
    with logon_and_start_cm_enforced [OF l(1)] enforced_server l(2) show ?thesis by blast
  qed
qed

lemma on_switch_sides_enforced:
  assumes "on_switch_sides_response e lo raw c h = Some (k, c', h')" "enforced c h"
  shows "enforced c' h'"
proof (cases lo)
  case None
  with assms show ?thesis by (simp add: on_switch_sides_response_def)
next
  case (Some l)
  let ?c0 = "handle_login_request_without_validation e l c h"
  let ?table = "filter (\<lambda>(_, v). now e - fst v < 10000) (switch_sides_uuid h)"
  define h1 where "h1 = h\<lparr>switch_sides_uuid := hm_remove (lr_my_id l) ?table\<rparr>"
  have c0: "enforced ?c0 h1" using assms(2) handle_login_access by (rule enforced_frame) (simp add: h1_def)
  then have c1: "enforced (?c0\<lparr>from_switch := True\<rparr>) h1" by (rule enforced_frame) (simp_all add: same_access_def)
  from assms(1) Some consider "c' = ?c0" "h' = h1"
    | c2 where "logon_and_start_cm e (lr_my_id l) (lr_my_name l) (?c0\<lparr>from_switch := True\<rparr>) h1 = Some (k, c2, h')" "same_access c2 c'"
    by (auto simp: on_switch_sides_response_def Let_def h1_def [symmetric] same_access_def split: option.splits prod.splits if_splits)
  then show ?thesis
  proof cases
    case 2
    with enforced_frame [OF logon_and_start_cm_enforced [OF 2(1) c1] 2(2)] show ?thesis by simp
  qed (use c0 in simp)
qed

lemma ensure_video_facts:
  assumes "server_wf sv"
  shows "server_wf (ensure_video_service source i sv) \<and> subed_to (ensure_video_service source i sv) j k = subed_to sv j k"
  using assms add_video_service [OF assms] by (simp add: ensure_video_service_def)

lemma ensure_videos_facts:
  assumes "server_wf sv"
  shows "server_wf (fold (ensure_video_service source) ds sv) \<and> subed_to (fold (ensure_video_service source) ds sv) j k = subed_to sv j k"
  using assms
proof (induction ds arbitrary: sv)
  case (Cons d ds)
  from ensure_video_facts [OF Cons.prems] Cons.IH [of "ensure_video_service source d sv"] show ?case by simp
qed simp

lemma with_server_inside:
  assumes "inside (c, h)"
    "\<And>sv. server_wf sv \<Longrightarrow> server_wf (f sv) \<and> (\<forall>k. subed_to (f sv) (conn_inner_id (inner c)) k \<longrightarrow>
        subed_to sv (conn_inner_id (inner c)) k \<or> allowed c k)"
  shows "inside (c, with_server f h)"
  using assms by (cases "server h") (auto simp: inside_def enforced_but_def subs_def with_server_def)

lemma subscribe_video_inside: "inside (c, h) \<Longrightarrow> inside (c, subscribe_conn (get_service_name source i) c b h)"
  using enforced_subscribe_same allowed_video get_service_name_video by (simp add: inside_def)

lemma inside_fst: "\<lbrakk>inside (c, h); same_access c c'\<rbrakk> \<Longrightarrow> inside (c', h)"
  by (erule inside_frame) simp_all

lemma switch_display_inside:
  assumes "inside (c, h)"
  shows "inside (switch_display_to e i c h)"
proof -
  have "inside (c, with_server (ensure_video_service (video_source c) i) h)"
    using assms by (rule with_server_inside) (use ensure_video_facts in blast)
  then have "inside (c, if i \<noteq> primary_display e then with_server (ensure_video_service (video_source c) i) h else h)"
    using assms by simp
  then have "inside (c, snd (switch_display_to e i c h))"
    using subscribe_video_inside by (simp add: switch_display_to_def Let_def)
  then have "inside (c\<lparr>display_idx := i\<rparr>, snd (switch_display_to e i c h))"
    by (rule inside_fst) (simp add: same_access_def)
  then show ?thesis by (simp add: switch_display_to_def Let_def)
qed

lemma capture_inside:
  assumes "inside (c, h)"
  shows "inside (conn_capture_displays adds subss sets c h)"
proof (cases "server h")
  case None
  with assms show ?thesis by (simp add: conn_capture_displays_def)
next
  case (Some sv)
  let ?v = "video_source c"
  define sv1 where "sv1 = fold (ensure_video_service ?v) sets (fold (ensure_video_service ?v) adds sv)"
  define sv2 where "sv2 = (if adds \<noteq> [] then capture_displays (inner c) ?v adds True False sv1
      else if subss \<noteq> [] then capture_displays (inner c) ?v subss False True sv1
      else capture_displays (inner c) ?v sets True True sv1)"
  define c1 where "c1 = c\<lparr>multi_ui_session := get_subbed_displays_count (conn_inner_id (inner c)) sv2 > 1\<rparr>"
  have wf: "server_wf sv" using assms Some by (simp add: inside_def enforced_but_def)
  have 1: "server_wf sv1" "\<And>j k. subed_to sv1 j k = subed_to sv j k"
    unfolding sv1_def using ensure_videos_facts [OF wf] ensure_videos_facts by blast+
  have 2: "server_wf sv2" "\<And>k. subed_to sv2 (conn_inner_id (inner c)) k \<Longrightarrow> subed_to sv (conn_inner_id (inner c)) k \<or> is_video_service_name k"
    using capture_displays_facts [OF 1(1)] 1(2) by (auto simp: sv2_def split: if_splits)
  have "inside (c, h\<lparr>server := Some sv2\<rparr>)"
    using assms Some 2 allowed_video by (auto simp: inside_def enforced_but_def subs_def)
  then have i1: "inside (c1, h\<lparr>server := Some sv2\<rparr>)" by (rule inside_fst) (simp add: c1_def same_access_def)
  have eq: "conn_capture_displays adds subss sets c h = (c1, h\<lparr>server := Some (if follow_remote_window c1
      then subscribe NAME_WINDOW_FOCUS (inner c1) (\<not> multi_ui_session c1) sv2 else sv2)\<rparr>)"
    unfolding conn_capture_displays_def Some option.case Let_def sv1_def [symmetric] sv2_def [symmetric] c1_def [symmetric]
    by (simp add: c1_def)
  have "inside (c1, subscribe_conn NAME_WINDOW_FOCUS c1 (\<not> multi_ui_session c1) (h\<lparr>server := Some sv2\<rparr>))" if "follow_remote_window c1"
    using that i1 service_names enforced_subscribe_same by (simp add: allowed_def inside_def)
  then show ?thesis unfolding eq using i1 by (simp add: subscribe_conn_def with_server_def)
qed

lemma voice_enforced:
  assumes "enforced c h"
  shows "enforced (fst (handle_voice_call b c h)) (snd (handle_voice_call b c h))"
    "enforced (fst (close_voice_call c h)) (snd (close_voice_call c h))"
proof -
  have au: "authorized c" if "is_authed_view_camera_conn c"
    using that assms by (auto simp: is_authed_view_camera_conn_def enforced_but_def split: option.splits)
  have sub: "enforced c' (subscribe_conn audio_NAME c' x h')"
    if "same_access c c'" "server h' = server h" "is_authed_view_camera_conn c" "x \<Longrightarrow> audio_enabled c'" for c' h' x
    using enforced_frame [OF assms that(1,2)] by (rule enforced_subscribe_same)
      (use allowed_audio au that in \<open>simp add: same_access_def\<close>)
  show "enforced (fst (handle_voice_call b c h)) (snd (handle_voice_call b c h))"
    using assms enforced_frame [OF assms]
    by (auto simp: handle_voice_call_def conn_messages log_call_def same_access_def is_authed_view_camera_conn_def Let_def
        split: option.splits intro!: sub)
  show "enforced (fst (close_voice_call c h)) (snd (close_voice_call c h))"
    using enforced_frame [OF assms]
    by (auto simp: close_voice_call_def conn_messages log_call_def same_access_def is_authed_view_camera_conn_def Let_def
        split: option.splits intro!: sub)
qed

lemma resolution_server [simp]: "server (change_resolution e d w1 w2 c h) = server h"
  by (auto simp: change_resolution_def log_call_def split: option.splits)

lemma handle_switch_display_inside:
  assumes "inside (c, h)"
  shows "inside (handle_switch_display e i w1 w2 c h)"
proof (cases "display_idx c \<noteq> i")
  case True
  define s where "s = (case server h of None \<Rightarrow> (c, h)
      | Some _ \<Rightarrow> (let (c, h) = switch_display_to e i c h
                   in (c, if w1 \<noteq> 0 \<and> w2 \<noteq> 0 then change_resolution e None w1 w2 c h else h)))"
  have "inside s"
    using assms switch_display_inside [OF assms, of e i] inside_frame [of "switch_display_to e i c h" s]
    by (auto simp: s_def Let_def case_prod_unfold split: option.splits)
  moreover have "handle_switch_display e i w1 w2 c h =
      (case display_changed_msg e (display_idx (fst s)) (video_source (fst s)) of
         Some m \<Rightarrow> conn_send_msg (DisplayChangedMsg m) (fst s) | None \<Rightarrow> fst s, snd s)"
    using True unfolding handle_switch_display_def s_def [symmetric] by (simp add: Let_def case_prod_unfold)
  ultimately show ?thesis
    using inside_fst [of "fst s" "snd s"] by (auto simp: same_access_def conn_send_msg_def split: option.splits)
next
  case False
  with assms show ?thesis by (simp add: handle_switch_display_def)
qed

lemma refresh_inside: "inside (c, h) \<Longrightarrow> inside (c, refresh_video_display d c h)"
  unfolding refresh_video_display_def
  by (erule with_server_inside) (use set_video_service_opt_facts in blast)

lemma on_misc_inside:
  assumes "on_misc e m c h = Some (k, s)" "inside (c, h)"
  shows "inside s"
proof -
  have u: "inside (update_auto_disconnect_timer e c, h')" if "inside (c, h')" for h'
    using that by (rule inside_fst) (simp add: same_access_def update_auto_disconnect_timer_def)
  show ?thesis
  proof (cases m)
    case (SwitchDisplay i w1 w2) with assms handle_switch_display_inside show ?thesis by auto
  next
    case (CaptureDisplays xs ys zs) with assms capture_inside show ?thesis by auto
  next
    case (MiscOption om) with assms update_options_inside show ?thesis by auto
  next
    case (RefreshVideo r) with assms u refresh_inside show ?thesis by (auto split: if_splits)
  next
    case (RefreshVideoDisplay d) with assms u refresh_inside show ?thesis by auto
  qed (use assms(1) in \<open>auto intro!: inside_frame [OF assms(2)] simp: same_access_def conn_messages update_auto_disconnect_timer_def
        log_call_def on_close_def Let_def case_prod_unfold split: option.splits if_splits\<close>)
qed

lemma input_access:
  "same_access c (fst (on_mouse_event e m c h)) \<and> server (snd (on_mouse_event e m c h)) = server h"
  "same_access c (fst (on_pointer_event e p c h)) \<and> server (snd (on_pointer_event e p c h)) = server h"
  "same_access c (fst (on_key_event e k c h)) \<and> server (snd (on_key_event e k c h)) = server h"
  by (auto simp: on_mouse_event_def on_pointer_event_def on_key_event_def push_input_def update_auto_disconnect_timer_def
      same_access_def Let_def split: option.splits)

lemma read_job_access: "same_access c (create_and_start_read_job e i ty src n hid od path b c h)"
  by (auto simp: create_and_start_read_job_def process_new_read_job_def same_access_def conn_messages Let_def split: sum.splits)

lemma on_file_action_access:
  assumes "on_file_action e fa c h = Some (c', h')"
  shows "same_access c c' \<and> server h' = server h"
proof (cases "serve_file_action e fa c h = Some (c', h')")
  case False
  with assms show ?thesis
    by (auto simp: on_file_action_def same_access_def conn_messages split: if_splits file_action.splits)
next
  case True
  show ?thesis
  proof (cases fa)
    case (FA_Send i p n hidden ty)
    have r: "same_access x (create_and_start_read_job e i ty' src n hidden od p b x h\<lparr>file_transferred := True\<rparr>)" for x ty' src od b
      using read_job_access [of x e i ty' src n hidden od p b h] by (simp add: same_access_def)
    have "same_access c c1" if "printer_job p c = Some (d, c1)" for d c1
      using that by (auto simp: printer_job_def same_access_def split: option.splits)
    with r same_access_trans have "same_access c (on_send_action e i p n hidden ty c h)"
      by (simp add: on_send_action_def Let_def split: JobType.splits option.splits) blast
    with True FA_Send show ?thesis by auto
  next
    case (FA_SendConfirm r)
    have "same_access c (send_fs x c)" "same_access c (c\<lparr>conn_read_jobs := js\<rparr>)" for x js
      by (simp_all add: same_access_def send_fs_def send_to_cm_def)
    with FA_SendConfirm True show ?thesis by (cases "get_job (req_id r) (conn_read_jobs c)") auto
  qed (use True in \<open>auto simp: same_access_def conn_messages send_fs_def Let_def case_prod_unfold split: option.splits sum.splits\<close>)
qed

lemma on_authed_message_inside:
  assumes "on_authed_message e m c h = Some (k, s)" "inside (c, h)"
  shows "inside s"
proof (cases m)
  case (AMisc x) with assms on_misc_inside show ?thesis by auto
next
  case (AFileAction fa)
  with assms on_file_action_access inside_frame [OF assms(2), of s] show ?thesis by (cases s) (fastforce simp: keep_def)
next
  case (AVoiceCallRequest b t)
  show ?thesis
  proof (cases b)
    case True
    with AVoiceCallRequest assms inside_frame [OF assms(2), of s] show ?thesis
      by (auto simp: keep_def on_voice_call_request_def same_access_def conn_messages)
  next
    case False
    with AVoiceCallRequest assms voice_enforced(2) [of c h] voice_call_same(2) [of c h] show ?thesis
      by (auto simp: keep_def on_voice_call_request_def inside_def same_login_def)
  qed
next
  case (AScreenshotRequest d sid)
  with assms inside_frame [OF assms(2), of "(c, log_call x h)" for x] refresh_inside show ?thesis
    by (auto simp: keep_def on_screenshot_request_def log_call_def split: option.splits)
next
  case (AFileResponse fr)
  with assms inside_frame [OF assms(2), of s] show ?thesis
    by (cases fr) (auto simp: same_access_def conn_messages send_fs_def)
qed (use assms(1) input_access in \<open>auto intro!: inside_frame [OF assms(2)] simp: keep_def same_access_def conn_messages handle_terminal_action_def
      log_call_def split: option.splits sum.splits if_splits\<close>)

lemma enforced_keyboard:
  assumes "enforced c h"
  shows "enforced (send_permission Keyboard b (c\<lparr>keyboard := b\<rparr>))
    (subscribe_conn NAME_CURSOR (send_permission Keyboard b (c\<lparr>keyboard := b\<rparr>)) (b \<or> show_remote_cursor c)
      (subscribe_conn CLIPBOARD_NAME (send_permission Keyboard b (c\<lparr>keyboard := b\<rparr>))
        (can_sub_clipboard_service e (send_permission Keyboard b (c\<lparr>keyboard := b\<rparr>))) h))"
proof -
  let ?c = "send_permission Keyboard b (c\<lparr>keyboard := b\<rparr>)"
  have "enforced_but {CLIPBOARD_NAME, NAME_CURSOR} ?c h"
    using assms by (rule enforced_flag) (auto simp: allowed_def clipboard_enabled_def audio_enabled_def conn_messages)
  from enforced_clipboard [OF this]
  have "enforced_but {NAME_CURSOR} ?c (subscribe_conn CLIPBOARD_NAME ?c (can_sub_clipboard_service e ?c) h)"
    using service_names by (simp add: insert_Diff_if)
  then show ?thesis
    by (rule enforced_subscribe_last) (use service_names in \<open>auto simp: allowed_def conn_messages\<close>)
qed

lemma enforced_clipboard_switch:
  assumes "enforced c h"
  shows "enforced (send_permission Clipboard b (c\<lparr>clipboard := b\<rparr>))
    (subscribe_conn CLIPBOARD_NAME (send_permission Clipboard b (c\<lparr>clipboard := b\<rparr>))
      (can_sub_clipboard_service e (send_permission Clipboard b (c\<lparr>clipboard := b\<rparr>))) h)"
proof -
  have "enforced_but {CLIPBOARD_NAME} (send_permission Clipboard b (c\<lparr>clipboard := b\<rparr>)) h"
    using assms by (rule enforced_flag) (auto simp: allowed_def clipboard_enabled_def audio_enabled_def conn_messages)
  from enforced_clipboard [OF this] show ?thesis by simp
qed

lemma enforced_audio_switch:
  assumes "enforced c h"
  shows "enforced (send_permission Audio b (c\<lparr>audio := b\<rparr>))
    (if authorized (send_permission Audio b (c\<lparr>audio := b\<rparr>)) then set_audio_subscription (send_permission Audio b (c\<lparr>audio := b\<rparr>)) h else h)"
proof -
  let ?c = "send_permission Audio b (c\<lparr>audio := b\<rparr>)"
  have e: "enforced_but {audio_NAME} ?c h"
    using assms by (rule enforced_flag) (auto simp: allowed_def clipboard_enabled_def audio_enabled_def conn_messages)
  have "\<not> subs ?c h audio_NAME" if "\<not> authorized c"
    using that assms service_names unfolding enforced_but_def subs_def allowed_def by (simp add: conn_messages) metis
  with e enforced_audio_subscription [OF e] show ?thesis by (auto simp: enforced_but_def conn_messages)
qed

lemma switch_permission_enforced:
  assumes "enforced c h"
  shows "enforced (fst (switch_permission e name b c h)) (snd (switch_permission e name b c h))"
proof -
  have o: "enforced (send_permission p b c') h" if "same_access c c'" for p c'
    using assms by (rule enforced_frame) (use that in \<open>auto simp: same_access_def conn_messages\<close>)
  show ?thesis
    using enforced_keyboard [OF assms, of b e] enforced_clipboard_switch [OF assms, of b e] enforced_audio_switch [OF assms, of b]
      o [of "c\<lparr>file_perm := b\<rparr>" File] o [of "c\<lparr>restart := b\<rparr>" Restart] o [of "c\<lparr>recording := b\<rparr>" Recording]
      o [of "c\<lparr>block_input := b\<rparr>" BlockInput] assms
    by (simp add: switch_permission_def same_access_def Let_def) (simp add: conn_messages)
qed

lemma on_close_access: "same_access c (fst (on_close b c h)) \<and> server (snd (on_close b c h)) = server h"
  by (auto simp: on_close_def same_access_def conn_messages log_call_def Let_def)

lemma close_access: "on_close True (conn_send_msg m c) (check_remove_session i key h) = (c', h') \<Longrightarrow> same_access c c' \<and> server h' = server h"
  using on_close_access [where c = "conn_send_msg m c" and b = True and h = "check_remove_session i key h"]
  by (auto simp: same_access_def conn_send_msg_def)

lemma on_cm_event_enforced:
  assumes "on_cm_event e ev c h = Some (k, c', h')" "enforced c h"
  shows "enforced c' h'"
proof (cases ev)
  case Authorize
  with assms(1) obtain k1 where l: "send_logon_response_and_keep_alive e (c\<lparr>require_2fa := None\<rparr>) h = Some (k1, c', h')" by auto
  have "enforced (c\<lparr>require_2fa := None\<rparr>) h" using assms(2) by (rule enforced_frame) (simp_all add: same_access_def)
  then show ?thesis by (rule logon_enforced [OF l])
next
  case (SwitchPermission name b)
  with assms switch_permission_enforced [of c h e name b] show ?thesis by auto
next
  case (CmEvVoiceCallResponse b)
  with assms voice_enforced(1) [of c h b] show ?thesis by auto
next
  case CmEvCloseVoiceCall
  obtain c1 h1 where v: "close_voice_call c h = (c1, h1)" by (cases "close_voice_call c h")
  with CmEvCloseVoiceCall assms voice_enforced(2) [OF assms(2)] enforced_frame [of "{}" c1 h1 c' h'] show ?thesis
    by (auto simp: same_access_def conn_send_msg_def)
next
  case CmEvClose
  have s: "enforced (c\<lparr>chat_unanswered := False, file_transferred := False\<rparr>) h"
    using assms(2) by (rule enforced_frame) (simp_all add: same_access_def)
  from CmEvClose assms(1) close_access enforced_frame [OF s] show ?thesis
    by (fastforce simp: send_close_reason_no_retry_def case_prod_unfold Let_def)
next
  case (CmErr err)
  with assms on_close_access [of c False h] enforced_frame [OF assms(2), of c' h'] show ?thesis
    by (auto simp: case_prod_unfold split: if_splits)
qed (use assms(1) in \<open>auto intro!: enforced_frame [OF assms(2)] simp: same_access_def conn_messages handle_read_job_init_result_def
      handle_file_block_from_cm_def handle_file_read_done_def handle_file_read_error_def handle_file_digest_from_cm_def
      handle_all_files_result_def split: sum.splits option.splits if_splits\<close>)

lemma on_message_enforced:
  assumes "on_message e m c h = Some (k, c', h')" "enforced c h"
  shows "enforced c' h'"
proof (cases m)
  case (PAuthed a)
  with assms on_authed_message_inside [of e a c h k "(c', h')"] show ?thesis by (auto simp: inside_def split: if_splits)
next
  case (PCloseReason r)
  with assms on_close_access [of c True h] enforced_frame [OF assms(2), of c' h'] show ?thesis
    by (auto simp: on_close_reason_def case_prod_unfold Let_def)
next
  case (PTestDelay b t)
  with assms enforced_frame [OF assms(2), of c' h'] show ?thesis
    by (auto simp: on_test_delay_def qos_call_def same_access_def Let_def split: option.splits if_splits)
qed (use assms on_login_request_enforced on_auth_2fa_enforced on_switch_sides_enforced in auto)

lemma fold_cm_access: "same_access c c1 \<Longrightarrow> same_access c (fold (\<lambda>x. send_to_cm (CmFileLog x)) ls c1)"
  by (induction ls arbitrary: c1) (auto simp: same_access_def send_to_cm_def)

lemma test_delay_access:
  assumes "test_delay_timer e l c h = Some (k, c', h')"
  shows "same_access c c' \<and> server h' = server h"
proof (cases "now e - l \<ge> 30000")
  case True
  with assms on_close_access [of c True h] show ?thesis
    by (auto simp: test_delay_timer_def case_prod_unfold)
next
  case False
  define c1 where "c1 = (if last_test_delay c = None \<and> \<not> (port_forward_socket c \<noteq> None \<and> authorized c)
     then conn_send_msg (TestDelayProbe (network_delay c) (bitrate_store (video_qos h))) (c\<lparr>last_test_delay := Some (now e)\<rparr>) else c)"
  have c1: "same_access c c1" by (simp add: c1_def same_access_def conn_send_msg_def)
  have "c' = c1 \<and> server h' = server h"
    using assms False unfolding test_delay_timer_def c1_def [symmetric] Let_def
    by (simp add: qos_call_def split: if_splits option.splits) auto
  with c1 show ?thesis by simp
qed

lemma close_conn_access: "close_conn b c h = (k, c', h') \<Longrightarrow> same_access c c' \<and> server h' = server h"
  using on_close_access [of c b h] by (auto simp: close_conn_def)

lemma send_access [simp]: "same_access c (conn_send_msg m c)"
  by (simp add: same_access_def conn_send_msg_def)

lemma pass_on_access: "pass_on ok m c h = (k, c', h') \<Longrightarrow> same_access c c' \<and> server h' = server h"
  using close_conn_access [of False c h k c' h'] by (auto simp: pass_on_def split: if_splits)

lemma closing_access:
  assumes "(let (c, h) = send_close_reason_no_retry r c h in close_conn b c h) = (k, c', h')"
  shows "same_access c c' \<and> server h' = server h"
  using assms close_conn_access same_access_trans [OF send_access]
  by (fastforce simp: send_close_reason_no_retry_def)

lemma file_timer_access:
  assumes "file_timer e reads brk c h = (k, c', h')"
  shows "same_access c c' \<and> server h' = server h"
proof -
  have "same_access c (send_to_cm x c\<lparr>conn_read_jobs := js, outbox := o'\<rparr>)" for x js o'
    by (simp add: same_access_def send_to_cm_def)
  then show ?thesis using assms close_conn_access same_access_trans
    by (fastforce simp: file_timer_def Let_def split: if_splits sum.splits prod.splits)
qed

lemma refresh_enforced:
  assumes "enforced c h"
  shows "enforced c (refresh_video_display d c h)"
proof (cases "server h")
  case None
  with assms show ?thesis by (auto simp: enforced_but_def subs_def refresh_video_display_def with_server_def)
next
  case (Some sv)
  with assms have "server_wf sv" by (simp add: enforced_but_def)
  from set_video_service_opt_facts [OF this] assms Some show ?thesis
    by (auto simp: enforced_but_def subs_def refresh_video_display_def with_server_def)
qed

lemma on_service_message_enforced:
  assumes "on_service_message e l m ok c h = (k, c', h')" "enforced c h"
  shows "enforced c' h'"
proof -
  have p: "enforced c' h'" if "pass_on ok m1 c1 h1 = (k, c', h')" "enforced c1 h1" for m1 c1 h1
    using pass_on_access [OF that(1)] that(2) enforced_frame by blast
  have "same_access c (handle_cursor_switch_display e x y c)" for x y
    by (simp add: handle_cursor_switch_display_def split: option.splits)
  then have "enforced (handle_cursor_switch_display e x y c) h" for x y
    using assms(2) enforced_frame by blast
  with assms p refresh_enforced [OF assms(2)] closing_access enforced_frame [OF assms(2)] show ?thesis
    by (cases m) (auto split: if_splits option.splits)
qed

lemma conn_step_enforced:
  assumes "conn_step e ev c h = Some (k, c', h')" "enforced c h"
  shows "enforced c' h'"
proof (cases "(e, ev, c, h)" rule: conn_step.cases)
  case (1 e1 c1 h1)
  with assms enforced_server [OF assms(2)] show ?thesis by auto
next
  case (2 e1 m c1 h1)
  with assms(1) obtain k1 where "on_message e m c (touch_session e c h) = Some (k1, c', h')" by auto
  then show ?thesis by (rule on_message_enforced) (use assms(2) enforced_server in auto)
next
  case (3 e1 cm c1 h1)
  with assms on_cm_event_enforced show ?thesis by auto
next
  case (4 e1 c1 h1)
  have w: "server (check_wake_lock_on_setting_changed e h) = server h"
    by (simp add: check_wake_lock_on_setting_changed_def check_wake_lock_def log_call_def Let_def)
  have g: "same_access c (c\<lparr>file_remove_log_control := l\<rparr>)" for l by (simp add: same_access_def)
  have "same_access c (report_removed e c)"
    by (auto simp: report_removed_def split: prod.splits intro!: fold_cm_access g)
  with 4 assms(1) closing_access w have "same_access c c' \<and> server h' = server h"
    by (cases "inactive e c") (fastforce simp: second_timer_def Let_def)+
  with assms(2) enforced_frame show ?thesis by blast
next
  case (5 e1 l c1 h1)
  with assms test_delay_access enforced_frame show ?thesis by (metis conn_step.simps(5) Pair_inject)
next
  case (6 e1 c1 h1)
  with assms close_conn_access enforced_frame show ?thesis by (metis conn_step.simps(6) Pair_inject option.inject)
next
  case (7 e1 reads brk c1 h1)
  with assms file_timer_access enforced_frame show ?thesis by (metis conn_step.simps(7) Pair_inject option.inject)
next
  case (8 e1 conns c1 h1)
  then have "web_console conns c h = (k, c', h')" using assms(1) by simp
  then have "same_access c c' \<and> server h' = server h"
    using closing_access by (auto simp: web_console_def split: if_splits)
  with assms(2) enforced_frame show ?thesis by blast
next
  case (9 e1 d m ok c1 h1)
  then have "on_video_message d m ok c h = (k, c', h')" using assms(1) by simp
  then have "same_access c c' \<and> server h' = server h"
    using pass_on_access by (fastforce simp: on_video_message_def log_call_def Let_def split: option.splits if_splits)
  with assms(2) enforced_frame show ?thesis by blast
next
  case (10 e1 l m ok c1 h1)
  with assms on_service_message_enforced show ?thesis by (metis conn_step.simps(10) Pair_inject option.inject)
qed

section \<open>Reachable states\<close>

text \<open>
  The states of a connection and its host: a new connection whose number nobody has used, the turns
  of its loop, and between them what others do, which is an operation of the server for another
  connection or any change of the host outside the server.
\<close>

inductive reachable :: "Connection \<Rightarrow> host \<Rightarrow> bool" where
  start: "\<lbrakk>\<And>sv. server h = Some sv \<Longrightarrow> server_wf sv \<and> (\<forall>name. \<not> subed_to sv i name)\<rbrakk>
    \<Longrightarrow> reachable (snd (Connection_start e addr (Connection_new e i t v salt challenge totp cp))) h"
| turn: "\<lbrakk>reachable c h; conn_step e ev c h = Some (k, c', h')\<rbrakk> \<Longrightarrow> reachable c' h'"
| other_conn: "\<lbrakk>reachable c h; op_conn oper \<noteq> Some (conn_inner_id (inner c))\<rbrakk> \<Longrightarrow> reachable c (with_server (server_apply oper) h)"
| other_host: "\<lbrakk>reachable c h; server h' = server h\<rbrakk> \<Longrightarrow> reachable c h'"

lemma reachable_enforced: "reachable c h \<Longrightarrow> enforced c h"
proof (induction rule: reachable.induct)
  case (start h i e addr t v salt challenge totp cp)
  let ?c = "snd (Connection_start e addr (Connection_new e i t v salt challenge totp cp))"
  have "conn_inner_id (inner ?c) = i"
    by (simp add: Connection_start_def on_open_def check_whitelist_def deny_note_def conn_messages Connection_new_def ConnInner_new_def Let_def
        split: bool.splits)
  moreover have "authed_conn_id ?c = None"
    using start_outside [of e addr i t v salt challenge totp cp] by (simp add: outside_def outside_ok_def)
  ultimately show ?case using start by (auto simp: enforced_but_def subs_def)
next
  case (turn c h e ev k c' h')
  then show ?case using conn_step_enforced by blast
next
  case (other_conn c h oper)
  from other_conn.IH have wf: "\<And>sv. server h = Some sv \<Longrightarrow> server_wf sv" by (simp add: enforced_but_def)
  show ?case
    using other_conn.IH other_conn.hyps(2) server_apply_frame [OF wf, of _ oper "conn_inner_id (inner c)"]
    by (auto simp: enforced_but_def subs_def with_server_def)
next
  case (other_host c h h')
  then show ?case using enforced_server by blast
qed

text \<open>
  C2. The permissions hold in every reachable state, whatever the peer, the local user and the other connections do.
  A connection is subscribed to the clipboard only while the clipboard is permitted and not disabled, to
  the sound only while it is permitted and not disabled, to the pointer position and the focused window only
  while the peer asks for them, and to the pointer shape only while it may use the keyboard or asks for the pointer or has no
  desktop session at all; as long as it is not authorized it is subscribed to nothing but the clipboard and
  the pointer shape.
\<close>

theorem permissions_enforced:
  assumes "reachable c h" "server h = Some sv" "subed_to sv (conn_inner_id (inner c)) name"
  shows "(name = CLIPBOARD_NAME \<longrightarrow> clipboard c \<and> \<not> disable_clipboard c) \<and>
    (name = audio_NAME \<longrightarrow> audio c \<and> \<not> disable_audio c) \<and>
    (name = NAME_POS \<longrightarrow> show_remote_cursor c) \<and>
    (name = NAME_WINDOW_FOCUS \<longrightarrow> follow_remote_window c) \<and>
    (name = NAME_CURSOR \<longrightarrow> keyboard c \<or> show_remote_cursor c \<or> terminal c \<or> view_camera c) \<and>
    (\<not> authorized c \<longrightarrow> name = CLIPBOARD_NAME \<or> name = NAME_CURSOR)"
proof -
  have "allowed c name" using reachable_enforced [OF assms(1)] assms(2,3) by (simp add: enforced_but_def subs_def)
  then show ?thesis by (simp add: allowed_def clipboard_enabled_def audio_enabled_def)
qed

text \<open>The local user switches the clipboard on for a peer that is still outside.\<close>

definition clipboard_switched :: "Connection \<times> host" where
  "clipboard_switched = switch_permission example_conn_env ''clipboard'' True example_conn example_host"

lemma example_start: "reachable example_conn example_host"
  unfolding example_conn_def
proof (rule start)
  fix sv assume "server example_host = Some sv"
  then have sv: "sv = Server_new 7 False True" by (simp add: example_host_def)
  have "hm_get (services (Server_new 7 False True)) name = Some s \<Longrightarrow> \<not> is_subed 5 s" for name s
    by (auto simp: Server_new_def add_service_def ServiceTmpl_new_def is_subed_def split: if_splits)
  then show "server_wf sv \<and> (\<forall>name. \<not> subed_to sv 5 name)"
    using Server_new_wf sv by (auto simp: subed_to_def split: option.splits)
qed

theorem permissions_enforced_witness:
  "\<exists>sv. server (snd clipboard_switched) = Some sv \<and> subed_to sv 5 CLIPBOARD_NAME \<and> clipboard (fst clipboard_switched) \<and>
    \<not> authorized (fst clipboard_switched)"
proof -
  have "conn_step example_conn_env (FromCm (SwitchPermission ''clipboard'' True)) example_conn example_host =
      Some (True, fst clipboard_switched, snd clipboard_switched)" by (simp add: clipboard_switched_def)
  with turn [OF example_start] have "reachable (fst clipboard_switched) (snd clipboard_switched)" by blast
  from permissions_enforced [OF this, of _ CLIPBOARD_NAME]
  have c: "clipboard (fst clipboard_switched)" if "server (snd clipboard_switched) = Some sv"
    "subed_to sv (conn_inner_id (inner (fst clipboard_switched))) CLIPBOARD_NAME" for sv using that by blast
  have "case server (snd clipboard_switched) of Some sv \<Rightarrow>
      subed_to sv (conn_inner_id (inner (fst clipboard_switched))) CLIPBOARD_NAME | None \<Rightarrow> False"
    "conn_inner_id (inner (fst clipboard_switched)) = 5" "\<not> authorized (fst clipboard_switched)" by code_simp+
  with c show ?thesis by (auto split: option.splits)
qed

text \<open>
  C40. Giving displays up drops the others.  A request that names displays to stop capturing leaves the connection
  subscribed to exactly those displays it was subscribed to and named, and unsubscribes every other display.
\<close>

theorem sub_drops_the_others:
  assumes "authorized c" "port_forward_socket c = None" "server h = Some sv" "server_wf sv" "ds \<noteq> []" "is_video_service_name name"
  shows "\<exists>c' h'. conn_step e (FromPeer (Some (PAuthed (AMisc (CaptureDisplays [] ds []))))) c h = Some (True, c', h') \<and>
    (subs c' h' name \<longleftrightarrow> subs c h name \<and> name \<in> get_service_name (video_source c) ` set ds)"
proof -
  let ?sv = "capture_displays (inner c) (video_source c) ds False True sv"
  have t: "server (touch_session e c h) = Some sv" using assms(3) by simp
  note f = capture_displays_facts [OF assms(4), of "inner c" "video_source c" ds False True]
  define c' where "c' = c\<lparr>multi_ui_session := get_subbed_displays_count (conn_inner_id (inner c)) ?sv > 1\<rparr>"
  define sv' where "sv' = (if follow_remote_window c' then subscribe NAME_WINDOW_FOCUS (inner c') (\<not> multi_ui_session c') ?sv else ?sv)"
  have i: "inner c' = inner c" by (simp add: c'_def)
  have r: "conn_capture_displays [] ds [] c (touch_session e c h) = (c', touch_session e c h\<lparr>server := Some sv'\<rparr>)"
    unfolding conn_capture_displays_def t option.case sv'_def c'_def using assms(5) by (simp add: Let_def)
  have s: "sv' = ?sv \<or> (\<exists>b. sv' = subscribe NAME_WINDOW_FOCUS (inner c) b ?sv)" by (auto simp: sv'_def i)
  have "port_forward_socket c' = port_forward_socket c \<and> authorized c' = authorized c" by (simp add: c'_def)
  then have step: "conn_step e (FromPeer (Some (PAuthed (AMisc (CaptureDisplays [] ds []))))) c h =
      Some (True, c', touch_session e c h\<lparr>server := Some sv'\<rparr>)" using r assms(1,2) by simp
  have "subed_to sv' (conn_inner_id (inner c)) name = subed_to ?sv (conn_inner_id (inner c)) name"
    using s subscribe_facts [of ?sv NAME_WINDOW_FOCUS "inner c"] f video_name_neq(4) [OF assms(6)] by auto
  moreover have "subed_to ?sv (conn_inner_id (inner c)) name \<longleftrightarrow>
      subed_to sv (conn_inner_id (inner c)) name \<and> name \<in> get_service_name (video_source c) ` set ds"
  proof (cases "contains name sv")
    case True
    then show ?thesis using f assms(6) by auto
  next
    case False
    then have "\<not> subed_to sv (conn_inner_id (inner c)) name" by (auto simp: subed_to_def contains_def split: option.splits)
    with False f show ?thesis by simp
  qed
  ultimately have "subs c' (touch_session e c h\<lparr>server := Some sv'\<rparr>) name \<longleftrightarrow> subs c h name \<and> name \<in> get_service_name (video_source c) ` set ds"
    using i assms(3) by (simp add: subs_def)
  with step show ?thesis by blast
qed

text \<open>A peer that watches two displays gives the second one up and loses the first.\<close>

definition example_watching :: "Connection \<times> host" where
  "example_watching = (example_conn\<lparr>authorized := True\<rparr>,
     example_host\<lparr>server := Some (subscribe ''monitor1'' (inner example_conn) True (subscribe ''monitor0'' (inner example_conn) True
       (add_service (video_service_new Monitor 1) (add_service (video_service_new Monitor 0) (Server_new 7 False True)))))\<rparr>)"

theorem sub_drops_the_others_witness:
  "subs (fst example_watching) (snd example_watching) ''monitor0'' \<and> subs (fst example_watching) (snd example_watching) ''monitor1'' \<and>
   (\<exists>c' h'. conn_step example_conn_env (FromPeer (Some (PAuthed (AMisc (CaptureDisplays [] [1] []))))) (fst example_watching) (snd example_watching)
        = Some (True, c', h') \<and> \<not> subs c' h' ''monitor0'')"
proof -
  obtain sv where sv: "server (snd example_watching) = Some sv" by (simp add: example_watching_def)
  have wf: "server_wf (subscribe n c b (add_service (video_service_new Monitor 1) (add_service (video_service_new Monitor 0) (Server_new 7 False True))))" for n c b
    using subscribe_facts add_service_wf Server_new_wf video_service_new_wf by simp
  have "server_wf sv" using sv subscribe_facts [OF wf] by (auto simp: example_watching_def)
  moreover have a: "authorized (fst example_watching)" "port_forward_socket (fst example_watching) = None"
    "is_video_service_name ''monitor0''" "''monitor0'' \<notin> get_service_name (video_source (fst example_watching)) ` set [1]" by code_simp+
  ultimately have "\<exists>c' h'. conn_step example_conn_env (FromPeer (Some (PAuthed (AMisc (CaptureDisplays [] [1] []))))) (fst example_watching) (snd example_watching)
        = Some (True, c', h') \<and> \<not> subs c' h' ''monitor0''"
    using sub_drops_the_others [OF a(1,2) sv, of "[1]" "''monitor0''" example_conn_env] by auto
  moreover have "case server (snd example_watching) of Some sv \<Rightarrow> subed_to sv (conn_inner_id (inner (fst example_watching))) ''monitor0''
      \<and> subed_to sv (conn_inner_id (inner (fst example_watching))) ''monitor1'' | None \<Rightarrow> False" by code_simp
  ultimately show ?thesis by (auto simp: subs_def split: option.splits)
qed

end
