(* ===== verification/Step_Totality.thy ===== *)
theory Step_Totality
  imports Access
begin

text \<open>
  Every turn of the loop of an incoming connection is handled to the end (\<open>runs\<close>), the invariant of
  the video QoS being kept, and the credentials that should let a peer in do so.
\<close>

section \<open>No step panics on the arithmetic of the video QoS\<close>

named_theorems qos_kept

lemma log_call_qos [qos_kept]: "video_qos (log_call x h) = video_qos h"
  by (simp add: log_call_def)

lemma with_server_qos [qos_kept]: "video_qos (with_server f h) = video_qos h" "video_qos (subscribe_conn n c b h) = video_qos h"
  by (simp_all add: with_server_def subscribe_conn_def)

lemma session_qos [qos_kept]:
  "video_qos (update_or_insert_session e key p t h) = video_qos h" "video_qos (set_session_2fa e key h) = video_qos h"
  "video_qos (check_remove_session i key h) = video_qos h" "video_qos (retain_sessions e h) = video_qos h"
  "video_qos (add_trusted_device e d h) = video_qos h"
  by (simp_all add: update_or_insert_session_def set_session_2fa_def check_remove_session_def retain_sessions_def
      add_trusted_device_def set_trusted_devices_def new_cell_def Let_def split: option.splits)

lemma recent_qos [qos_kept]: "video_qos (snd (is_recent_session e second c h)) = video_qos h"
  by (simp add: is_recent_session_def Let_def qos_kept split: option.splits)

lemma validate_password_qos [qos_kept]: "video_qos (snd (validate_password e c h)) = video_qos h"
  by (simp add: validate_password_def qos_kept)

lemma on_close_qos [qos_kept]: "video_qos (snd (on_close b c h)) = video_qos h"
  by (simp add: on_close_def Let_def qos_kept)

lemma login_response_qos [qos_kept]: "video_qos (snd (snd (snd (login_response e p c h)))) = video_qos h"
  by (auto simp: login_response_def on_remote_authorized_def update_codec_on_login_def Let_def qos_kept split: sum.splits)

lemma after_login_qos [qos_kept]: "video_qos (snd (after_login e b c h)) = video_qos h"
  by (auto simp: after_login_def try_sub_camera_displays_def try_sub_monitor_services_def Let_def qos_kept split: option.splits)

lemma set_flag_qos:
  assumes "\<And>b s. video_qos (snd (f b s)) = video_qos (snd s)"
  shows "video_qos (snd (set_flag x f s)) = video_qos (snd s)"
  using assms by (cases "(x, f, s)" rule: set_flag.cases) simp_all

lemma apply_flags_qos [qos_kept]: "video_qos (snd (apply_flags e m s)) = video_qos (snd s)"
proof -
  have b: "video_qos (snd (block_input_options e m s)) = video_qos (snd s)" for s
    by (auto simp: block_input_options_def split: prod.splits option.splits BoolOption.splits)
  have w: "video_qos (snd (show_cursor_option e b s)) = video_qos (snd s)" for b s
    by (auto simp: show_cursor_option_def Let_def qos_kept split: prod.splits)
  show ?thesis
    unfolding apply_flags_def Let_def
    by (subst set_flag_qos b snd_apfst, simp add: w set_audio_subscription_def qos_kept split: prod.splits)+ simp
qed

lemma switch_display_qos [qos_kept]: "video_qos (snd (switch_display_to e i c h)) = video_qos h"
  by (simp add: switch_display_to_def Let_def qos_kept)

lemma capture_qos [qos_kept]: "video_qos (snd (conn_capture_displays as bs ss c h)) = video_qos h"
  by (auto simp: conn_capture_displays_def Let_def split: option.splits)

lemma voice_qos [qos_kept]: "video_qos (snd (handle_voice_call b c h)) = video_qos h" "video_qos (snd (close_voice_call c h)) = video_qos h"
  by (auto simp: handle_voice_call_def close_voice_call_def Let_def qos_kept split: option.splits)

lemma resolution_qos [qos_kept]: "video_qos (change_resolution e d w1 w2 c h) = video_qos h" "video_qos (refresh_video_display d c h) = video_qos h"
  by (auto simp: change_resolution_def refresh_video_display_def qos_kept split: option.splits)

lemma handle_switch_display_qos [qos_kept]: "video_qos (snd (handle_switch_display e i w1 w2 c h)) = video_qos h"
  by (auto simp: handle_switch_display_def Let_def case_prod_unfold qos_kept split: option.splits)

lemma input_qos [qos_kept]:
  "video_qos (snd (on_mouse_event e m c h)) = video_qos h" "video_qos (snd (on_pointer_event e p c h)) = video_qos h"
  "video_qos (snd (on_key_event e k c h)) = video_qos h"
  by (auto simp: on_mouse_event_def on_pointer_event_def on_key_event_def Let_def)

lemma switch_permission_qos [qos_kept]: "video_qos (snd (switch_permission e n b c h)) = video_qos h"
  by (auto simp: switch_permission_def set_audio_subscription_def Let_def qos_kept)

text \<open>A handler that returns, with the state of the video QoS in order.\<close>

definition runs :: "(bool \<times> Connection \<times> host) option \<Rightarrow> bool" where
  "runs x \<longleftrightarrow> (\<exists>k c h. x = Some (k, c, h) \<and> qos_ok (video_qos h))"

lemma runs_Some [simp]: "runs (Some (k, s)) \<longleftrightarrow> qos_ok (video_qos (snd s))"
  by (cases s) (simp add: runs_def)

lemma runs_map: "\<lbrakk>runs x; \<And>k c h. qos_ok (video_qos h) \<Longrightarrow> qos_ok (video_qos (snd (snd (f (k, c, h)))))\<rbrakk> \<Longrightarrow> runs (map_option f x)"
  unfolding runs_def by (metis option.map(2) prod.collapse)

lemma qos_call_runs:
  assumes "qos_ok (video_qos h)" "\<And>q. qos_ok q \<Longrightarrow> \<exists>q'. f q = Some q' \<and> qos_ok q'"
  shows "\<exists>h'. qos_call f h = Some h' \<and> qos_ok (video_qos h')"
  using assms by (fastforce simp: qos_call_def)

lemma update_options_runs:
  assumes "qos_ok (video_qos h)"
  shows "\<exists>c' h'. update_options e m c h = Some (c', h') \<and> qos_ok (video_qos h')"
proof -
  obtain h1 where h1: "(if option_quality m > 0 then qos_call (user_image_quality (time_ms e) (conn_inner_id (inner c)) (option_quality m)) h
      else Some h) = Some h1" "qos_ok (video_qos h1)"
    using qos_call_runs [OF assms, where f = "user_image_quality (time_ms e) (conn_inner_id (inner c)) (option_quality m)"]
      user_image_quality_ok assms by (cases "option_quality m > 0") auto
  define h2 where "h2 = (if om_custom_fps m > 0
      then h1\<lparr>video_qos := user_custom_fps (conn_inner_id (inner c)) (nat (om_custom_fps m)) (video_qos h1)\<rparr> else h1)"
  define h3 where "h3 = (case om_supported_decoding m of Some q \<Rightarrow> log_call (EncoderUpdate (conn_inner_id (inner c)) q) h2 | None \<Rightarrow> h2)"
  have "qos_ok (video_qos h2)" using h1(2) user_set_fps_ok(1) by (simp add: h2_def)
  then have "qos_ok (video_qos h3)" by (simp add: h3_def qos_kept split: option.splits)
  then have "qos_ok (video_qos (snd (apply_flags e m (c, h3))))" by (simp add: apply_flags_qos)
  moreover have "update_options e m c h = Some (apply_flags e m (c, h3))"
    unfolding update_options_def Let_def h1(1) h2_def h3_def by simp
  ultimately show ?thesis by (metis prod.collapse)
qed

lemma logon_response_runs:
  assumes "qos_ok (video_qos h)"
  shows "\<exists>c' h'. logon_response e c h = Some (c', h') \<and> qos_ok (video_qos h')"
proof -
  define p where "p = (base_peer_info e)\<lparr>pi_username := (if file_transfer c \<noteq> None \<and> is_prelogin e then '''' else active_username e),
      pi_terminal_feature := True\<rparr>"
  obtain b r c1 h1 where lr: "login_response e p c h = (b, r, c1, h1)" by (metis prod_cases4)
  have h1: "qos_ok (video_qos h1)" using login_response_qos [of e p c h] lr assms by simp
  let ?c = "conn_send_msg r c1"
  obtain c2 h2 where o: "(case options_in_login ?c of Some m \<Rightarrow> update_options e m (?c\<lparr>options_in_login := None\<rparr>) h1
      | None \<Rightarrow> Some (?c, h1)) = Some (c2, h2)" "qos_ok (video_qos h2)"
    using update_options_runs [OF h1] h1 by (cases "options_in_login ?c") (simp, fastforce)
  have "qos_ok (video_qos (snd (after_login e b c2 h2)))" using o(2) by (simp add: after_login_qos)
  moreover have "logon_response e c h = (if port_forward_socket c \<noteq> None then Some (conn_send_msg (LoginPeerInfo (base_peer_info e)) c, h)
      else if conn_is_remote c \<and> display_error e \<noteq> [] then Some (conn_send_msg (LoginError (display_error e) False) c, h)
      else Some (after_login e b c2 h2))"
    unfolding logon_response_def Let_def p_def [symmetric] lr prod.case o(1) bind.bind_lunit by simp
  ultimately show ?thesis using assms by (cases "after_login e b c2 h2") auto
qed

lemma logon_runs:
  assumes "qos_ok (video_qos h)"
  shows "runs (send_logon_response_and_keep_alive e c h)"
proof -
  obtain rec h1 where r: "(if require_2fa c \<noteq> None then is_recent_session e True c h else (False, h)) = (rec, h1)"
    by (metis surj_pair)
  have h1: "qos_ok (video_qos h1)" using r recent_qos [of e True c h] assms by (auto split: if_splits)
  obtain k c1 where con: "connect_port_forward_if_needed e c = (k, c1)" by (cases "connect_port_forward_if_needed e c")
  obtain c2 h2 where m: "mark_authorized e c1 h1 = (c2, h2)" by (cases "mark_authorized e c1 h1")
  have "qos_ok (video_qos h2)"
    using m h1 by (auto simp: mark_authorized_def AuthedConnID_new_def check_wake_lock_def Let_def log_call_def
        intro!: on_connection_open_ok split: if_splits)
  from logon_response_runs [OF this] obtain c3 h3 where l: "logon_response e c2 h2 = Some (c3, h3)" "qos_ok (video_qos h3)" by blast
  show ?thesis
    using r h1 con m assms l
    by (cases k) (auto simp: send_logon_response_and_keep_alive_def runs_def Let_def)
qed

lemma logon_and_start_cm_runs: "qos_ok (video_qos h) \<Longrightarrow> runs (logon_and_start_cm e i n c h)"
  unfolding logon_and_start_cm_def by (rule runs_map [OF logon_runs]) auto

lemma password_login_runs:
  assumes "qos_ok (video_qos h)"
  shows "runs (password_login e err l c h)"
proof -
  have "qos_ok (video_qos (snd (validate_password e c h)))" using assms by (simp add: qos_kept)
  then show ?thesis using assms logon_and_start_cm_runs
    by (auto simp: password_login_def Let_def split: prod.splits option.splits bool.splits)
qed

lemma on_login_request_runs:
  assumes "qos_ok (video_qos h)"
  shows "runs (on_login_request e l c h)"
proof -
  have "qos_ok (video_qos (snd (is_recent_session e False c h)))" for c using assms by (simp add: qos_kept)
  then show ?thesis using assms logon_and_start_cm_runs password_login_runs
    by (simp add: on_login_request_def Let_def case_prod_unfold split: bool.splits)
qed

lemma on_auth_2fa_runs:
  assumes "qos_ok (video_qos h)"
  shows "runs (on_auth_2fa e code hwid c h)"
proof -
  have *: "runs (map_option (\<lambda>(keep, c, h).
        if \<not> keep then (False, c, h)
        else (True, c, if b1 then add_trusted_device e (d c) h else h)) (logon_and_start_cm e i n c1 (set_session_2fa e key (h\<lparr>tfa_failures := t\<rparr>))))"
    for b1 d i n c1 key t
    by (rule runs_map [OF logon_and_start_cm_runs]) (auto simp: assms qos_kept)
  show ?thesis using assms *
    by (auto simp: on_auth_2fa_def Let_def split: prod.splits option.splits bool.splits)
qed

lemma on_test_delay_runs:
  assumes "qos_ok (video_qos h)"
  shows "runs (on_test_delay e b t c h)"
proof (cases "last_test_delay c")
  case None
  with assms show ?thesis by (simp add: on_test_delay_def)
next
  case (Some tm)
  from qos_call_runs [OF assms, where f = "user_network_delay True (now e) (conn_inner_id (inner c)) ((now e - tm) mod 2 ^ 32)"]
    user_network_delay_ok obtain h1 where
    "qos_call (user_network_delay True (now e) (conn_inner_id (inner c)) ((now e - tm) mod 2 ^ 32)) h = Some h1" "qos_ok (video_qos h1)"
    by blast
  with Some assms show ?thesis by (simp add: on_test_delay_def Let_def)
qed

lemma on_switch_sides_runs:
  assumes "qos_ok (video_qos h)"
  shows "runs (on_switch_sides_response e lo raw c h)"
proof -
  have *: "runs (map_option (\<lambda>(keep, c, h). if keep then (True, c\<lparr>cm_ipc_started := True\<rparr>, h) else (False, c, h))
      (logon_and_start_cm e i n c1 (h\<lparr>switch_sides_uuid := t\<rparr>)))" for i n c1 t
    by (rule runs_map [OF logon_and_start_cm_runs]) (auto simp: assms)
  show ?thesis using assms *
    by (auto simp: on_switch_sides_response_def Let_def split: option.splits prod.splits)
qed

lemma test_delay_timer_runs:
  assumes "qos_ok (video_qos h)"
  shows "runs (test_delay_timer e l c h)"
proof -
  have q: "runs (map_option (\<lambda>h. (True, c1, h)) (qos_call (user_delay_response_elapsed (now e) i t) h))" for c1 i t
    using qos_call_runs [OF assms, where f = "user_delay_response_elapsed (now e) i t"] user_delay_response_elapsed_ok by fastforce
  show ?thesis using assms q
    by (simp add: test_delay_timer_def Let_def case_prod_unfold qos_kept split: option.splits)
qed

lemma send_close_qos [qos_kept]: "video_qos (snd (send_close_reason_no_retry r c h)) = video_qos h"
  by (simp add: send_close_reason_no_retry_def qos_kept)

lemma on_cm_event_runs:
  assumes "qos_ok (video_qos h)"
  shows "runs (on_cm_event e ev c h)"
proof (cases ev)
  case Authorize
  then show ?thesis using runs_map [OF logon_runs [OF assms]] by fastforce
qed (use assms in \<open>simp_all add: Let_def case_prod_unfold qos_kept\<close>)

text \<open>The one request whose handler can panic: a confirmation with a file number the job does not have.\<close>

definition confirm_panics :: "peer_msg \<Rightarrow> Connection \<Rightarrow> host \<Rightarrow> bool" where
  "confirm_panics m c h \<longleftrightarrow>
     (\<exists>r job. m = PAuthed (AFileAction (FA_SendConfirm r)) \<and> authorized c \<and> port_forward_socket c = None
        \<and> file_transfer c \<noteq> None \<and> delayed_read_dir c = None
        \<and> get_job (req_id r) (conn_read_jobs c) = Some job \<and> confirm r job (host_disk h) = None)"

lemma on_file_action_runs:
  assumes "qos_ok (video_qos h)" "authorized c" "port_forward_socket c = None"
  shows "runs (map_option keep (on_file_action e fa c h)) \<longleftrightarrow> \<not> confirm_panics (PAuthed (AFileAction fa)) c h"
proof (cases "\<exists>r. fa = FA_SendConfirm r")
  case True
  then obtain r where r: "fa = FA_SendConfirm r" by blast
  show ?thesis
  proof (cases "file_transfer c = None \<or> delayed_read_dir c \<noteq> None \<or> get_job (req_id r) (conn_read_jobs c) = None")
    case True
    with assms r show ?thesis by (auto simp: on_file_action_def confirm_panics_def keep_def)
  next
    case False
    then obtain job where "get_job (req_id r) (conn_read_jobs c) = Some job" by blast
    with False assms r show ?thesis
      by (cases "confirm r job (host_disk h)") (auto simp: on_file_action_def confirm_panics_def keep_def runs_def)
  qed
next
  case False
  then have "\<not> confirm_panics (PAuthed (AFileAction fa)) c h" by (auto simp: confirm_panics_def)
  moreover have "runs (map_option keep (on_file_action e fa c h))"
    using False assms(1) by (cases fa) (simp_all add: on_file_action_def keep_def Let_def case_prod_unfold)
  ultimately show ?thesis by simp
qed

lemma on_misc_runs:
  assumes "qos_ok (video_qos h)"
  shows "runs (on_misc e m c h)"
proof (cases m)
  case (MiscOption om)
  with update_options_runs [OF assms, of e om c] show ?thesis by (auto simp: runs_def)
next
  case (AudioFormat f)
  with assms show ?thesis by (simp add: qos_kept)
next
  case (SwitchSidesRequest raw)
  with assms show ?thesis by (simp add: Let_def case_prod_unfold qos_kept split: option.splits)
qed (use assms user_set_fps_ok in \<open>simp_all add: qos_kept\<close>)

lemma on_authed_message_runs:
  assumes "qos_ok (video_qos h)" "authorized c" "port_forward_socket c = None"
  shows "runs (on_authed_message e m c h) \<longleftrightarrow> \<not> confirm_panics (PAuthed m) c h"
proof (cases m)
  case (AFileAction fa)
  with on_file_action_runs [OF assms] show ?thesis by simp
next
  case (AMisc x)
  with on_misc_runs [OF assms(1)] show ?thesis by (simp add: confirm_panics_def)
qed (use assms(1) in \<open>auto simp: confirm_panics_def keep_def on_voice_call_request_def on_screenshot_request_def qos_kept split: option.splits\<close>)

lemma on_message_runs:
  assumes "qos_ok (video_qos h)"
  shows "runs (on_message e m c h) \<longleftrightarrow> \<not> confirm_panics m c h"
proof (cases m)
  case (PAuthed a)
  show ?thesis
  proof (cases "\<not> authorized c \<or> port_forward_socket c \<noteq> None")
    case True
    with PAuthed assms show ?thesis by (auto simp: confirm_panics_def)
  next
    case False
    with PAuthed on_authed_message_runs [OF assms] show ?thesis by simp
  qed
next
  case (PCloseReason s)
  with assms show ?thesis by (simp add: confirm_panics_def on_close_reason_def Let_def case_prod_unfold qos_kept)
qed (use on_login_request_runs [OF assms] on_auth_2fa_runs [OF assms] on_test_delay_runs [OF assms] on_switch_sides_runs [OF assms]
     in \<open>simp_all add: confirm_panics_def\<close>)

lemma wake_lock_qos [qos_kept]: "video_qos (check_wake_lock_on_setting_changed e h) = video_qos h"
  by (simp add: check_wake_lock_on_setting_changed_def check_wake_lock_def Let_def qos_kept)

lemma loop_qos [qos_kept]:
  "video_qos (snd (snd (close_conn b c h))) = video_qos h" "video_qos (snd (snd (pass_on ok m c h))) = video_qos h"
  by (simp_all add: close_conn_def pass_on_def qos_kept)

lemma loop_runs:
  assumes "qos_ok (video_qos h)"
  shows "runs (Some (second_timer e c h))" "runs (Some (close_conn True c h))" "runs (Some (file_timer e reads brk c h))"
    "runs (Some (web_console conns c h))" "runs (Some (on_video_message d m ok c h))" "runs (Some (on_service_message e l sm ok c h))"
proof -
  have r: "runs (Some x) \<longleftrightarrow> qos_ok (video_qos (snd (snd x)))" for x by (cases x) simp
  show "runs (Some (second_timer e c h))" "runs (Some (close_conn True c h))" "runs (Some (web_console conns c h))"
    "runs (Some (on_video_message d m ok c h))"
    using assms by (auto simp: r second_timer_def web_console_def on_video_message_def Let_def case_prod_unfold qos_kept split: option.splits)
  show "runs (Some (file_timer e reads brk c h))"
    using assms by (auto simp: r file_timer_def Let_def case_prod_unfold qos_kept split: sum.splits)
  show "runs (Some (on_service_message e l sm ok c h))"
    using assms by (cases sm) (auto simp: r Let_def case_prod_unfold qos_kept split: option.splits)
qed

lemma conn_step_runs:
  assumes "qos_ok (video_qos h)"
  shows "runs (conn_step e ev c h) \<longleftrightarrow> \<not> (\<exists>m. ev = FromPeer (Some m) \<and> confirm_panics m c (touch_session e c h))"
proof (cases "(e, ev, c, h)" rule: conn_step.cases)
  case (2 e1 m c1 h1)
  have "runs (conn_step e (FromPeer (Some m)) c h) = runs (on_message e m c (touch_session e c h))"
    by (auto simp: runs_def split: prod.splits)
  with 2 on_message_runs [of "touch_session e c h" e m c] assms show ?thesis by simp
qed (use assms on_cm_event_runs [OF assms] test_delay_timer_runs [OF assms] loop_runs [OF assms] in auto)

section \<open>The right credentials let in\<close>

definition target_reachable :: "host_env \<Rightarrow> LoginRequest \<Rightarrow> bool" where
  "target_reachable e l \<longleftrightarrow>
     (\<forall>host port. lr_union l = Some (LU_PortForward host port) \<longrightarrow> tcp_connect e (fst (normalize_port_forward_target host port)))"

lemma connect_reachable: "target_reachable e (conn_lr c) \<Longrightarrow> fst (connect_port_forward_if_needed e c)"
  by (auto simp: connect_port_forward_if_needed_def target_reachable_def Let_def case_prod_unfold split: option.splits login_union.splits)

lemma logon_lets_in:
  assumes "qos_ok (video_qos h)" "require_2fa c = None" "target_reachable e (conn_lr c)"
  shows "\<exists>c' h'. send_logon_response_and_keep_alive e c h = Some (True, c', h') \<and> authorized c'"
proof (cases "authorized c")
  case True
  then show ?thesis by (simp add: send_logon_response_and_keep_alive_def)
next
  case False
  from logon_runs [OF assms(1), of e c] obtain k c' h' where r: "send_logon_response_and_keep_alive e c h = Some (k, c', h')"
    by (auto simp: runs_def)
  obtain c1 where con: "connect_port_forward_if_needed e c = (True, c1)"
    using connect_reachable [OF assms(3)] by (cases "connect_port_forward_if_needed e c") simp
  obtain c2 h2 where m: "mark_authorized e c1 h = (c2, h2)" by (cases "mark_authorized e c1 h")
  then have a: "authorized c2" by (auto simp: mark_authorized_def Let_def split: prod.splits)
  have "k \<and> logon_response e c2 h2 = Some (c', h')"
    using r False assms(2) con m by (auto simp: send_logon_response_and_keep_alive_def)
  with r logon_response_same a show ?thesis by (auto simp: same_login_def)
qed

lemma logon_and_start_cm_lets_in:
  assumes "qos_ok (video_qos h)" "require_2fa c = None" "target_reachable e (conn_lr c)"
  shows "\<exists>c' h'. logon_and_start_cm e i n c h = Some (True, c', h') \<and> authorized c'"
proof -
  from logon_lets_in [OF assms] obtain c1 h1 where "send_logon_response_and_keep_alive e c h = Some (True, c1, h1)" "authorized c1" by blast
  then have "logon_and_start_cm e i n c h = Some (True, try_start_cm i n True c1, h1)" by (simp add: logon_and_start_cm_def)
  with \<open>authorized c1\<close> show ?thesis by simp
qed

lemma request_kind_fst: "control_permissions c' = control_permissions c \<Longrightarrow> fst (request_kind e l c') = fst (request_kind e l c)"
  by (simp add: request_kind_def Let_def split: option.splits login_union.splits)

lemma handle_login_none: "require_2fa c = None \<Longrightarrow> require_2fa (handle_login_request_without_validation e l c h) = None"
  using handle_login_2fa_kept [of e l c h] by auto

lemma handle_login_control: "control_permissions (handle_login_request_without_validation e l c h) = control_permissions c"
  by (auto simp: handle_login_request_without_validation_def Let_def split: option.splits)

lemma validate_password_right:
  assumes "pw \<noteq> ''''" "temporary_enabled (cfg e) \<and> pw = temporary_password h \<or> permanent_enabled (cfg e) \<and> pw = permanent_password e"
    "lr_password (conn_lr c) = sha256 e (sha256 e (pw @ hash_salt c) @ hash_challenge c)"
  shows "fst (validate_password e c h)"
  using assms by (auto simp: validate_password_def validate_one_password_def)

lemma password_login_lets_in:
  assumes "qos_ok (video_qos h)" "require_2fa c = None" "target_reachable e (conn_lr c)"
    "snd (check_failure (minute_of (nat (time_ms e))) (conn_ip c) (login_failures h)) = None"
    "fst (validate_password e c h)"
  shows "\<exists>c' h'. password_login e '''' l c h = Some (True, c', h') \<and> authorized c'"
proof -
  have "qos_ok (video_qos (snd (validate_password e c h)\<lparr>login_failures := t\<rparr>))" for t
    using assms(1) by (simp add: qos_kept)
  from logon_and_start_cm_lets_in [OF this assms(2,3)] show ?thesis
    using assms(4,5) by (simp add: password_login_def case_prod_unfold Let_def split: prod.splits option.splits)
qed

lemma login_request_lets_in:
  assumes "qos_ok (video_qos h)" "require_2fa c = None" "target_reachable e l" "fst (request_kind e l c)"
    "desktop_error e (lr_os_login l) = ''''" "lr_username l = config_id e" "\<not> needs_click e h"
    "snd (check_failure (minute_of (nat (time_ms e))) (conn_ip c) (login_failures h)) = None"
    "pw \<noteq> ''''" "temporary_enabled (cfg e) \<and> pw = temporary_password h \<or> permanent_enabled (cfg e) \<and> pw = permanent_password e"
    "lr_password l = sha256 e (sha256 e (pw @ hash_salt c) @ hash_challenge c)" "lr_password l \<noteq> ''''"
  shows "\<exists>c' h'. on_login_request e l c h = Some (True, c', h') \<and> authorized c'"
proof -
  let ?c0 = "handle_login_request_without_validation e l c h"
  show ?thesis
  proof (cases "authorized ?c0")
    case True
    then show ?thesis by (simp add: on_login_request_def Let_def)
  next
    case False
    obtain ck where rk: "request_kind e l ?c0 = (True, ck)"
      using request_kind_fst [OF handle_login_control] assms(4) by (cases "request_kind e l ?c0") (metis fst_conv)
    define c1 where "c1 = ck\<lparr>cm_ipc_started := True\<rparr>"
    have c1: "same_login c c1" "conn_lr c1 = l" "require_2fa c1 = None"
      using request_kind_same [OF rk] handle_login_same [of c e l h] handle_login_lr [of e l c h] handle_login_none [OF assms(2)]
      by (simp_all add: c1_def same_login_def)
    obtain rec h1 where r: "is_recent_session e False c1 h = (rec, h1)" by (cases "is_recent_session e False c1 h")
    have h1: "qos_ok (video_qos h1)" using recent_qos [of e False c1 h] r assms(1) by simp
    have f: "login_failures h1 = login_failures h" "temporary_password h1 = temporary_password h"
      using r by (auto simp: is_recent_session_def retain_sessions_def Let_def split: option.splits)
    have "on_login_request e l c h =
        (if rec then logon_and_start_cm e (lr_my_id l) (lr_my_name l) c1 h1 else password_login e '''' l c1 h1)"
      using False assms(5-7,12) by (simp add: on_login_request_def Let_def rk c1_def [symmetric] r)
    moreover have "fst (validate_password e c1 h1)"
      by (rule validate_password_right [of pw]) (use assms(9-11) c1 f in \<open>simp_all add: same_login_def\<close>)
    then have "\<exists>c' h'. password_login e '''' l c1 h1 = Some (True, c', h') \<and> authorized c'"
      using assms(3,8) c1 f by (intro password_login_lets_in [OF h1 c1(3)]) (simp_all add: same_login_def)
    ultimately show ?thesis
      using logon_and_start_cm_lets_in [OF h1 c1(3), of e "lr_my_id l" "lr_my_name l"] assms(3) c1(2) by simp
  qed
qed

lemma auth_2fa_lets_in:
  assumes "qos_ok (video_qos h)" "require_2fa c = Some totp" "totp_check e totp code = Some True" "target_reachable e (conn_lr c)"
    "snd (check_failure (minute_of (nat (time_ms e))) (conn_ip c) (tfa_failures h)) = None"
  shows "\<exists>c' h'. on_auth_2fa e code hwid c h = Some (True, c', h') \<and> authorized c'"
proof -
  obtain failure where cf: "check_failure (minute_of (nat (time_ms e))) (conn_ip c) (tfa_failures h) = (failure, None)"
    using assms(5) by (cases "check_failure (minute_of (nat (time_ms e))) (conn_ip c) (tfa_failures h)") simp
  define h1 where "h1 = set_session_2fa e (session_key (c\<lparr>require_2fa := None\<rparr>))
      (h\<lparr>tfa_failures := update_failure (conn_ip c) failure True (tfa_failures h)\<rparr>)"
  have "qos_ok (video_qos h1)" using assms(1) by (simp add: h1_def qos_kept)
  from logon_and_start_cm_lets_in [OF this, of "c\<lparr>require_2fa := None\<rparr>" e "lr_my_id (conn_lr c)" "lr_my_name (conn_lr c)"] assms(4)
  obtain c2 h2 where
    "logon_and_start_cm e (lr_my_id (conn_lr c)) (lr_my_name (conn_lr c)) (c\<lparr>require_2fa := None\<rparr>) h1 = Some (True, c2, h2)" "authorized c2"
    by auto
  then show ?thesis using cf assms(2,3) by (simp add: on_auth_2fa_def Let_def h1_def [symmetric])
qed

section \<open>Properties\<close>

lemma touch_keeps [simp]:
  "needs_click e (touch_session e' c h) = needs_click e h" "login_failures (touch_session e c h) = login_failures h"
  "tfa_failures (touch_session e c h) = tfa_failures h" "host_disk (touch_session e c h) = host_disk h"
  by (simp_all add: needs_click_def touch_session_def split: option.splits)

text \<open>
  C1. A peer is let in by a credential only.  However the events of a new connection are mixed, and whatever
  the other connections and the system do to the host in between: when the connection ends up
  authorized, one event of the run was a credential while the peer was still outside.  A credential is a click of the local user, a
  login request whose answer matches an accepted password together with the second factor
  where one is asked for, a right two-factor code, or the answer to a switch of sides this host asked
  for less than ten seconds ago.
\<close>

theorem only_credentials_let_in:
  assumes "conn_run xs (snd (Connection_start e addr (Connection_new e i t v salt challenge totp cp))) = Some (b, c')" "authorized c'"
  shows "\<exists>ys e1 h ev zs c. xs = ys @ (e1, h, ev) # zs \<and>
    conn_run ys (snd (Connection_start e addr (Connection_new e i t v salt challenge totp cp))) = Some (True, c) \<and>
    \<not> authorized c \<and> credential e1 ev c h"
  using run_credential [OF assms(1) start_outside assms(2)] unfolding outside_def by blast

lemma example_login:
  "\<exists>c' h'. on_login_request example_conn_env example_request example_conn example_host = Some (True, c', h') \<and> authorized c'"
proof (rule login_request_lets_in [of _ _ _ _ "temporary_password example_host"])
  show "qos_ok (video_qos example_host)" by (simp add: example_host_def VideoQoS_default_ok)
  show "target_reachable example_conn_env example_request" by (simp add: target_reachable_def example_request_def LoginRequest_default_def)
qed (code_simp, code_simp, code_simp, code_simp, code_simp, code_simp, code_simp, code_simp, code_simp, code_simp)

theorem only_credentials_let_in_witness:
  "\<exists>b c'. conn_run [(example_conn_env, example_host, FromPeer (Some (PLoginRequest example_request)))] example_conn = Some (b, c') \<and>
    authorized c' \<and> credential example_conn_env (FromPeer (Some (PLoginRequest example_request))) example_conn example_host"
proof -
  let ?ev = "FromPeer (Some (PLoginRequest example_request))"
  obtain c1 h1 where "on_login_request example_conn_env example_request example_conn example_host = Some (True, c1, h1)" and a: "authorized c1"
    using example_login by blast
  moreover have "touch_session example_conn_env example_conn example_host = example_host" by code_simp
  ultimately obtain k where "conn_step example_conn_env ?ev example_conn example_host = Some (k, c1, h1)" by simp
  from conn_run_one [OF this] obtain b where r: "conn_run [(example_conn_env, example_host, ?ev)] example_conn = Some (b, c1)" by blast
  from only_credentials_let_in [OF r [unfolded example_conn_def] a] obtain ys e1 h ev zs c where
    x: "[(example_conn_env, example_host, ?ev)] = ys @ (e1, h, ev) # zs" "conn_run ys example_conn = Some (True, c)" "credential e1 ev c h"
    unfolding example_conn_def by blast
  from x(1) have "ys = []" "e1 = example_conn_env" "h = example_host" "ev = ?ev" by (cases ys; simp)+
  with x r a show ?thesis by auto
qed

text \<open>
  C20. The right password lets in.  When the desktop is ready, the request names this host, its kind is permitted, no click is
  asked for, the address is not blocked, no second factor is set up and the target of a tunnel can be reached, the
  turn of the loop that reads a login request with the answer to the temporary or the permanent password ends
  with the peer authorized.
\<close>

theorem right_password_lets_in:
  assumes "qos_ok (video_qos h)" "require_2fa c = None" "target_reachable e l" "fst (request_kind e l c)"
    "desktop_error e (lr_os_login l) = ''''" "lr_username l = config_id e" "\<not> needs_click e h"
    "snd (check_failure (minute_of (nat (time_ms e))) (conn_ip c) (login_failures h)) = None"
    "pw \<noteq> ''''" "temporary_enabled (cfg e) \<and> pw = temporary_password h \<or> permanent_enabled (cfg e) \<and> pw = permanent_password e"
    "lr_password l = sha256 e (sha256 e (pw @ hash_salt c) @ hash_challenge c)" "lr_password l \<noteq> ''''"
  shows "\<exists>k c' h'. conn_step e (FromPeer (Some (PLoginRequest l))) c h = Some (k, c', h') \<and> authorized c'"
proof -
  have "\<exists>c' h'. on_login_request e l c (touch_session e c h) = Some (True, c', h') \<and> authorized c'"
    by (rule login_request_lets_in [of _ _ _ _ pw]) (use assms in simp_all)
  then show ?thesis by auto
qed

theorem right_password_lets_in_witness:
  "\<exists>k c' h'. conn_step example_conn_env (FromPeer (Some (PLoginRequest example_request))) example_conn example_host = Some (k, c', h') \<and> authorized c'"
proof (rule right_password_lets_in [of _ _ _ _ "temporary_password example_host"])
  show "qos_ok (video_qos example_host)" by (simp add: example_host_def VideoQoS_default_ok)
  show "target_reachable example_conn_env example_request" by (simp add: target_reachable_def example_request_def LoginRequest_default_def)
qed (code_simp, code_simp, code_simp, code_simp, code_simp, code_simp, code_simp, code_simp, code_simp, code_simp)

text \<open>
  C39. A two-factor code alone lets in.  Where a second factor is set up, a peer that sends the right code is authorized whether
  or not it has ever sent a password.
\<close>

theorem two_factor_alone_lets_in:
  assumes "qos_ok (video_qos h)" "require_2fa c = Some totp" "totp_check e totp code = Some True" "target_reachable e (conn_lr c)"
    "snd (check_failure (minute_of (nat (time_ms e))) (conn_ip c) (tfa_failures h)) = None"
  shows "\<exists>k c' h'. conn_step e (FromPeer (Some (PAuth2fa code hwid))) c h = Some (k, c', h') \<and> authorized c'"
proof -
  have "\<exists>c' h'. on_auth_2fa e code hwid c (touch_session e c h) = Some (True, c', h') \<and> authorized c'"
    by (rule auth_2fa_lets_in [of _ _ totp]) (use assms in simp_all)
  then show ?thesis by auto
qed

text \<open>A host with a second factor, and a peer that has not sent any login request.\<close>

definition example_2fa_conn :: Connection where
  "example_2fa_conn = snd (Connection_start example_conn_env (IpV4 1) (Connection_new example_conn_env 5 50 51 ''salt'' ''chal'' (Some ''123456'') None))"

theorem two_factor_alone_lets_in_witness:
  "\<exists>k c' h'. conn_step example_conn_env (FromPeer (Some (PAuth2fa ''123456'' ''''))) example_2fa_conn example_host = Some (k, c', h') \<and> authorized c'"
proof (rule two_factor_alone_lets_in [of _ _ "''123456''"])
  show "qos_ok (video_qos example_host)" by (simp add: example_host_def VideoQoS_default_ok)
  have "lr_union (conn_lr example_2fa_conn) = None" by code_simp
  then show "target_reachable example_conn_env (conn_lr example_2fa_conn)" by (simp add: target_reachable_def)
qed (code_simp, code_simp, code_simp)



end
