(* ===== verification/Connection_End.thy ===== *)
theory Connection_End
  imports Access
begin

text \<open>
  What the end of a connection (the code after the loop of \<open>Connection::start\<close>) leaves of it.
\<close>

section \<open>A closed connection leaves nothing behind\<close>

lemma on_close_keeps:
  "inner (fst (on_close b c h)) = inner c" "authed_conn_id (fst (on_close b c h)) = authed_conn_id c"
  "control_permissions (fst (on_close b c h)) = control_permissions c" "closed (fst (on_close b c h))"
  "server (snd (on_close b c h)) = server h" "temporary_password (snd (on_close b c h)) = temporary_password h"
  "port_forward_socket c = None \<Longrightarrow> port_forward_socket (fst (on_close b c h)) = None"
  by (simp_all add: on_close_def send_to_cm_def log_call_def Let_def)

lemma forward_keeps:
  "inner (fst (forward_until_error c h)) = inner c" "authed_conn_id (fst (forward_until_error c h)) = authed_conn_id c"
  "control_permissions (fst (forward_until_error c h)) = control_permissions c" "port_forward_socket (fst (forward_until_error c h)) = None"
  "server (snd (forward_until_error c h)) = server h" "temporary_password (snd (forward_until_error c h)) = temporary_password h"
  by (simp_all add: forward_until_error_def case_prod_unfold Let_def on_close_keeps check_remove_session_def split: option.splits)

lemma AuthedConnID_drop_facts:
  "ac_conn_id ` set (authed_conns (AuthedConnID_drop e (i, ty) h)) = ac_conn_id ` set (authed_conns h) - {i}"
  "ty = Remote \<or> ty = ViewCamera \<Longrightarrow> hm_get (users (video_qos (AuthedConnID_drop e (i, ty) h))) i = None"
  "server (AuthedConnID_drop e a h) = server h" "temporary_password (AuthedConnID_drop e a h) = temporary_password h"
  by (auto simp: AuthedConnID_drop_def check_wake_lock_def log_call_def on_connection_close_def VideoQoS_default_def Let_def split: prod.splits)

lemma Connection_drop_keeps:
  "inner (fst (Connection_drop e c h)) = inner c" "control_permissions (fst (Connection_drop e c h)) = control_permissions c"
  "closed (fst (Connection_drop e c h)) = closed c" "port_forward_socket (fst (Connection_drop e c h)) = port_forward_socket c"
  "server (snd (Connection_drop e c h)) = server h" "temporary_password (snd (Connection_drop e c h)) = temporary_password h"
  by (auto simp: Connection_drop_def release_pressed_modifiers_def log_call_def AuthedConnID_drop_facts Let_def split: option.splits)

text \<open>
  C23. A connection that ends leaves nothing behind.  Afterwards the server has no subscription under its number and no
  connection either, the tables of living and of authorized connections and of permission bitmaps have no
  entry for it, the video QoS no longer counts it, its tunnel is closed, and if it had been authorized
  the temporary password is a fresh one.
\<close>

theorem connection_end_cleans:
  assumes "\<And>sv. server h = Some sv \<Longrightarrow> server_wf sv" "\<And>j ty. authed_conn_id c = Some (j, ty) \<Longrightarrow> j = conn_inner_id (inner c)"
    and "connection_end e c h = (c', h')" and i: "i = conn_inner_id (inner c)"
  shows "closed c' \<and> port_forward_socket c' = None \<and>
    (\<forall>sv' name. server h' = Some sv' \<longrightarrow> \<not> subed_to sv' i name \<and> hm_get (connections sv') i = None) \<and>
    i \<notin> set (alive_conns h') \<and>
    (control_permissions c \<noteq> None \<longrightarrow> i \<notin> fst ` set (control_permissions_array h')) \<and>
    (authed_conn_id c \<noteq> None \<longrightarrow> i \<notin> ac_conn_id ` set (authed_conns h')) \<and>
    (\<forall>ty. authed_conn_id c = Some (i, ty) \<and> (ty = Remote \<or> ty = ViewCamera) \<longrightarrow> hm_get (users (video_qos h')) i = None) \<and>
    (authorized c \<longrightarrow> temporary_password h' = fresh_temporary_password e)"
proof -
  define h1 where "h1 = (let h = log_call (NotifyVideoFrameFetched i) h
      in if authorized c then h\<lparr>temporary_password := fresh_temporary_password e\<rparr> else h)"
  define c2 h2 where "c2 = fst (forward_until_error c h1)" and "h2 = with_server (remove_connection (inner c)) (snd (forward_until_error c h1))"
  define c3 h3 where "c3 = fst (on_close True c2 h2)" and "h3 = snd (on_close True c2 h2)"
  define c4 h4 where "c4 = fst (Connection_drop e c3 h3)" and "h4 = snd (Connection_drop e c3 h3)"
  have fin: "c' = c4" "h' = ConnectionID_drop i (h4\<lparr>control_permissions_array :=
      ControlPermissionsID_drop i (control_permissions c4) (control_permissions_array h4)\<rparr>)"
    using assms(3) unfolding connection_end_def
    by (auto simp: i c4_def h4_def c3_def h3_def c2_def h2_def h1_def case_prod_unfold Let_def forward_keeps on_close_keeps Connection_drop_keeps)
  have inn: "control_permissions c4 = control_permissions c" "authed_conn_id c3 = authed_conn_id c"
    "closed c4" "port_forward_socket c4 = None"
    by (simp_all add: c4_def c3_def c2_def forward_keeps on_close_keeps Connection_drop_keeps)
  have sv: "server h' = map_option (remove_connection (inner c)) (server h)"
    by (simp add: fin ConnectionID_drop_def h4_def h3_def h2_def h1_def with_server_def forward_keeps on_close_keeps Connection_drop_keeps
        log_call_def Let_def)
  have pw: "temporary_password h' = (if authorized c then fresh_temporary_password e else temporary_password h)"
    by (simp add: fin ConnectionID_drop_def h4_def h3_def h2_def h1_def with_server_def forward_keeps on_close_keeps Connection_drop_keeps
        log_call_def Let_def)
  have s: "\<not> subed_to sv' i name \<and> hm_get (connections sv') i = None" if "server h' = Some sv'" for sv' name
  proof -
    from that sv obtain s0 where "server h = Some s0" "sv' = remove_connection (inner c) s0" by auto
    then show ?thesis using subed_to_remove_connection [OF assms(1)] i by (simp add: remove_connection_def Let_def)
  qed
  have d: "authed_conns h' = authed_conns h4" "video_qos h' = video_qos h4" "i \<notin> set (alive_conns h')"
    by (simp_all add: fin ConnectionID_drop_def)
  have a: "i \<notin> ac_conn_id ` set (authed_conns h4) \<and> (ty = Remote \<or> ty = ViewCamera \<longrightarrow> hm_get (users (video_qos h4)) i = None)"
    if authed: "authed_conn_id c = Some (j, ty)" for j ty
  proof -
    have j: "j = i" using assms(2) [OF authed] i by simp
    obtain h0 where "h4 = AuthedConnID_drop e (i, ty) h0"
      using authed unfolding h4_def Connection_drop_def release_pressed_modifiers_def j by (simp add: Let_def inn(2))
    then show ?thesis using AuthedConnID_drop_facts(1) [of e i ty h0] AuthedConnID_drop_facts(2) [of ty e i h0] by auto
  qed
  have p: "i \<notin> fst ` set (control_permissions_array h')" if "control_permissions c \<noteq> None"
    using that by (auto simp: fin ConnectionID_drop_def ControlPermissionsID_drop_def inn(1))
  from s d a p pw inn(3,4) show ?thesis by (auto simp: fin(1))
qed

theorem connection_end_cleans_witness:
  "temporary_password (snd (connection_end example_conn_env (example_conn\<lparr>authorized := True, authed_conn_id := Some (5, Remote)\<rparr>) example_host)) = ''new''"
proof -
  let ?c = "example_conn\<lparr>authorized := True, authed_conn_id := Some (5, Remote)\<rparr>"
  obtain c' h' where e: "connection_end example_conn_env ?c example_host = (c', h')" by (cases "connection_end example_conn_env ?c example_host")
  have i: "conn_inner_id (inner example_conn) = 5" by code_simp
  have "authorized ?c \<longrightarrow> temporary_password h' = fresh_temporary_password example_conn_env"
    using connection_end_cleans [OF _ _ e refl] Server_new_wf i by (simp add: example_host_def)
  with e show ?thesis by (simp add: example_conn_env_def)
qed

end
