(* ===== verification/Settings.thy ===== *)
theory Settings
  imports Passwords Rust_Maps "HOL-Library.Code_Target_Nat"
begin

text \<open>
  The settings the network side reads and writes (\<open>libs/hbb_common/src/config.rs\<close>): options with
  overwriting and default values, the identity of the machine, which rendezvous servers have confirmed
  its key, and the latencies that choose the server.  The static variables of the source are the fields of
  \<open>settings\<close>, of the two configuration files the fields the modelled code touches; \<open>disk\<close> and \<open>disk2\<close> are the
  values last handed to \<open>store\<close>.  The encryption that \<open>store\<close> applies to the
  id and the passwords is in \<open>Passwords\<close>.
\<close>

section \<open>State\<close>

record Config =
  cfg_id :: string
  key_confirmed :: bool
  keys_confirmed :: "(string, bool) hashmap"
  key_pair :: "bytes \<times> bytes"

record Config2 =
  cfg_rendezvous_server :: string
  cfg_nat_type :: int
  cfg_serial :: int
  cfg_options :: "(string, string) hashmap"
  has_socks :: bool

record settings =
  CONFIG :: Config
  CONFIG2 :: Config2
  disk :: Config
  disk2 :: Config2
  ONLINE :: "(string, int) hashmap"
  KEY_PAIR :: "(bytes \<times> bytes) option"
  EXE_RENDEZVOUS_SERVER :: string
  PROD_RENDEZVOUS_SERVER :: string
  OVERWRITE_SETTINGS :: "(string, string) hashmap"
  DEFAULT_SETTINGS :: "(string, string) hashmap"
  BUILTIN_SETTINGS :: "(string, string) hashmap"
  HARD_SETTINGS :: "(string, string) hashmap"

text \<open>\<open>config.store()\<close> of a changed configuration, with the change already made.\<close>

definition put_config :: "Config \<Rightarrow> settings \<Rightarrow> settings" where
  "put_config c st = st\<lparr>CONFIG := c, disk := c\<rparr>"

definition put_config2 :: "Config2 \<Rightarrow> settings \<Rightarrow> settings" where
  "put_config2 c st = st\<lparr>CONFIG2 := c, disk2 := c\<rparr>"

section \<open>Options\<close>

definition get_or :: "(string, string) hashmap \<Rightarrow> (string, string) hashmap \<Rightarrow> (string, string) hashmap \<Rightarrow> string \<Rightarrow> string option" where
  "get_or a b c k =
     (case hm_get a k of Some v \<Rightarrow> Some v
      | None \<Rightarrow> (case hm_get b k of Some v \<Rightarrow> Some v | None \<Rightarrow> hm_get c k))"

definition is_option_can_save :: "(string, string) hashmap \<Rightarrow> string \<Rightarrow> (string, string) hashmap \<Rightarrow> string \<Rightarrow> bool" where
  "is_option_can_save overwrite k defaults v \<longleftrightarrow> \<not> (hm_get overwrite k \<noteq> None \<or> hm_get defaults k = Some v)"

definition unwrap_or_default :: "string option \<Rightarrow> string" where
  "unwrap_or_default r = (case r of Some v \<Rightarrow> v | None \<Rightarrow> '''')"

definition get_option :: "settings \<Rightarrow> option_fn" where
  "get_option st k =
     unwrap_or_default (get_or (OVERWRITE_SETTINGS st) (cfg_options (CONFIG2 st)) (DEFAULT_SETTINGS st) k)"

definition get_bool_option :: "settings \<Rightarrow> string \<Rightarrow> bool" where
  "get_bool_option st k = option2bool k (get_option st k)"

definition hm_extend :: "('k, 'v) hashmap \<Rightarrow> ('k, 'v) hashmap \<Rightarrow> ('k, 'v) hashmap" where
  "hm_extend m m2 = fold (\<lambda>(k, v). hm_insert k v) m2 m"

definition get_options :: "settings \<Rightarrow> (string, string) hashmap" where
  "get_options st = hm_extend (hm_extend (DEFAULT_SETTINGS st) (cfg_options (CONFIG2 st))) (OVERWRITE_SETTINGS st)"

definition purify_options :: "settings \<Rightarrow> (string, string) hashmap \<Rightarrow> (string, string) hashmap" where
  "purify_options st v = filter (\<lambda>(k, x). is_option_can_save (OVERWRITE_SETTINGS st) k (DEFAULT_SETTINGS st) x) v"

text \<open>\<open>==\<close> of two maps, whatever the order of their entries.\<close>

definition hm_equal :: "('k, 'v) hashmap \<Rightarrow> ('k, 'v) hashmap \<Rightarrow> bool" where
  "hm_equal a b = list_all (\<lambda>k. hm_get a k = hm_get b k) (hm_keys a @ hm_keys b)"

definition set_options :: "(string, string) hashmap \<Rightarrow> settings \<Rightarrow> settings" where
  "set_options v st =
     (let v = purify_options st v; config = CONFIG2 st in
      if hm_equal (cfg_options config) v then st
      else put_config2 (config\<lparr>cfg_options := v\<rparr>) st)"

definition set_option :: "string \<Rightarrow> string \<Rightarrow> settings \<Rightarrow> settings" where
  "set_option k v st =
     (let config = CONFIG2 st in
      if \<not> is_option_can_save (OVERWRITE_SETTINGS st) k (DEFAULT_SETTINGS st) v then
        (if hm_get (cfg_options config) k \<noteq> None
         then put_config2 (config\<lparr>cfg_options := hm_remove k (cfg_options config)\<rparr>) st
         else st)
      else
        let v2 = (if v = '''' then None else Some v) in
        if v2 \<noteq> hm_get (cfg_options config) k then
          put_config2 (config\<lparr>cfg_options :=
            (if v2 = None then hm_remove k (cfg_options config) else hm_insert k v (cfg_options config))\<rparr>) st
        else st)"

definition use_ws :: "settings \<Rightarrow> bool" where
  "use_ws st = option2bool ''allow-websocket'' (get_option st ''allow-websocket'')"

definition is_some_hard_opton :: "settings \<Rightarrow> string \<Rightarrow> bool" where
  "is_some_hard_opton st name \<longleftrightarrow> hm_get (HARD_SETTINGS st) name = Some ''Y''"

definition is_disable_tcp_listen :: "settings \<Rightarrow> bool" where
  "is_disable_tcp_listen st = is_some_hard_opton st ''disable-tcp-listen''"

datatype NetworkType = Direct | ProxySocks

definition get_network_type :: "settings \<Rightarrow> NetworkType" where
  "get_network_type st =
     (if hm_get (OVERWRITE_SETTINGS st) ''proxy-url'' \<noteq> None then ProxySocks
      else if has_socks (CONFIG2 st) then ProxySocks
      else if hm_get (DEFAULT_SETTINGS st) ''proxy-url'' \<noteq> None then ProxySocks
      else Direct)"

definition is_proxy :: "settings \<Rightarrow> bool" where
  "is_proxy st \<longleftrightarrow> get_network_type st \<noteq> Direct"

definition no_register_device :: "settings \<Rightarrow> bool" where
  "no_register_device st \<longleftrightarrow> hm_get (BUILTIN_SETTINGS st) ''register-device'' = Some ''N''"

section \<open>Identity\<close>

text \<open>
  \<open>hostname\<close> is the answer of \<open>whoami\<close>, \<open>mac\<close> that of \<open>mac_address\<close>; \<open>r\<close> is the number drawn from
  \<open>1000000000..2000000000\<close>.
\<close>

record machine =
  hostname :: "string option"
  mac_address :: "bytes option"

definition set_id :: "string \<Rightarrow> settings \<Rightarrow> settings" where
  "set_id i st = (if i = cfg_id (CONFIG st) then st else put_config ((CONFIG st)\<lparr>cfg_id := i\<rparr>) st)"

definition get_auto_id :: "machine \<Rightarrow> string option" where
  "get_auto_id m =
     (case mac_address m of
        Some ma \<Rightarrow>
          (let i = fold (\<lambda>x i. push_bit 8 i OR ucast x) (drop 2 ma) (0 :: u32) AND 0x1FFFFFFF
           in Some (nat_to_string (unat i)))
      | None \<Rightarrow> None)"

definition gen_id :: "machine \<Rightarrow> settings \<Rightarrow> string option" where
  "gen_id m st =
     (let hostname_as_id = (case hm_get (BUILTIN_SETTINGS st) ''allow-hostname-as-id'' of
                              Some v \<Rightarrow> option2bool ''allow-hostname-as-id'' v | None \<Rightarrow> False)
      in if hostname_as_id then
           (case hostname m of
              Some h \<Rightarrow> Some (map (\<lambda>c. if c = CHR '' '' then CHR ''-'' else c) h)
            | None \<Rightarrow> get_auto_id m)
         else get_auto_id m)"

definition get_id :: "machine \<Rightarrow> settings \<Rightarrow> string \<times> settings" where
  "get_id m st =
     (let i = cfg_id (CONFIG st) in
      if i = '''' then (case gen_id m st of Some tmp \<Rightarrow> (tmp, set_id tmp st) | None \<Rightarrow> (i, st))
      else (i, st))"

definition update_id :: "machine \<Rightarrow> nat \<Rightarrow> settings \<Rightarrow> settings" where
  "update_id m r st = (let (i, st) = get_id m st in set_id (nat_to_string r) st)"

section \<open>Confirmed keys\<close>

definition get_key_confirmed :: "settings \<Rightarrow> bool" where
  "get_key_confirmed st = key_confirmed (CONFIG st)"

definition set_key_confirmed :: "bool \<Rightarrow> settings \<Rightarrow> settings" where
  "set_key_confirmed v st =
     (let config = CONFIG st in
      if key_confirmed config = v then st
      else put_config (config\<lparr>key_confirmed := v, keys_confirmed := (if \<not> v then [] else keys_confirmed config)\<rparr>) st)"

definition get_host_key_confirmed :: "settings \<Rightarrow> string \<Rightarrow> bool" where
  "get_host_key_confirmed st host \<longleftrightarrow> hm_get (keys_confirmed (CONFIG st)) host = Some True"

definition set_host_key_confirmed :: "string \<Rightarrow> bool \<Rightarrow> settings \<Rightarrow> settings" where
  "set_host_key_confirmed host v st =
     (if get_host_key_confirmed st host = v then st
      else put_config ((CONFIG st)\<lparr>keys_confirmed := hm_insert host v (keys_confirmed (CONFIG st))\<rparr>) st)"

definition get_cached_pk :: "settings \<Rightarrow> bytes option" where
  "get_cached_pk st = map_option snd (KEY_PAIR st)"

text \<open>
  \<open>get_key_pair\<close> loads the file; \<open>fresh\<close> is the pair \<open>sign::gen_keypair\<close> makes, secret key first.  The thread
  that writes a fresh pair to \<open>CONFIG\<close> is run at once.
\<close>

definition get_key_pair :: "bytes \<times> bytes \<Rightarrow> settings \<Rightarrow> (bytes \<times> bytes) \<times> settings" where
  "get_key_pair fresh st =
     (case KEY_PAIR st of
        Some p \<Rightarrow> (p, st)
      | None \<Rightarrow>
          if fst (key_pair (disk st)) = [] then
            (fresh, put_config ((CONFIG st)\<lparr>key_pair := fresh\<rparr>) (st\<lparr>KEY_PAIR := Some fresh\<rparr>))
          else (key_pair (disk st), st\<lparr>KEY_PAIR := Some (key_pair (disk st))\<rparr>))"

section \<open>Rendezvous servers\<close>

definition RENDEZVOUS_PORT :: int where "RENDEZVOUS_PORT = 21116"
definition RELAY_PORT :: int where "RELAY_PORT = 21117"
definition SERIAL :: int where "SERIAL = 3"
definition RENDEZVOUS_SERVERS :: "string list" where "RENDEZVOUS_SERVERS = [''rs-ny.rustdesk.com'']"

definition set_nat_type :: "int \<Rightarrow> settings \<Rightarrow> settings" where
  "set_nat_type t st =
     (if t = cfg_nat_type (CONFIG2 st) then st else put_config2 ((CONFIG2 st)\<lparr>cfg_nat_type := t\<rparr>) st)"

definition get_nat_type :: "settings \<Rightarrow> int" where
  "get_nat_type st = cfg_nat_type (CONFIG2 st)"

definition set_serial :: "int \<Rightarrow> settings \<Rightarrow> settings" where
  "set_serial n st =
     (if n = cfg_serial (CONFIG2 st) then st else put_config2 ((CONFIG2 st)\<lparr>cfg_serial := n\<rparr>) st)"

definition get_serial :: "settings \<Rightarrow> int" where
  "get_serial st = max (cfg_serial (CONFIG2 st)) SERIAL"

definition get_rendezvous_servers :: "settings \<Rightarrow> string list" where
  "get_rendezvous_servers st =
     (if EXE_RENDEZVOUS_SERVER st \<noteq> '''' then [EXE_RENDEZVOUS_SERVER st]
      else if get_option st ''custom-rendezvous-server'' \<noteq> '''' then [get_option st ''custom-rendezvous-server'']
      else if PROD_RENDEZVOUS_SERVER st \<noteq> '''' then [PROD_RENDEZVOUS_SERVER st]
      else
        let ss = (if cfg_serial (CONFIG2 st) > SERIAL
                  then filter (\<lambda>x. CHR ''.'' \<in> set x) (split_char CHR '','' (get_option st ''rendezvous-servers''))
                  else [])
        in if ss \<noteq> [] then ss else RENDEZVOUS_SERVERS)"

definition get_rendezvous_server :: "settings \<Rightarrow> string" where
  "get_rendezvous_server st =
     (let s = EXE_RENDEZVOUS_SERVER st;
          s = (if s = '''' then get_option st ''custom-rendezvous-server'' else s);
          s = (if s = '''' then PROD_RENDEZVOUS_SERVER st else s);
          s = (if s = '''' then cfg_rendezvous_server (CONFIG2 st) else s);
          s = (if s = '''' then (case get_rendezvous_servers st of x # _ \<Rightarrow> x | [] \<Rightarrow> '''') else s)
      in if CHR '':'' \<notin> set s then s @ '':'' @ int_to_string RENDEZVOUS_PORT else s)"

definition get_custom_rendezvous_server :: "string \<Rightarrow> settings \<Rightarrow> string" where
  "get_custom_rendezvous_server custom st =
     (if custom \<noteq> '''' then custom
      else if PROD_RENDEZVOUS_SERVER st \<noteq> '''' then PROD_RENDEZVOUS_SERVER st
      else '''')"

definition using_public_server :: "settings \<Rightarrow> bool" where
  "using_public_server st \<longleftrightarrow> get_custom_rendezvous_server (get_option st ''custom-rendezvous-server'') st = ''''"

definition is_udp_disabled :: "settings \<Rightarrow> bool" where
  "is_udp_disabled st \<longleftrightarrow> get_option st ''disable-udp'' = ''Y''"

definition reset_online :: "settings \<Rightarrow> settings" where
  "reset_online st = st\<lparr>ONLINE := []\<rparr>"

definition i64_MAX :: int where "i64_MAX = 2 ^ 63 - 1"

text \<open>The loop of \<open>update_latency\<close> over the table of latencies.\<close>

fun fastest :: "(string \<times> int) list \<Rightarrow> string \<times> int \<Rightarrow> string \<times> int" where
  "fastest [] best = best"
| "fastest ((tmp_host, tmp_delay) # rest) (host, delay) =
     fastest rest (if tmp_delay > 0 \<and> tmp_delay < delay then (tmp_host, tmp_delay) else (host, delay))"

definition update_latency :: "string \<Rightarrow> int \<Rightarrow> settings \<Rightarrow> settings" where
  "update_latency host latency st =
     (let st = st\<lparr>ONLINE := hm_insert host latency (ONLINE st)\<rparr>;
          (host, _) = fastest (ONLINE st) ('''', i64_MAX)
      in if host \<noteq> '''' \<and> host \<noteq> cfg_rendezvous_server (CONFIG2 st)
         then put_config2 ((CONFIG2 st)\<lparr>cfg_rendezvous_server := host\<rparr>) st
         else st)"

definition get_online_state :: "settings \<Rightarrow> int" where
  "get_online_state st = (case hm_values (ONLINE st) of [] \<Rightarrow> 0 | v # vs \<Rightarrow> fold max vs v)"

section \<open>Reading back what was set\<close>

lemmas put_simps [simp] = put_config_def put_config2_def

text \<open>Entries that cannot be saved are removed, so an option is never stored next to its overwriting value or default.\<close>

lemma set_option_get:
  "get_option (set_option k v st) k' =
     (if k' \<noteq> k then get_option st k'
      else case hm_get (OVERWRITE_SETTINGS st) k of
             Some w \<Rightarrow> w
           | None \<Rightarrow> if v = '''' then unwrap_or_default (hm_get (DEFAULT_SETTINGS st) k) else v)"
  by (auto simp: set_option_def get_option_def get_or_def is_option_can_save_def unwrap_or_default_def Let_def
      split: option.splits if_splits)

lemma hm_get_extend:
  assumes "hm_ok m2"
  shows "hm_get (hm_extend m m2) k = (case hm_get m2 k of Some v \<Rightarrow> Some v | None \<Rightarrow> hm_get m k)"
proof -
  have "map_of (rev m2) = map_of m2"
    by (metis assms hm_ok_def distinct_rev map_of_inject_set rev_map set_rev)
  then have "map_of (rev m2) k = hm_get m2 k" by (simp add: hm_get_def)
  then show ?thesis by (simp add: hm_extend_def hm.get_fold_insert)
qed

lemma get_options_agree:
  assumes "hm_ok (cfg_options (CONFIG2 st))" "hm_ok (OVERWRITE_SETTINGS st)"
  shows "hm_get (get_options st) k = get_or (OVERWRITE_SETTINGS st) (cfg_options (CONFIG2 st)) (DEFAULT_SETTINGS st) k"
  using assms by (simp add: get_options_def get_or_def hm_get_extend split: option.splits)

lemma hm_get_purify:
  "hm_ok v \<Longrightarrow> hm_get (purify_options st v) k =
     (case hm_get v k of Some x \<Rightarrow> if is_option_can_save (OVERWRITE_SETTINGS st) k (DEFAULT_SETTINGS st) x then Some x else None
      | None \<Rightarrow> None)"
  unfolding purify_options_def
proof (induction v)
  case (Cons kv v)
  have "hm_ok v" "hm_get v (fst kv) = None" using Cons.prems
    by (auto simp: hm_ok_def hm_get_def map_of_eq_None_iff)
  with Cons.IH show ?case by (cases kv) (auto simp: hm_get_def split: option.splits)
qed (simp add: hm_get_def)

lemma hm_equal_get: "hm_equal a b \<Longrightarrow> hm_get a k = hm_get b k"
proof -
  assume "hm_equal a b"
  then have *: "k \<in> set (hm_keys a) \<union> set (hm_keys b) \<Longrightarrow> ?thesis"
    by (auto simp: hm_equal_def list_all_iff)
  then show ?thesis
    by (cases "k \<in> set (hm_keys a) \<union> set (hm_keys b)") (auto simp: keys_iff_get)
qed

lemma set_options_get:
  assumes "hm_ok v"
  shows "get_option (set_options v st) k = unwrap_or_default (get_or (OVERWRITE_SETTINGS st) v (DEFAULT_SETTINGS st) k)"
proof -
  let ?p = "purify_options st v"
  have "hm_get (cfg_options (CONFIG2 (set_options v st))) k = hm_get ?p k"
    using hm_equal_get [of "cfg_options (CONFIG2 st)" ?p k] by (simp add: set_options_def Let_def)
  moreover have "OVERWRITE_SETTINGS (set_options v st) = OVERWRITE_SETTINGS st"
    "DEFAULT_SETTINGS (set_options v st) = DEFAULT_SETTINGS st"
    by (simp_all add: set_options_def Let_def)
  ultimately show ?thesis using assms
    by (auto simp: get_option_def get_or_def hm_get_purify is_option_can_save_def split: option.splits)
qed

text \<open>
  C32. Options read back: after setting one option, reading it gives the overwriting value if there is
  one, else the value set, or the default when the empty text was set, and every other option is unchanged;
  after replacing all options each is read from the new table; and the table of all
  options shows what reading them one by one gives.
\<close>

theorem options_read_back:
  assumes "hm_ok v" "hm_ok (cfg_options (CONFIG2 st))" "hm_ok (OVERWRITE_SETTINGS st)"
  shows "get_option (set_option k x st) k =
      (case hm_get (OVERWRITE_SETTINGS st) k of
         Some w \<Rightarrow> w | None \<Rightarrow> if x = '''' then unwrap_or_default (hm_get (DEFAULT_SETTINGS st) k) else x)
    \<and> (\<forall>k'. k' \<noteq> k \<longrightarrow> get_option (set_option k x st) k' = get_option st k')
    \<and> (\<forall>k'. get_option (set_options v st) k' =
          unwrap_or_default (get_or (OVERWRITE_SETTINGS st) v (DEFAULT_SETTINGS st) k'))
    \<and> (\<forall>k'. unwrap_or_default (hm_get (get_options st) k') = get_option st k')"
  using assms by (simp add: set_option_get set_options_get get_options_agree get_option_def [of st])

definition example_settings :: settings where
  "example_settings =
     (let c = \<lparr>cfg_id = ''123'', key_confirmed = False, keys_confirmed = [], key_pair = ([1], [2])\<rparr>;
          c2 = \<lparr>cfg_rendezvous_server = '''', cfg_nat_type = 0, cfg_serial = 0, cfg_options = [(''a'', ''1'')], has_socks = False\<rparr>
      in \<lparr>CONFIG = c, CONFIG2 = c2, disk = c, disk2 = c2, ONLINE = [], KEY_PAIR = None,
          EXE_RENDEZVOUS_SERVER = '''', PROD_RENDEZVOUS_SERVER = '''',
          OVERWRITE_SETTINGS = [(''b'', ''9'')], DEFAULT_SETTINGS = [(''c'', ''7'')],
          BUILTIN_SETTINGS = [], HARD_SETTINGS = []\<rparr>)"

theorem options_read_back_witness:
  "get_option (set_option ''b'' ''3'' example_settings) ''b'' = ''9''
    \<and> get_option (set_option ''b'' ''3'' example_settings) ''a'' = ''1''
    \<and> get_option (set_options [(''c'', ''8'')] example_settings) ''c'' = ''8''
    \<and> unwrap_or_default (hm_get (get_options example_settings) ''c'') = ''7''"
proof -
  have ok: "hm_ok [(''c'', ''8'')]" "hm_ok (cfg_options (CONFIG2 example_settings))" "hm_ok (OVERWRITE_SETTINGS example_settings)"
    by (simp_all add: hm_ok_def example_settings_def Let_def)
  from options_read_back [OF ok, of "''b''" "''3''"] show ?thesis
    by (simp add: example_settings_def get_option_def get_or_def hm_get_def unwrap_or_default_def Let_def)
qed

section \<open>Memory and disk agree\<close>

text \<open>Every operation stores what it changes, so at every moment the files hold the configuration in memory.\<close>

definition persisted :: "settings \<Rightarrow> bool" where
  "persisted st \<longleftrightarrow> disk st = CONFIG st \<and> disk2 st = CONFIG2 st"

lemma persisted_put [simp]:
  "persisted (put_config c st) \<longleftrightarrow> disk2 st = CONFIG2 st" "persisted (put_config2 d st) \<longleftrightarrow> disk st = CONFIG st"
  by (auto simp: persisted_def)

lemma persisted_ops [intro]:
  assumes "persisted st"
  shows "persisted (set_options v st)" "persisted (set_option k x st)" "persisted (set_id i st)"
    "persisted (snd (get_id m st))" "persisted (update_id m r st)" "persisted (set_key_confirmed b st)"
    "persisted (set_host_key_confirmed h b st)" "persisted (snd (get_key_pair fresh st))"
    "persisted (set_nat_type n st)" "persisted (set_serial n st)" "persisted (reset_online st)" "persisted (update_latency h l st)"
  using assms
  by (auto simp: persisted_def set_options_def set_option_def set_id_def get_id_def update_id_def set_key_confirmed_def
      set_host_key_confirmed_def get_key_pair_def set_nat_type_def set_serial_def reset_online_def update_latency_def
      Let_def case_prod_unfold split: option.splits)

section \<open>Which server is the fastest\<close>

lemma fastest_sound:
  "fastest es best = (h, d) \<Longrightarrow> (h, d) = best \<or> (h, d) \<in> set es \<and> 0 < d \<and> d < snd best"
  by (induction es best rule: fastest.induct) (force split: if_splits)+

lemma fastest_least:
  "fastest es best = (h, d) \<Longrightarrow> d \<le> snd best \<and> (\<forall>(h', d') \<in> set es. 0 < d' \<longrightarrow> d \<le> d')"
  by (induction es best rule: fastest.induct) (force split: if_splits)+

text \<open>The latency of a server answered for: what \<open>as_micros\<close> gives is far below the bound of the loop.\<close>

definition answers :: "settings \<Rightarrow> string \<Rightarrow> int \<Rightarrow> bool" where
  "answers st h d \<longleftrightarrow> hm_get (ONLINE st) h = Some d \<and> 0 < d \<and> d < i64_MAX"

lemma answers_iff: "hm_ok (ONLINE st) \<Longrightarrow> answers st h d \<longleftrightarrow> (h, d) \<in> set (ONLINE st) \<and> 0 < d \<and> d < i64_MAX"
  by (simp add: answers_def hm_ok_def hm_get_def)

text \<open>
  C33. The fastest server is chosen: after a latency is recorded, the rendezvous server of the configuration is one
  with the least positive latency of all that answer, in whatever order the table is
  walked; it stays what it was when none answers; and the change is on disk.
\<close>

theorem fastest_server_chosen:
  fixes st :: settings and host :: string and latency :: int
  defines "st' \<equiv> update_latency host latency st"
  assumes "hm_ok (ONLINE st)" "host \<noteq> ''''" "hm_get (ONLINE st) '''' = None" "persisted st"
  shows "hm_get (ONLINE st') host = Some latency
    \<and> (if \<exists>h d. answers st' h d
       then \<exists>d. answers st' (cfg_rendezvous_server (CONFIG2 st')) d \<and> (\<forall>h' d'. answers st' h' d' \<longrightarrow> d \<le> d')
       else cfg_rendezvous_server (CONFIG2 st') = cfg_rendezvous_server (CONFIG2 st))
    \<and> persisted st'"
proof -
  let ?on = "hm_insert host latency (ONLINE st)"
  obtain h d where f: "fastest ?on ('''', i64_MAX) = (h, d)" by (cases "fastest ?on ('''', i64_MAX)")
  have on: "ONLINE st' = ?on"
    by (simp add: st'_def update_latency_def f Let_def)
  have ok: "hm_ok ?on" using assms(2) by simp
  have ne: "(h', d') \<in> set ?on \<Longrightarrow> h' \<noteq> ''''" for h' d'
    using ok assms(3,4) by (metis hm.get_insert hm_get_def hm_ok_def map_of_is_SomeI option.discI)
  have srv: "cfg_rendezvous_server (CONFIG2 st') = (if h = '''' then cfg_rendezvous_server (CONFIG2 st) else h)"
    by (simp add: st'_def update_latency_def f Let_def)
  have least: "d \<le> i64_MAX" "(h', d') \<in> set ?on \<Longrightarrow> 0 < d' \<Longrightarrow> d \<le> d'" for h' d'
    using fastest_least [OF f] by auto
  have ans: "answers st' h' d' \<longleftrightarrow> (h', d') \<in> set ?on \<and> 0 < d' \<and> d' < i64_MAX" for h' d'
    using answers_iff [of st' h' d'] ok on by simp
  have chosen: "if \<exists>h d. answers st' h d
       then \<exists>d. answers st' (cfg_rendezvous_server (CONFIG2 st')) d \<and> (\<forall>h' d'. answers st' h' d' \<longrightarrow> d \<le> d')
       else cfg_rendezvous_server (CONFIG2 st') = cfg_rendezvous_server (CONFIG2 st)"
  proof (cases "h = ''''")
    case True
    with fastest_sound [OF f] ne have "d = i64_MAX" by auto
    with least(2) have "\<not> answers st' h' d'" for h' d' by (metis ans not_le)
    with True show ?thesis by (simp add: srv)
  next
    case False
    with fastest_sound [OF f] have "answers st' h d" by (auto simp: ans)
    with False least(2) show ?thesis by (auto simp: srv ans)
  qed
  have "persisted st'" using assms(5) by (auto simp: st'_def)
  with on chosen show ?thesis by simp
qed

theorem fastest_server_chosen_witness:
  "cfg_rendezvous_server (CONFIG2 (update_latency ''b'' 300 (update_latency ''a'' 500 example_settings))) = ''b''"
proof -
  let ?st = "update_latency ''a'' 500 example_settings"
  let ?st' = "update_latency ''b'' 300 ?st"
  have on: "ONLINE ?st = [(''a'', 500)]" "ONLINE ?st' = [(''a'', 500), (''b'', 300)]"
    by (simp_all add: update_latency_def example_settings_def hm_insert_def Let_def case_prod_unfold)
  have "persisted example_settings" by (simp add: persisted_def example_settings_def Let_def)
  then have "persisted ?st" by auto
  from fastest_server_chosen [of ?st "''b''" 300] this on
  have "\<exists>d. answers ?st' (cfg_rendezvous_server (CONFIG2 ?st')) d \<and> (\<forall>h' d'. answers ?st' h' d' \<longrightarrow> d \<le> d')"
    by (simp add: hm_ok_def hm_get_def answers_def i64_MAX_def split: if_splits) metis
  moreover have "answers ?st' ''b'' 300" by (simp add: answers_def on hm_get_def i64_MAX_def)
  ultimately show ?thesis by (fastforce simp: answers_def on hm_get_def split: if_splits)
qed

section \<open>Renewed identities\<close>

text \<open>The id made from the address of the network card has at most nine digits, a renewed one has ten.\<close>

lemma auto_id_small:
  assumes "get_auto_id m = Some i"
  shows "\<exists>n. i = nat_to_string n \<and> n < 2 ^ 29"
proof -
  have "unat (w AND 0x1FFFFFFF :: u32) < 2 ^ 29" for w
  proof -
    have "w AND 0x1FFFFFFF = take_bit 29 w" by (simp add: take_bit_eq_mask mask_eq_exp_minus_1)
    then show ?thesis using take_bit_nat_less_exp [of 29 "unat w"] by (simp add: unsigned_take_bit_eq)
  qed
  with assms show ?thesis by (auto simp: get_auto_id_def Let_def split: option.splits)
qed

lemma renewed_id_is_new:
  assumes "1000000000 \<le> r"
  shows "get_auto_id m \<noteq> Some (nat_to_string r)"
proof
  assume "get_auto_id m = Some (nat_to_string r)"
  from auto_id_small [OF this] obtain n where "nat_to_string r = nat_to_string n" "n < 2 ^ 29" by blast
  then have "r = n" by (metis digits_value_nat_to_string)
  with assms \<open>n < 2 ^ 29\<close> show False by simp
qed

end
