(* ===== verification/Handshake.thy ===== *)
theory Handshake
  imports Settings Secure_Stream Net_Addr Server_Core
begin

text \<open>
  How a connection becomes encrypted.  The controlled side (\<open>create_tcp_connection\<close>, \<open>src/server.rs\<close>) signs a
  fresh public key with the key it has registered, the controlling side (\<open>Client::secure_connection\<close>, \<open>src/client.rs\<close>)
  checks it and answers with a sealed symmetric key; \<open>secure_tcp\<close> (\<open>src/common.rs\<close>) does the same towards the
  rendezvous server.  Also the three ways in which a connection is opened: accepted, relayed, or given.

  Signatures, boxes and base64 of \<open>sodiumoxide\<close> and the protobuf encodings are the fields of
  \<open>hs_funs\<close>.  A run of one side depends on its random keys, on the outcome of its sends and on what it receives;
  these are \<open>hs_env\<close>, where the packet received is a function of the packets sent, so
  that the other side of the connection, honest or not, is a value of this function.
\<close>

section \<open>Messages and primitives\<close>

datatype hs_message = SignedId bytes | PublicKey (asymmetric_value: bytes) (symmetric_value: bytes) | NoUnion | OtherUnion

datatype rz_message = KeyExchange "bytes list" | RequestRelayMsg (licence_key: string) (relay_uuid: string) | OtherRzMsg

record hs_funs =
  sign :: "bytes \<Rightarrow> bytes \<Rightarrow> bytes"
  verify :: "bytes \<Rightarrow> bytes \<Rightarrow> bytes option"
  box_seal :: "bytes \<Rightarrow> nonce \<Rightarrow> bytes \<Rightarrow> bytes \<Rightarrow> bytes"
  box_open :: "bytes \<Rightarrow> nonce \<Rightarrow> bytes \<Rightarrow> bytes \<Rightarrow> bytes option"
  decode64 :: "string \<Rightarrow> bytes option"
  write_message :: "hs_message \<Rightarrow> bytes"
  parse_message :: "bytes \<Rightarrow> hs_message option"
  write_idpk :: "string \<times> bytes \<Rightarrow> bytes"
  parse_idpk :: "bytes \<Rightarrow> (string \<times> bytes) option"
  write_rz :: "rz_message \<Rightarrow> bytes"
  parse_rz :: "bytes \<Rightarrow> rz_message option"

datatype recv = TimedOut | Ended | Broken string | Got bytes

record hs_env =
  box_keypair :: "bytes \<times> bytes"
  fresh_sign_pair :: "bytes \<times> bytes"
  fresh_key :: key
  this_machine :: machine
  send_error :: "nat \<Rightarrow> string option"
  reply :: "bytes list \<Rightarrow> recv"

abbreviation "SIGN_PUBLICKEYBYTES \<equiv> (32 :: nat)"
abbreviation "SIGN_SECRETKEYBYTES \<equiv> (64 :: nat)"

definition elapsed :: string where "elapsed = ''deadline has elapsed''"

text \<open>The packets a side sends, in order, and how it ends.\<close>

type_synonym 'a hs_run = "bytes list \<times> (string + 'a)"

section \<open>Keys and signed identities\<close>

definition RS_PUB_KEY :: string where "RS_PUB_KEY = ''OeVuKk5nlHiXp+APNn0Y3pC1Iwpwn44JGqrQCsWqmBw=''"

definition get_key :: "settings \<Rightarrow> string" where
  "get_key st = (let key = get_option st ''key'' in if key = '''' then RS_PUB_KEY else key)"

definition get_pk :: "bytes \<Rightarrow> bytes option" where
  "get_pk pk = (if length pk = 32 then Some pk else None)"

definition get_rs_pk :: "hs_funs \<Rightarrow> string \<Rightarrow> bytes option" where
  "get_rs_pk x str_base64 = (case decode64 x str_base64 of Some pk \<Rightarrow> get_pk pk | None \<Rightarrow> None)"

definition decode_id_pk :: "hs_funs \<Rightarrow> bytes \<Rightarrow> bytes \<Rightarrow> string + (string \<times> bytes)" where
  "decode_id_pk x signed_id key =
     (case verify x signed_id key of
        None \<Rightarrow> Inl ''Signature mismatch''
      | Some m \<Rightarrow>
          (case parse_idpk x m of
             None \<Rightarrow> Inl ''protobuf''
           | Some (i, pk) \<Rightarrow> (case get_pk pk of Some pk \<Rightarrow> Inr (i, pk) | None \<Rightarrow> Inl ''Wrong their public length'')))"

definition create_symmetric_key_msg :: "hs_funs \<Rightarrow> hs_env \<Rightarrow> bytes \<Rightarrow> bytes \<times> bytes \<times> key" where
  "create_symmetric_key_msg x e their_pk_b =
     (let (our_pk_b, out_sk_b) = box_keypair e;
          key = fresh_key e;
          nonce = replicate BOX_NONCEBYTES 0;
          sealed_key = box_seal x key nonce their_pk_b out_sk_b
      in (our_pk_b, sealed_key, key))"

section \<open>The controlled side\<close>

text \<open>
  \<open>Inr (id, stream)\<close>: \<open>Connection::start\<close> runs with this id and stream.  A message of another type than
  \<open>PublicKey\<close> is logged as a failed handshake, and the connection starts all the same.
\<close>

definition create_tcp_connection ::
    "hs_funs \<Rightarrow> hs_env \<Rightarrow> FramedStream \<Rightarrow> bool \<Rightarrow> settings \<Rightarrow> Server \<Rightarrow> (int \<times> FramedStream) hs_run \<times> settings \<times> Server" where
  "create_tcp_connection x e stream secure st sv =
     (let (i, sv) = get_new_id sv;
          ((sk, pk), st) = get_key_pair (fresh_sign_pair e) st
      in if secure \<and> length pk = SIGN_PUBLICKEYBYTES \<and> length sk = SIGN_SECRETKEYBYTES then
           let (our_pk_b, our_sk_b) = box_keypair e;
               (my_id, st) = get_id (this_machine e) st;
               msg_out = write_message x (SignedId (sign x (write_idpk x (my_id, our_pk_b)) sk))
           in (case send_error e 0 of
                Some err \<Rightarrow> (([], Inl err), st, sv)
              | None \<Rightarrow>
                  (case reply e [msg_out] of
                     TimedOut \<Rightarrow> (([msg_out], Inl elapsed), st, sv)
                   | Ended \<Rightarrow> (([msg_out], Inl ''Failed to receive public key''), st, sv)
                   | Broken err \<Rightarrow> (([msg_out], Inl err), st, sv)
                   | Got bytes \<Rightarrow>
                       (case parse_message x bytes of
                          None \<Rightarrow> (([msg_out], Inl ''Handshake failed: invalid message format''), st, sv)
                        | Some (PublicKey asym_v sym_v) \<Rightarrow>
                            if length asym_v = PUBLICKEYBYTES then
                              (case Encrypt_decode (box_open x) sym_v asym_v our_sk_b of
                                 Inl err \<Rightarrow> (([msg_out], Inl err), st, sv)
                               | Inr k \<Rightarrow> (([msg_out], Inr (i, set_key k stream)), st, sv))
                            else if asym_v = [] then (([msg_out], Inr (i, stream)), set_key_confirmed False st, sv)
                            else (([msg_out], Inl ''Handshake failed: invalid public sign key length from peer''), st, sv)
                        | Some _ \<Rightarrow> (([msg_out], Inr (i, stream)), st, sv))))
         else (([], Inr (i, stream)), st, sv))"

text \<open>
  Accepting: \<open>listener\<close> is the outcome of binding, \<open>accepted\<close> that of the accept (\<open>None\<close> when its deadline passes), with
  the result of \<open>local_addr\<close>.  An error of the accept itself ends the function without one.
\<close>

definition accept_connection ::
    "hs_funs \<Rightarrow> hs_env \<Rightarrow> string + unit \<Rightarrow> (string + (FramedStream \<times> string option)) option \<Rightarrow> bool \<Rightarrow> settings \<Rightarrow> Server
      \<Rightarrow> (int \<times> FramedStream) option hs_run \<times> settings \<times> Server" where
  "accept_connection x e listener accepted secure st sv =
     (case listener of
        Inl err \<Rightarrow> (([], Inl err), st, sv)
      | Inr _ \<Rightarrow>
          (case accepted of
             None \<Rightarrow> (([], Inl elapsed), st, sv)
           | Some (Inl err) \<Rightarrow> (([], Inr None), st, sv)
           | Some (Inr (stream, addr_error)) \<Rightarrow>
               (case addr_error of
                  Some err \<Rightarrow> (([], Inl err), st, sv)
                | None \<Rightarrow>
                    let ((ps, r), st, sv) = create_tcp_connection x e stream secure st sv
                    in ((ps, map_sum id Some r), st, sv))))"

definition ipv4_to_ipv6 :: "(string \<Rightarrow> string \<Rightarrow> bool) \<Rightarrow> string \<Rightarrow> bool \<Rightarrow> string" where
  "ipv4_to_ipv6 is_match addr ipv4 =
     (if \<not> ipv4 \<and> is_ipv4_str is_match addr then
        (case split_char CHR '':'' addr of
           ip # _ \<Rightarrow> join_str (ip @ ''.nip.io'') (split_str ip addr)
         | [] \<Rightarrow> addr)
      else addr)"

text \<open>
  Relaying: \<open>connect\<close> gives the stream to the relay server or an error.  The request for the relay is the first
  packet; the handshake of the connection follows on the same stream, so its sends count from one.
\<close>

definition create_relay_connection ::
    "(string \<Rightarrow> string \<Rightarrow> bool) \<Rightarrow> hs_funs \<Rightarrow> hs_env \<Rightarrow> (string \<Rightarrow> string + FramedStream) \<Rightarrow> string \<Rightarrow> string \<Rightarrow> bool \<Rightarrow> bool
      \<Rightarrow> settings \<Rightarrow> Server \<Rightarrow> (int \<times> FramedStream) hs_run \<times> settings \<times> Server" where
  "create_relay_connection is_match x e connect relay_server ruuid secure ipv4 st sv =
     (case connect (ipv4_to_ipv6 is_match (check_port is_match relay_server RELAY_PORT) ipv4) of
        Inl err \<Rightarrow> (([], Inl err), st, sv)
      | Inr stream \<Rightarrow>
          let msg_out = write_rz x (RequestRelayMsg (get_key st) ruuid)
          in (case send_error e 0 of
                Some err \<Rightarrow> (([], Inl err), st, sv)
              | None \<Rightarrow>
                  let ((ps, r), st, sv) =
                        create_tcp_connection x (e\<lparr>send_error := \<lambda>n. send_error e (Suc n)\<rparr>) stream secure st sv
                  in ((msg_out # ps, r), st, sv)))"

section \<open>The controlling side\<close>

definition vouched_pk :: "hs_funs \<Rightarrow> string \<Rightarrow> bytes \<Rightarrow> string \<Rightarrow> bytes option" where
  "vouched_pk x peer_id signed_id_pk key =
     (if signed_id_pk \<noteq> [] then
        (case get_rs_pk x (if key = '''' then RS_PUB_KEY else key) of
           Some rs_pk \<Rightarrow>
             (case decode_id_pk x signed_id_pk rs_pk of
                Inr (i, pk) \<Rightarrow> if i = peer_id then Some pk else None
              | Inl _ \<Rightarrow> None)
         | None \<Rightarrow> None)
      else None)"

text \<open>Sends that follow no check of the peer's key: the connection goes on unencrypted.\<close>

definition send_and_go_on :: "hs_funs \<Rightarrow> hs_env \<Rightarrow> hs_message \<Rightarrow> 'a \<Rightarrow> 'a hs_run" where
  "send_and_go_on x e m r =
     (case send_error e 0 of Some err \<Rightarrow> ([], Inl err) | None \<Rightarrow> ([write_message x m], Inr r))"

definition secure_connection ::
    "hs_funs \<Rightarrow> hs_env \<Rightarrow> string \<Rightarrow> bytes \<Rightarrow> string \<Rightarrow> FramedStream \<Rightarrow> (bytes option \<times> FramedStream) hs_run" where
  "secure_connection x e peer_id signed_id_pk key conn =
     (case vouched_pk x peer_id signed_id_pk key of
        None \<Rightarrow> send_and_go_on x e NoUnion (None, conn)
      | Some sign_pk \<Rightarrow>
          (case reply e [] of
             TimedOut \<Rightarrow> ([], Inl elapsed)
           | Ended \<Rightarrow> ([], Inl ''Reset by the peer'')
           | Broken err \<Rightarrow> ([], Inl err)
           | Got bytes \<Rightarrow>
               (case parse_message x bytes of
                  Some (SignedId si) \<Rightarrow>
                    (case decode_id_pk x si sign_pk of
                       Inr (i, their_pk_b) \<Rightarrow>
                         if i = peer_id then
                           let (asym_v, sym_v, k) = create_symmetric_key_msg x e their_pk_b
                           in send_and_go_on x e (PublicKey asym_v sym_v) (Some sign_pk, set_key k conn)
                         else send_and_go_on x e NoUnion (Some sign_pk, conn)
                     | Inl _ \<Rightarrow> send_and_go_on x e (PublicKey [] []) (Some sign_pk, conn))
                | _ \<Rightarrow> send_and_go_on x e NoUnion (Some sign_pk, conn))))"

section \<open>Towards the rendezvous server\<close>

definition secure_tcp :: "hs_funs \<Rightarrow> hs_env \<Rightarrow> settings \<Rightarrow> string \<Rightarrow> FramedStream \<Rightarrow> FramedStream hs_run" where
  "secure_tcp x e st key conn =
     (if use_ws st then ([], Inr conn)
      else (case get_rs_pk x key of
        None \<Rightarrow> ([], Inl ''Handshake failed: invalid public key from rendezvous server'')
      | Some rs_pk \<Rightarrow>
          (case reply e [] of
             TimedOut \<Rightarrow> ([], Inl elapsed)
           | Got bytes \<Rightarrow>
               (case parse_rz x bytes of
                  Some (KeyExchange ks) \<Rightarrow>
                    if length ks \<noteq> 1 then ([], Inl ''Handshake failed: invalid key exchange message'')
                    else (case verify x (hd ks) rs_pk of
                      None \<Rightarrow> ([], Inl ''Signature mismatch in key exchange'')
                    | Some their_pk_b \<Rightarrow>
                        (case get_pk their_pk_b of
                           None \<Rightarrow> ([], Inl ''Wrong their public length in key exchange'')
                         | Some pk \<Rightarrow>
                             let (asym_v, sym_v, k) = create_symmetric_key_msg x e pk
                             in (case send_error e 0 of
                                   Some err \<Rightarrow> ([], Inl err)
                                 | None \<Rightarrow> ([write_rz x (KeyExchange [asym_v, sym_v])], Inr (set_key k conn)))))
                | _ \<Rightarrow> ([], Inr conn))
           | _ \<Rightarrow> ([], Inr conn))))"

section \<open>What the two sides agree on\<close>

text \<open>
  The documented behaviour of the primitives, for the keys at hand: a signature made with the secret key verifies with the
  public key, a box sealed for one pair by the other opens, and every encoding is read back.
\<close>

definition sign_pair :: "hs_funs \<Rightarrow> bytes \<Rightarrow> bytes \<Rightarrow> bool" where
  "sign_pair x pk sk \<longleftrightarrow> (\<forall>m. verify x (sign x m sk) pk = Some m)"

definition box_pairs :: "hs_funs \<Rightarrow> bytes \<times> bytes \<Rightarrow> bytes \<times> bytes \<Rightarrow> bool" where
  "box_pairs x ours theirs \<longleftrightarrow>
     (\<forall>m n. box_open x (box_seal x m n (fst theirs) (snd ours)) n (fst ours) (snd theirs) = Some m)"

definition encodings_ok :: "hs_funs \<Rightarrow> bool" where
  "encodings_ok x \<longleftrightarrow> (\<forall>m. parse_message x (write_message x m) = Some m) \<and> (\<forall>v. parse_idpk x (write_idpk x v) = Some v)"

text \<open>The first answer of a controlling side to the packets it gets, as the controlled side sees it.\<close>

definition client_reply :: "hs_funs \<Rightarrow> hs_env \<Rightarrow> string \<Rightarrow> bytes \<Rightarrow> string \<Rightarrow> FramedStream \<Rightarrow> bytes list \<Rightarrow> recv" where
  "client_reply x e peer_id signed_id_pk key conn sent =
     (case fst (secure_connection x (e\<lparr>reply := \<lambda>_. Got (last sent)\<rparr>) peer_id signed_id_pk key conn) of
        p # _ \<Rightarrow> Got p | [] \<Rightarrow> Ended)"

lemma get_id_known: "cfg_id (CONFIG st) \<noteq> '''' \<Longrightarrow> get_id m st = (cfg_id (CONFIG st), st)"
  by (simp add: get_id_def)

lemma vouched:
  assumes "vouched_pk x peer_id s key = Some pk"
  obtains rs_pk where "get_rs_pk x (if key = '''' then RS_PUB_KEY else key) = Some rs_pk"
    "decode_id_pk x s rs_pk = Inr (peer_id, pk)"
  using assms by (auto simp: vouched_pk_def split: if_splits option.splits sum.splits prod.splits)

lemma decode_signed:
  assumes "sign_pair x pk sk" "encodings_ok x" "length k = 32"
  shows "decode_id_pk x (sign x (write_idpk x (i, k)) sk) pk = Inr (i, k)"
  using assms by (simp add: decode_id_pk_def sign_pair_def encodings_ok_def get_pk_def)

text \<open>
  C13. Honest sides share a key: when the rendezvous server vouches for the key the controlled side has registered, that
  side offers its id signed with it, the controlling side accepts, and both go on with the same fresh
  symmetric key and with counters at the start, so that whatever one side sends afterwards is read by the other
  unchanged and in order, however the bytes are cut.
\<close>

theorem handshake_agrees:
  assumes "encodings_ok x" "sign_pair x pk sk" "box_pairs x (box_keypair ce) (box_keypair se)"
    and "KEY_PAIR st = Some (sk, pk)" "length pk = 32" "length sk = 64" "cfg_id (CONFIG st) = peer_id" "peer_id \<noteq> ''''"
    and "length (fst (box_keypair se)) = 32" "length (fst (box_keypair ce)) = 32" "length (fresh_key ce) = 32"
    and "vouched_pk x peer_id signed_id_pk key = Some pk"
    and "send_error se = (\<lambda>_. None)" "send_error ce = (\<lambda>_. None)"
    and "reply se = client_reply x ce peer_id signed_id_pk key FramedStream_from"
    and "create_tcp_connection x se FramedStream_from True st sv = ((offer, served), st', sv')"
    and "secure_connection x (ce\<lparr>reply := \<lambda>_. Got (hd offer)\<rparr>) peer_id signed_id_pk key FramedStream_from = (answer, joined)"
    and "cipher_laws seal sopen" "\<forall>m\<in>set ms. length m + 16 \<le> 0x3FFFFFFF"
  shows "\<exists>a b i. served = Inr (i, a) \<and> joined = Inr (Some pk, b)
    \<and> fs_encrypt a = Some (Encrypt_new (fresh_key ce)) \<and> fs_encrypt b = Some (Encrypt_new (fresh_key ce))
    \<and> (\<forall>chunks. concat chunks = snd (send_all seal a ms) \<longrightarrow>
         snd (next_all sopen b (unpack BytesCodec_new chunks)) = map Inr ms)
    \<and> (\<forall>chunks. concat chunks = snd (send_all seal b ms) \<longrightarrow>
         snd (next_all sopen a (unpack BytesCodec_new chunks)) = map Inr ms)"
proof -
  let ?s0 = FramedStream_from
  let ?spk = "fst (box_keypair se)" and ?k = "fresh_key ce"
  let ?offer = "write_message x (SignedId (sign x (write_idpk x (peer_id, ?spk)) sk))"
  let ?sealed = "box_seal x ?k (replicate 24 0) ?spk (snd (box_keypair ce))"
  let ?answer = "write_message x (PublicKey (fst (box_keypair ce)) ?sealed)"
  have client: "secure_connection x (ce\<lparr>reply := \<lambda>_. Got ?offer\<rparr>) peer_id signed_id_pk key ?s0
      = ([?answer], Inr (Some pk, set_key ?k ?s0))"
    using assms(1,9,12,14) decode_signed [OF assms(2,1,9), of peer_id]
    by (simp add: secure_connection_def encodings_ok_def create_symmetric_key_msg_def send_and_go_on_def case_prod_unfold Let_def)
  then have rep: "reply se [?offer] = Got ?answer" by (simp add: assms(15) client_reply_def)
  have dec: "Encrypt_decode (box_open x) ?sealed (fst (box_keypair ce)) (snd (box_keypair se)) = Inr ?k"
    using assms(3,10,11) by (simp add: Encrypt_decode_def box_pairs_def Let_def)
  have served: "offer = [?offer]" "\<exists>i. served = Inr (i, set_key ?k ?s0)"
    using assms(1,4-8,10,13,16) rep dec
    by (auto simp: create_tcp_connection_def get_key_pair_def get_id_known encodings_ok_def case_prod_unfold Let_def)
  have joined: "joined = Inr (Some pk, set_key ?k ?s0)" using assms(17) client served(1) by simp
  have enc: "fs_encrypt (set_key ?k ?s0) = Some (Encrypt_new ?k)" by (simp add: set_key_def)
  have codec: "fs_codec (set_key ?k ?s0) = BytesCodec_new" by (simp add: set_key_def FramedStream_from_def)
  have "snd (next_all sopen (set_key ?k ?s0) (unpack BytesCodec_new chunks)) = map Inr ms"
    if "concat chunks = snd (send_all seal (set_key ?k ?s0) ms)" for chunks
    using delivered [OF assms(18) codec enc enc refl _ assms(19) that] by (auto simp: Encrypt_new_def)
  with served(2) joined enc show ?thesis by blast
qed

text \<open>
  C14. Encryption only for the right peer: the controlling side goes on encrypted only if the rendezvous server's signature
  binds the peer's id to a key and the packet received is the same id with a public key, signed with that key;
  the symmetric key is then the fresh one, and the only packet sent seals it for that public key.
\<close>

theorem key_only_for_vouched_peer:
  assumes "secure_connection x e peer_id signed_id_pk key conn = (sent, Inr (r, conn'))"
    and "fs_encrypt conn = None" "fs_encrypt conn' \<noteq> None"
  shows "\<exists>rs_pk pk p si pk_b.
      get_rs_pk x (if key = '''' then RS_PUB_KEY else key) = Some rs_pk
    \<and> decode_id_pk x signed_id_pk rs_pk = Inr (peer_id, pk)
    \<and> reply e [] = Got p \<and> parse_message x p = Some (SignedId si) \<and> decode_id_pk x si pk = Inr (peer_id, pk_b)
    \<and> r = Some pk \<and> fs_encrypt conn' = Some (Encrypt_new (fresh_key e))
    \<and> sent = [write_message x (PublicKey (fst (box_keypair e))
                (box_seal x (fresh_key e) (replicate 24 0) pk_b (snd (box_keypair e))))]"
proof (cases "vouched_pk x peer_id signed_id_pk key")
  case None
  with assms show ?thesis by (auto simp: secure_connection_def send_and_go_on_def split: option.splits)
next
  case (Some pk)
  then obtain rs_pk where v: "get_rs_pk x (if key = '''' then RS_PUB_KEY else key) = Some rs_pk"
    "decode_id_pk x signed_id_pk rs_pk = Inr (peer_id, pk)" by (rule vouched)
  from assms Some obtain p si pk_b where p: "reply e [] = Got p" "parse_message x p = Some (SignedId si)"
    "decode_id_pk x si pk = Inr (peer_id, pk_b)"
    by (auto simp: secure_connection_def send_and_go_on_def
        split: recv.splits option.splits hs_message.splits sum.splits prod.splits if_splits)
  with assms Some have "r = Some pk \<and> fs_encrypt conn' = Some (Encrypt_new (fresh_key e))
      \<and> sent = [write_message x (PublicKey (fst (box_keypair e))
                (box_seal x (fresh_key e) (replicate 24 0) pk_b (snd (box_keypair e))))]"
    by (auto simp: secure_connection_def send_and_go_on_def create_symmetric_key_msg_def set_key_def Let_def
        case_prod_unfold split: option.splits)
  with v p show ?thesis by blast
qed

text \<open>A packet that offers no key the controlling side would accept.\<close>

definition no_offer :: "hs_funs \<Rightarrow> bytes option \<Rightarrow> string \<Rightarrow> bytes \<Rightarrow> bool" where
  "no_offer x vouched peer_id p =
     (case vouched of
        None \<Rightarrow> True
      | Some pk \<Rightarrow>
          (case parse_message x p of
             Some (SignedId si) \<Rightarrow>
               (case decode_id_pk x si pk of Inr (i, _) \<Rightarrow> i \<noteq> peer_id | Inl _ \<Rightarrow> True)
           | _ \<Rightarrow> True))"

lemma no_offer_goes_on:
  assumes "no_offer x (vouched_pk x peer_id s key) peer_id p" "reply e [] = Got p" "send_error e 0 = None"
  shows "\<exists>m r. secure_connection x e peer_id s key conn = ([write_message x m], Inr (r, conn)) \<and> (m = NoUnion \<or> m = PublicKey [] [])"
  using assms
  by (auto simp: no_offer_def secure_connection_def send_and_go_on_def
      split: option.splits hs_message.splits sum.splits prod.splits)

text \<open>
  C36. The encryption can be stripped: whoever sits between two sides that both ask for a secure connection, and
  replaces the signed id by any packet that does not verify, makes both of them go on unencrypted: the
  controlling side answers with an empty message or an empty key, and the controlled side starts the
  connection in the clear on that answer.
\<close>

theorem handshake_can_be_stripped:
  assumes "encodings_ok x"
    and "KEY_PAIR st = Some (sk, pk)" "length pk = 32" "length sk = 64"
    and "send_error se = (\<lambda>_. None)" "send_error ce = (\<lambda>_. None)"
    and "no_offer x (vouched_pk x peer_id signed_id_pk key) peer_id p" "reply ce [] = Got p"
    and "secure_connection x ce peer_id signed_id_pk key b = (answer, joined)"
    and "reply se = (\<lambda>_. Got (hd answer))"
    and "create_tcp_connection x se a True st sv = ((offer, served), st', sv')"
  shows "(\<exists>i. served = Inr (i, a)) \<and> (\<exists>r. joined = Inr (r, b))"
proof -
  from no_offer_goes_on [OF assms(7,8), of b] assms(6,9) obtain m r where
    m: "answer = [write_message x m]" "joined = Inr (r, b)" "m = NoUnion \<or> m = PublicKey [] []" by auto
  have "parse_message x (hd answer) = Some m" using assms(1) m(1) by (simp add: encodings_ok_def)
  with assms(2-5,10,11) m(3) have "\<exists>i. served = Inr (i, a)"
    by (auto simp: create_tcp_connection_def get_key_pair_def case_prod_unfold Let_def)
  with m(2) show ?thesis by blast
qed

section \<open>An instance of the primitives\<close>

text \<open>
  The laws can hold together: signatures that carry the public half of the secret key, boxes without secrecy,
  and encodings that announce a length in unary.
\<close>

definition put_unary :: "bytes \<Rightarrow> bytes \<Rightarrow> bytes" where
  "put_unary a b = replicate (length a) 1 @ 0 # a @ b"

definition get_unary :: "bytes \<Rightarrow> bytes \<times> bytes" where
  "get_unary r = (let n = length (takeWhile (\<lambda>v. v = 1) r); r' = drop (Suc n) r in (take n r', drop n r'))"

fun example_write :: "hs_message \<Rightarrow> bytes" where
  "example_write NoUnion = []"
| "example_write (SignedId b) = 1 # b"
| "example_write (PublicKey a s) = 2 # put_unary a s"
| "example_write OtherUnion = [3]"

definition example_parse :: "bytes \<Rightarrow> hs_message option" where
  "example_parse r =
     (case r of
        [] \<Rightarrow> Some NoUnion
      | t # b \<Rightarrow> if t = 1 then Some (SignedId b)
                 else if t = 2 then (case get_unary b of (a, s) \<Rightarrow> Some (PublicKey a s))
                 else if t = 3 then Some OtherUnion else None)"

definition example_hs :: hs_funs where
  "example_hs =
     \<lparr>sign = \<lambda>m sk. take 32 sk @ m, verify = \<lambda>s pk. if take 32 s = pk then Some (drop 32 s) else None,
      box_seal = \<lambda>m n pk sk. m, box_open = \<lambda>m n pk sk. Some m,
      decode64 = \<lambda>s. Some (replicate 32 7),
      write_message = example_write, parse_message = example_parse,
      write_idpk = \<lambda>(i, pk). put_unary (map (\<lambda>c. of_nat (of_char c)) i) pk,
      parse_idpk = \<lambda>b. (case get_unary b of (i, pk) \<Rightarrow> Some (map (\<lambda>v. char_of (unat v)) i, pk)),
      write_rz = \<lambda>_. [], parse_rz = \<lambda>_. None\<rparr>"

lemma get_put_unary [simp]: "get_unary (put_unary a b) = (a, b)"
proof -
  have "takeWhile (\<lambda>v. v = 1) (replicate n 1 @ 0 # r) = replicate n (1 :: u8)" for n r by (induction n) auto
  then show ?thesis by (simp add: get_unary_def put_unary_def)
qed

lemma example_encodings_ok: "encodings_ok example_hs"
proof -
  have "example_parse (example_write m) = Some m" for m by (cases m) (simp_all add: example_parse_def)
  moreover have "char_of (unat (of_nat (of_char c) :: u8)) = (c :: char)" for c
    by (simp add: unat_of_nat)
  then have "map (\<lambda>v. char_of (unat v)) (map (\<lambda>c. of_nat (of_char c) :: u8) i) = i" for i
    by (simp add: o_def)
  ultimately show ?thesis by (auto simp: encodings_ok_def example_hs_def)
qed

definition example_sk :: bytes where "example_sk = replicate 64 9"
definition example_pk :: bytes where "example_pk = replicate 32 9"

definition example_vouch :: bytes where
  "example_vouch = replicate 32 7 @ put_unary (map (\<lambda>c. of_nat (of_char c)) ''123'') example_pk"

definition example_hs_settings :: settings where
  "example_hs_settings = example_settings\<lparr>KEY_PAIR := Some (example_sk, example_pk)\<rparr>"

definition example_client :: hs_env where
  "example_client =
     \<lparr>box_keypair = (replicate 32 1, replicate 32 2), fresh_sign_pair = ([], []), fresh_key = replicate 32 3,
      this_machine = \<lparr>hostname = None, mac_address = None\<rparr>, send_error = \<lambda>_. None, reply = \<lambda>_. Got [3]\<rparr>"

definition example_side :: hs_env where
  "example_side = example_client\<lparr>box_keypair := (replicate 32 4, replicate 32 5),
     reply := client_reply example_hs example_client ''123'' example_vouch '''' FramedStream_from\<rparr>"

definition example_srv :: Server where
  "example_srv = \<lparr>connections = [], services = [], id_count = 0\<rparr>"

lemma example_vouched: "vouched_pk example_hs ''123'' example_vouch '''' = Some example_pk"
  by code_simp

theorem handshake_agrees_witness:
  "\<exists>a b i. snd (fst (create_tcp_connection example_hs example_side FramedStream_from True example_hs_settings example_srv)) = Inr (i, a)
    \<and> client_reply example_hs example_client ''123'' example_vouch '''' FramedStream_from
        (fst (fst (create_tcp_connection example_hs example_side FramedStream_from True example_hs_settings example_srv))) \<noteq> Ended
    \<and> fs_encrypt a = Some (Encrypt_new (replicate 32 3)) \<and> fs_encrypt b = Some (Encrypt_new (replicate 32 3))
    \<and> snd (next_all (\<lambda>c n k. Some (drop 16 c)) b (unpack BytesCodec_new [snd (send_all (\<lambda>m n k. replicate 16 0 @ m) a [[5], []])]))
        = [Inr [5], Inr []]"
proof -
  let ?run = "create_tcp_connection example_hs example_side FramedStream_from True example_hs_settings example_srv"
  let ?cl = "secure_connection example_hs (example_client\<lparr>reply := \<lambda>_. Got (hd (fst (fst ?run)))\<rparr>) ''123'' example_vouch '''' FramedStream_from"
  have pair: "sign_pair example_hs example_pk example_sk"
    by (simp add: sign_pair_def example_hs_def example_pk_def example_sk_def)
  have boxes: "box_pairs example_hs (box_keypair example_client) (box_keypair example_side)"
    by (simp add: box_pairs_def example_hs_def)
  have run: "?run = ((fst (fst ?run), snd (fst ?run)), fst (snd ?run), snd (snd ?run))" by simp
  have cl: "?cl = (fst ?cl, snd ?cl)" by simp
  have laws: "cipher_laws (\<lambda>m n k. replicate 16 0 @ m) (\<lambda>c n k. Some (drop 16 c))" by (simp add: cipher_laws_def)
  have replies: "client_reply example_hs example_client ''123'' example_vouch '''' FramedStream_from (fst (fst ?run)) \<noteq> Ended"
    by code_simp
  have "\<exists>a b i. snd (fst ?run) = Inr (i, a) \<and> snd ?cl = Inr (Some example_pk, b)
    \<and> fs_encrypt a = Some (Encrypt_new (fresh_key example_client)) \<and> fs_encrypt b = Some (Encrypt_new (fresh_key example_client))
    \<and> (\<forall>chunks. concat chunks = snd (send_all (\<lambda>m n k. replicate 16 0 @ m) a [[5], []]) \<longrightarrow>
         snd (next_all (\<lambda>c n k. Some (drop 16 c)) b (unpack BytesCodec_new chunks)) = map Inr [[5], []])
    \<and> (\<forall>chunks. concat chunks = snd (send_all (\<lambda>m n k. replicate 16 0 @ m) b [[5], []]) \<longrightarrow>
         snd (next_all (\<lambda>c n k. Some (drop 16 c)) a (unpack BytesCodec_new chunks)) = map Inr [[5], []])"
    by (rule handshake_agrees [OF example_encodings_ok pair boxes _ _ _ _ _ _ _ _ example_vouched _ _ _ run cl laws])
       (simp_all add: example_hs_settings_def example_side_def example_client_def example_pk_def example_sk_def
          example_settings_def Let_def)
  then obtain a b i where shared: "snd (fst ?run) = Inr (i, a)"
      "fs_encrypt a = Some (Encrypt_new (fresh_key example_client))" "fs_encrypt b = Some (Encrypt_new (fresh_key example_client))"
    and read: "\<And>chunks. concat chunks = snd (send_all (\<lambda>m n k. replicate 16 0 @ m) a [[5], []]) \<Longrightarrow>
         snd (next_all (\<lambda>c n k. Some (drop 16 c)) b (unpack BytesCodec_new chunks)) = map Inr [[5], []]"
    by blast
  have "fresh_key example_client = replicate 32 3" by (simp add: example_client_def)
  with shared replies read [of "[snd (send_all (\<lambda>m n k. replicate 16 0 @ m) a [[5], []])]"]
  show ?thesis by (intro exI [of _ a] exI [of _ b] exI [of _ i]) simp
qed

theorem key_only_for_vouched_peer_witness:
  "\<exists>pk_b. fst (secure_connection example_hs
        (example_client\<lparr>reply := \<lambda>_. Got (1 # replicate 32 9 @ put_unary (map (\<lambda>c. of_nat (of_char c)) ''123'') (replicate 32 4))\<rparr>)
        ''123'' example_vouch '''' FramedStream_from)
    = [write_message example_hs (PublicKey (replicate 32 1) (box_seal example_hs (replicate 32 3) (replicate 24 0) pk_b (replicate 32 2)))]"
proof -
  let ?e = "example_client\<lparr>reply := \<lambda>_. Got (1 # replicate 32 9 @ put_unary (map (\<lambda>c. of_nat (of_char c)) ''123'') (replicate 32 4))\<rparr>"
  let ?run = "secure_connection example_hs ?e ''123'' example_vouch '''' FramedStream_from"
  have "(case snd ?run of Inr (r, c) \<Rightarrow> fs_encrypt c \<noteq> None | Inl _ \<Rightarrow> False)" by code_simp
  then obtain r c where rc: "snd ?run = Inr (r, c)" "fs_encrypt c \<noteq> None" by (auto split: sum.splits)
  then have "?run = (fst ?run, Inr (r, c))" by (metis prod.collapse)
  from key_only_for_vouched_peer [OF this _ rc(2)] show ?thesis
    by (auto simp: FramedStream_from_def example_client_def)
qed

theorem handshake_can_be_stripped_witness:
  "\<exists>i. snd (fst (create_tcp_connection example_hs
      (example_side\<lparr>reply := \<lambda>_. Got (hd (fst (secure_connection example_hs example_client ''123'' example_vouch '''' FramedStream_from)))\<rparr>)
      FramedStream_from True example_hs_settings example_srv)) = Inr (i, FramedStream_from)"
proof -
  let ?cl = "secure_connection example_hs example_client ''123'' example_vouch '''' FramedStream_from"
  let ?se = "example_side\<lparr>reply := \<lambda>_. Got (hd (fst ?cl))\<rparr>"
  let ?run = "create_tcp_connection example_hs ?se FramedStream_from True example_hs_settings example_srv"
  have run: "?run = ((fst (fst ?run), snd (fst ?run)), fst (snd ?run), snd (snd ?run))" by simp
  have cl: "?cl = (fst ?cl, snd ?cl)" by simp
  have "no_offer example_hs (vouched_pk example_hs ''123'' example_vouch '''') ''123'' [3]" by code_simp
  from handshake_can_be_stripped [OF example_encodings_ok _ _ _ _ _ this _ cl _ run] show ?thesis
    by (simp add: example_hs_settings_def example_side_def example_client_def example_pk_def example_sk_def)
qed

end
