(* ===== verification/Rendezvous.thy ===== *)
theory Rendezvous
  imports Handshake
begin

text \<open>
  The rendezvous mediator (\<open>src/rendezvous_mediator.rs\<close>): registering the machine with the rendezvous
  servers over UDP or TCP, the responses of the servers, the requests for connections they pass on, and the
  server for direct access.  Its static variables, the settings, what it has sent and which tasks it has spawned
  are the fields of \<open>mediator_state\<close>; the local variables of the two loops are records.  An
  \<open>Instant\<close> is a number of microseconds, and \<open>rz_env\<close> holds the time, the random values and the outcomes of the
  network calls of one turn of a loop or of one task.
\<close>

section \<open>Messages\<close>

datatype TargetAddr = TargetIp SocketAddr | TargetDomain string

definition is_ipv4 :: "TargetAddr \<Rightarrow> bool" where
  "is_ipv4 target = (case target of TargetIp (V4 _ _) \<Rightarrow> True | TargetIp (V6 _ _ _ _) \<Rightarrow> False | TargetDomain _ \<Rightarrow> True)"

record PunchHole =
  ph_socket_addr :: bytes
  ph_relay_server :: string
  ph_nat_type :: int
  ph_udp_port :: int
  ph_force_relay :: bool
  ph_socket_addr_v6 :: bytes
  ph_control_permissions :: "u64 option"

record RequestRelay =
  rr_uuid :: string
  rr_socket_addr :: bytes
  rr_relay_server :: string
  rr_secure :: bool
  rr_control_permissions :: "u64 option"

record FetchLocalAddr =
  fla_socket_addr :: bytes
  fla_relay_server :: string
  fla_socket_addr_v6 :: bytes
  fla_control_permissions :: "u64 option"

datatype pk_result = PkOK | UUID_MISMATCH | PkOther

datatype rz_in = RegisterPeerResponse bool | RegisterPkResponse pk_result int
  | InPunchHole PunchHole | InRequestRelay RequestRelay | InFetchLocalAddr FetchLocalAddr
  | ConfigureUpdate int "string list" | InOther

datatype rz_out =
    RegisterPk (reg_id: string) (reg_uuid: bytes) (reg_pk: bytes) (reg_no_device: bool)
  | RegisterPeer (reg_id: string) (reg_serial: int)
  | Heartbeat
  | RelayResponse (rsp_socket_addr: bytes) (rsp_v6: bytes) (rsp_initiate: "(string \<times> string \<times> string) option")
  | LocalAddr (la_id: string) (la_peer: bytes) (la_local: bytes) (la_relay: string) (la_v6: bytes)
  | PunchHoleSent (phs_socket_addr: bytes) (phs_id: string) (phs_relay: string) (phs_nat: int) (phs_v6: bytes)

section \<open>State\<close>

record RendezvousMediator =
  rz_addr :: TargetAddr
  rz_host :: string
  rz_host_prefix :: string
  rz_keep_alive :: int

datatype rz_task = HandlePunchHole RendezvousMediator PunchHole
  | HandleRequestRelay RendezvousMediator RequestRelay
  | HandleIntranet RendezvousMediator FetchLocalAddr

text \<open>What the mediator does to the outside, in order.\<close>

datatype rz_effect =
    Sent string rz_out
  | RelayConnection (eff_relay: string) (eff_uuid: string) (eff_peer: SocketAddr) (eff_secure: bool) (eff_ipv4: bool) (eff_perms: "u64 option")
  | AcceptConnection (eff_peer: SocketAddr) (eff_secure: bool) (eff_perms: "u64 option")
  | UdpNatListen (eff_remote: SocketAddr) (eff_peer: SocketAddr) (eff_perms: "u64 option")
  | PunchTcp SocketAddr
  | DirectConnection (eff_peer: SocketAddr)

record mediator_state =
  med_settings :: settings
  SOLVING_PK_MISMATCH :: string
  LAST_MSG :: "SocketAddr \<times> nat"
  LAST_RELAY_MSG :: "SocketAddr \<times> nat"
  SHOULD_EXIT :: bool
  MANUAL_RESTARTED :: bool
  SENT_REGISTER_PK :: bool
  effects :: "rz_effect list"
  tasks :: "rz_task list"

record rz_env =
  now :: nat
  rz_machine :: machine
  rz_fresh_pair :: "bytes \<times> bytes"
  rz_machine_uuid :: bytes
  rz_random_id :: nat
  rz_sink_error :: "string option"
  resolved :: "string + SocketAddr"
  tcp_to_host :: "string + SocketAddr"
  rz_send_error :: "string option"
  ipv6_socket :: "bytes option"
  udp_to_host :: "string + unit"
  nat_listen_error :: "string option"
  mangle_time :: u32
  new_uuid :: string
  rz_match :: "string \<Rightarrow> string \<Rightarrow> bool"

definition effect :: "rz_effect \<Rightarrow> mediator_state \<Rightarrow> mediator_state" where
  "effect x s = s\<lparr>effects := effects s @ [x]\<rparr>"

definition on_settings :: "(settings \<Rightarrow> settings) \<Rightarrow> mediator_state \<Rightarrow> mediator_state" where
  "on_settings f s = s\<lparr>med_settings := f (med_settings s)\<rparr>"

definition elapsed_ms :: "rz_env \<Rightarrow> nat \<Rightarrow> int" where
  "elapsed_ms e t = u64_as_i64 ((now e - t) div 1000)"

definition elapsed_us :: "rz_env \<Rightarrow> nat \<Rightarrow> int" where
  "elapsed_us e t = u64_as_i64 (now e - t)"

definition DEFAULT_KEEP_ALIVE :: int where "DEFAULT_KEEP_ALIVE = 60000"
definition REG_INTERVAL :: int where "REG_INTERVAL = 15000"
definition CONNECT_TIMEOUT :: nat where "CONNECT_TIMEOUT = 18000"
definition MIN_REG_TIMEOUT :: int where "MIN_REG_TIMEOUT = 3000"
definition MAX_REG_TIMEOUT :: int where "MAX_REG_TIMEOUT = 30000"
definition MAX_FAILS1 :: int where "MAX_FAILS1 = 2"
definition MAX_FAILS2 :: int where "MAX_FAILS2 = 4"
definition DNS_INTERVAL :: int where "DNS_INTERVAL = 60000"

definition restart :: "mediator_state \<Rightarrow> mediator_state" where
  "restart s = s\<lparr>SHOULD_EXIT := True, MANUAL_RESTARTED := True\<rparr>"

definition get_host_prefix :: "string \<Rightarrow> string" where
  "get_host_prefix host =
     (case split_char CHR ''.'' host of
        x # _ \<Rightarrow> if parse_i32 x \<noteq> None then host else x
      | [] \<Rightarrow> host)"

section \<open>Registering\<close>

definition register_pk :: "rz_env \<Rightarrow> RendezvousMediator \<Rightarrow> mediator_state \<Rightarrow> (string + unit) \<times> mediator_state" where
  "register_pk e rz s =
     (let ((_, pk), st) = get_key_pair (rz_fresh_pair e) (med_settings s);
          (i, st) = get_id (rz_machine e) st;
          s = s\<lparr>med_settings := st\<rparr>
      in case rz_sink_error e of
           Some err \<Rightarrow> (Inl err, s)
         | None \<Rightarrow>
             (Inr (), (effect (Sent (rz_host rz) (RegisterPk i (rz_machine_uuid e) pk (no_register_device st))) s)
                \<lparr>SENT_REGISTER_PK := True\<rparr>))"

definition handle_uuid_mismatch :: "rz_env \<Rightarrow> RendezvousMediator \<Rightarrow> mediator_state \<Rightarrow> (string + unit) \<times> mediator_state" where
  "handle_uuid_mismatch e rz s =
     (let solving = SOLVING_PK_MISMATCH s in
      if solving = '''' \<or> solving = rz_host rz then
        register_pk e rz
          ((on_settings (update_id (rz_machine e) (rz_random_id e) \<circ> set_key_confirmed False) s)
             \<lparr>SOLVING_PK_MISMATCH := rz_host rz\<rparr>)
      else (Inr (), s))"

definition register_peer :: "rz_env \<Rightarrow> RendezvousMediator \<Rightarrow> mediator_state \<Rightarrow> (string + unit) \<times> mediator_state" where
  "register_peer e rz s =
     (let solving = SOLVING_PK_MISMATCH s in
      if \<not> (solving = '''' \<or> solving = rz_host rz) then (Inr (), s)
      else if \<not> get_key_confirmed (med_settings s) \<or> \<not> get_host_key_confirmed (med_settings s) (rz_host_prefix rz)
      then register_pk e rz s
      else
        let (i, st) = get_id (rz_machine e) (med_settings s);
            s = s\<lparr>med_settings := st\<rparr>
        in case rz_sink_error e of
             Some err \<Rightarrow> (Inl err, s)
           | None \<Rightarrow> (Inr (), effect (Sent (rz_host rz) (RegisterPeer i (get_serial st))) s))"

text \<open>\<open>CheckIfResendPk\<close>: the public key is remembered when the value is made, and compared when it is dropped.\<close>

definition CheckIfResendPk_new :: "settings \<Rightarrow> bytes option" where
  "CheckIfResendPk_new st = get_cached_pk st"

definition CheckIfResendPk_drop :: "bytes option \<Rightarrow> mediator_state \<Rightarrow> mediator_state" where
  "CheckIfResendPk_drop pk s =
     (if SENT_REGISTER_PK s \<and> get_cached_pk (med_settings s) \<noteq> pk then on_settings (set_key_confirmed False) s else s)"

section \<open>Responses\<close>

text \<open>
  \<open>upd\<close> is the closure \<open>update_latency\<close> of the loop, which changes the loop's local variables
  \<open>l\<close> and the settings.  The three kinds of requests are spawned as tasks with a copy of the mediator.
\<close>

definition handle_resp ::
    "rz_env \<Rightarrow> ('l \<times> mediator_state \<Rightarrow> 'l \<times> mediator_state) \<Rightarrow> rz_in \<Rightarrow> RendezvousMediator \<Rightarrow> 'l \<Rightarrow> mediator_state
      \<Rightarrow> (string + unit) \<times> RendezvousMediator \<times> 'l \<times> mediator_state" where
  "handle_resp e upd msg rz l s =
     (case msg of
        RegisterPeerResponse request_pk \<Rightarrow>
          (let (l, s) = upd (l, s)
           in if request_pk then (let (r, s) = register_pk e rz s in (r, rz, l, s)) else (Inr (), rz, l, s))
      | RegisterPkResponse result keep_alive \<Rightarrow>
          (let (l, s) = upd (l, s);
               (r, s) = (case result of
                 PkOK \<Rightarrow>
                   (Inr (), (on_settings (set_host_key_confirmed (rz_host_prefix rz) True \<circ> set_key_confirmed True) s)
                      \<lparr>SOLVING_PK_MISMATCH := ''''\<rparr>)
               | UUID_MISMATCH \<Rightarrow> handle_uuid_mismatch e rz s
               | PkOther \<Rightarrow> (Inr (), s))
           in (case r of
                 Inl err \<Rightarrow> (Inl err, rz, l, s)
               | Inr _ \<Rightarrow>
                   (Inr (), if keep_alive > 0 then rz\<lparr>rz_keep_alive := sint (of_int (keep_alive * 1000) :: i32)\<rparr> else rz, l, s)))
      | InPunchHole ph \<Rightarrow> (Inr (), rz, l, s\<lparr>tasks := tasks s @ [HandlePunchHole rz ph]\<rparr>)
      | InRequestRelay rr \<Rightarrow> (Inr (), rz, l, s\<lparr>tasks := tasks s @ [HandleRequestRelay rz rr]\<rparr>)
      | InFetchLocalAddr fla \<Rightarrow> (Inr (), rz, l, s\<lparr>tasks := tasks s @ [HandleIntranet rz fla]\<rparr>)
      | ConfigureUpdate serial servers \<Rightarrow>
          (let v0 = get_rendezvous_servers (med_settings s);
               s = on_settings (set_serial serial \<circ> set_option ''rendezvous-servers'' (join_str '','' servers)) s
           in (Inr (), rz, l, if v0 \<noteq> get_rendezvous_servers (med_settings s) then restart s else s))
      | InOther \<Rightarrow> (Inr (), rz, l, s))"

section \<open>The loop over UDP\<close>

datatype turn = Go_on | Break | Bail string

definition turn_of :: "string + unit \<Rightarrow> turn" where
  "turn_of r = (case r of Inl err \<Rightarrow> Bail err | Inr _ \<Rightarrow> Go_on)"

record udp_locals =
  reg_timeout :: int
  fails :: int
  last_register_resp :: "nat option"
  last_register_sent :: "nat option"
  last_dns_check :: nat
  old_latency :: int
  ema_latency :: int

definition udp_locals_new :: "rz_env \<Rightarrow> udp_locals" where
  "udp_locals_new e =
     \<lparr>reg_timeout = MIN_REG_TIMEOUT, fails = 0, last_register_resp = None, last_register_sent = None,
      last_dns_check = now e, old_latency = 0, ema_latency = 0\<rparr>"

definition mediator_new :: "(string \<Rightarrow> string \<Rightarrow> bool) \<Rightarrow> string \<Rightarrow> TargetAddr \<Rightarrow> RendezvousMediator" where
  "mediator_new is_match host addr =
     (let host = check_port is_match host RENDEZVOUS_PORT
      in \<lparr>rz_addr = addr, rz_host = host, rz_host_prefix = get_host_prefix host, rz_keep_alive = DEFAULT_KEEP_ALIVE\<rparr>)"

definition update_latency_udp :: "rz_env \<Rightarrow> string \<Rightarrow> udp_locals \<times> mediator_state \<Rightarrow> udp_locals \<times> mediator_state" where
  "update_latency_udp e host = (\<lambda>(l, s).
     let latency = (case last_register_sent l of Some t \<Rightarrow> elapsed_us e t | None \<Rightarrow> 0);
         l = l\<lparr>last_register_resp := Some (now e), fails := 0, reg_timeout := MIN_REG_TIMEOUT, last_register_sent := None\<rparr>
     in if latency < 0 \<or> latency > 1000000 then (l, s)
        else
          let ema = (if ema_latency l = 0 then latency else latency div 30 + ema_latency l * 29 div 30);
              latency = ema;
              l = l\<lparr>ema_latency := ema\<rparr>;
              n = (if latency div 5 < 3000 then 3000 else latency div 5)
          in if \<bar>latency - old_latency l\<bar> > n \<or> old_latency l \<le> 0
             then (l\<lparr>old_latency := latency\<rparr>, on_settings (update_latency host latency) s)
             else (l, s))"

definition rebind_udp_for :: "rz_env \<Rightarrow> settings \<Rightarrow> string + TargetAddr option" where
  "rebind_udp_for e st =
     (if get_network_type st \<noteq> Direct then Inr None
      else (case resolved e of Inl err \<Rightarrow> Inl err | Inr addr \<Rightarrow> Inr (Some (TargetIp addr))))"

text \<open>What a timeout of the registration does before it is sent again.\<close>

definition note_timeout ::
    "rz_env \<Rightarrow> RendezvousMediator \<Rightarrow> udp_locals \<Rightarrow> mediator_state \<Rightarrow> (string + unit) \<times> RendezvousMediator \<times> udp_locals \<times> mediator_state" where
  "note_timeout e rz l s =
     (let l = l\<lparr>fails := fails l + 1\<rparr> in
      if fails l \<ge> MAX_FAILS2 then
        let s = on_settings (update_latency (rz_host rz) (-1)) s;
            l = l\<lparr>old_latency := 0\<rparr>
        in if elapsed_ms e (last_dns_check l) > DNS_INTERVAL then
             (case rebind_udp_for e (med_settings s) of
                Inl err \<Rightarrow> (Inl err, rz, l, s)
              | Inr (Some new_addr) \<Rightarrow> (Inr (), rz\<lparr>rz_addr := new_addr\<rparr>, l\<lparr>last_dns_check := now e\<rparr>, s)
              | Inr None \<Rightarrow> (Inr (), rz, l\<lparr>last_dns_check := now e\<rparr>, s))
           else (Inr (), rz, l, s)
      else if fails l \<ge> MAX_FAILS1 then
        (Inr (), rz, l\<lparr>old_latency := 0\<rparr>, on_settings (update_latency (rz_host rz) 0) s)
      else (Inr (), rz, l, s))"

definition send_again ::
    "rz_env \<Rightarrow> bool \<Rightarrow> RendezvousMediator \<Rightarrow> udp_locals \<Rightarrow> mediator_state \<Rightarrow> turn \<times> RendezvousMediator \<times> udp_locals \<times> mediator_state" where
  "send_again e timeout rz l s =
     (case (if timeout then note_timeout e rz l s else (Inr (), rz, l, s)) of
        (Inl err, rz, l, s) \<Rightarrow> (Bail err, rz, l, s)
      | (Inr _, rz, l, s) \<Rightarrow>
          (case register_peer e rz s of
             (Inl err, s) \<Rightarrow> (Bail err, rz, l, s)
           | (Inr _, s) \<Rightarrow> (Go_on, rz, l\<lparr>last_register_sent := Some (now e)\<rparr>, s)))"

definition udp_tick ::
    "rz_env \<Rightarrow> RendezvousMediator \<Rightarrow> udp_locals \<Rightarrow> mediator_state \<Rightarrow> turn \<times> RendezvousMediator \<times> udp_locals \<times> mediator_state" where
  "udp_tick e rz l s =
     (if SHOULD_EXIT s then (Break, rz, l, s)
      else
        let expired = (case last_register_resp l of Some t \<Rightarrow> elapsed_ms e t \<ge> REG_INTERVAL | None \<Rightarrow> True);
            timeout = (case last_register_sent l of Some t \<Rightarrow> elapsed_ms e t \<ge> reg_timeout l | None \<Rightarrow> False);
            l = (if using_public_server (med_settings s) \<and> timeout \<and> reg_timeout l < MAX_REG_TIMEOUT
                 then l\<lparr>reg_timeout := reg_timeout l + MIN_REG_TIMEOUT\<rparr> else l)
        in if timeout \<or> last_register_sent l = None \<and> expired then
             send_again e timeout rz l s
           else (Go_on, rz, l, s))"

text \<open>A datagram: an error, the end of the socket, bytes that are no message, or a message.\<close>

datatype rz_recv = RecvErr string | RecvNone | Unparsed | EmptyBytes | Msg rz_in

definition udp_packet ::
    "rz_env \<Rightarrow> rz_recv \<Rightarrow> RendezvousMediator \<Rightarrow> udp_locals \<Rightarrow> mediator_state \<Rightarrow> turn \<times> RendezvousMediator \<times> udp_locals \<times> mediator_state" where
  "udp_packet e n rz l s =
     (case n of
        Msg msg \<Rightarrow> (let (r, rz, l, s) = handle_resp e (update_latency_udp e (rz_host rz)) msg rz l s in (turn_of r, rz, l, s))
      | EmptyBytes \<Rightarrow> (Go_on, rz, l, s)
      | Unparsed \<Rightarrow> (Go_on, rz, l, s)
      | RecvErr err \<Rightarrow> (Bail (''Failed to receive next: '' @ err), rz, l, s)
      | RecvNone \<Rightarrow> (Bail ''Socket receive none. Maybe socks5 server is down.'', rz, l, s))"

section \<open>The loop over TCP\<close>

record tcp_locals =
  tcp_register_sent :: "nat option"
  last_recv_msg :: nat

definition tcp_begin :: "rz_env \<Rightarrow> RendezvousMediator \<Rightarrow> mediator_state \<Rightarrow> tcp_locals \<times> mediator_state" where
  "tcp_begin e rz s =
     (\<lparr>tcp_register_sent = None, last_recv_msg = now e\<rparr>, on_settings (set_host_key_confirmed (rz_host_prefix rz) False) s)"

definition update_latency_tcp :: "rz_env \<Rightarrow> string \<Rightarrow> tcp_locals \<times> mediator_state \<Rightarrow> tcp_locals \<times> mediator_state" where
  "update_latency_tcp e host = (\<lambda>(l, s).
     let latency = (case tcp_register_sent l of Some t \<Rightarrow> elapsed_us e t | None \<Rightarrow> 0)
     in (l, on_settings (update_latency host latency) s))"

definition tcp_packet ::
    "rz_env \<Rightarrow> rz_recv \<Rightarrow> RendezvousMediator \<Rightarrow> tcp_locals \<Rightarrow> mediator_state \<Rightarrow> turn \<times> RendezvousMediator \<times> tcp_locals \<times> mediator_state" where
  "tcp_packet e res rz l s =
     (let l = l\<lparr>last_recv_msg := now e\<rparr> in
      case res of
        RecvNone \<Rightarrow> (Bail ''Rendezvous connection is reset by the peer'', rz, l, s)
      | RecvErr err \<Rightarrow> (Bail err, rz, l, s)
      | EmptyBytes \<Rightarrow>
          (case rz_sink_error e of
             Some err \<Rightarrow> (Bail err, rz, l, s)
           | None \<Rightarrow> (Go_on, rz, l, effect (Sent (rz_host rz) Heartbeat) s))
      | Unparsed \<Rightarrow> (Bail ''protobuf'', rz, l, s)
      | Msg msg \<Rightarrow> (let (r, rz, l, s) = handle_resp e (update_latency_tcp e (rz_host rz)) msg rz l s in (turn_of r, rz, l, s)))"

text \<open>\<open>rz.keep_alive as u64 * 3 / 2\<close>: the cast extends the sign and the product wraps.\<close>

definition keep_alive_limit :: "int \<Rightarrow> nat" where
  "keep_alive_limit k = nat (k mod 2 ^ 64) * 3 mod 2 ^ 64 div 2"

definition tcp_tick ::
    "rz_env \<Rightarrow> RendezvousMediator \<Rightarrow> tcp_locals \<Rightarrow> mediator_state \<Rightarrow> turn \<times> RendezvousMediator \<times> tcp_locals \<times> mediator_state" where
  "tcp_tick e rz l s =
     (if SHOULD_EXIT s then (Break, rz, l, s)
      else if (now e - last_recv_msg l) div 1000 mod 2 ^ 64 > keep_alive_limit (rz_keep_alive rz)
      then (Bail ''Rendezvous connection is timeout'', rz, l, s)
      else if (\<not> get_key_confirmed (med_settings s) \<or> \<not> get_host_key_confirmed (med_settings s) (rz_host_prefix rz))
          \<and> (case tcp_register_sent l of Some t \<Rightarrow> elapsed_ms e t | None \<Rightarrow> REG_INTERVAL) \<ge> REG_INTERVAL
      then (case register_pk e rz s of
              (Inl err, s) \<Rightarrow> (Bail err, rz, l, s)
            | (Inr _, s) \<Rightarrow> (Go_on, rz, l\<lparr>tcp_register_sent := Some (now e)\<rparr>, s))
      else (Go_on, rz, l, s))"

section \<open>Starting the loops\<close>

definition uses_tcp :: "settings \<Rightarrow> bool" where
  "uses_tcp st \<longleftrightarrow> is_proxy st \<or> use_ws st \<or> is_udp_disabled st"

datatype med_loop = UdpLoop (loop_rz: RendezvousMediator) udp_locals | TcpLoop (loop_rz: RendezvousMediator) tcp_locals

text \<open>\<open>addr\<close> is the address of the server (UDP) or the local address (TCP).\<close>

definition start :: "rz_env \<Rightarrow> string \<Rightarrow> TargetAddr \<Rightarrow> mediator_state \<Rightarrow> med_loop \<times> mediator_state" where
  "start e host addr s =
     (let rz = mediator_new (rz_match e) host addr
      in if uses_tcp (med_settings s) then (let (l, s) = tcp_begin e rz s in (TcpLoop rz l, s))
         else (UdpLoop rz (udp_locals_new e), s))"

text \<open>
  One round of \<open>start_all\<close>: which servers a loop is started for (\<open>None\<close>: the service is stopped and
  the connections are closed), and what happens when all loops have ended; \<open>quick\<close> says that
  one of them failed with error 10054 or 11001.  The round ends with a pause in milliseconds.
\<close>

definition begin_round :: "bool \<Rightarrow> mediator_state \<Rightarrow> string list option \<times> mediator_state" where
  "begin_round installing s =
     (let s = s\<lparr>SOLVING_PK_MISMATCH := ''''\<rparr> in
      if \<not> option2bool ''stop-service'' (get_option (med_settings s) ''stop-service'') \<and> \<not> installing
      then (Some (get_rendezvous_servers (med_settings s)), s\<lparr>SHOULD_EXIT := False, MANUAL_RESTARTED := False\<rparr>)
      else (None, s))"

definition end_round :: "bool \<Rightarrow> nat \<Rightarrow> mediator_state \<Rightarrow> nat \<times> mediator_state" where
  "end_round quick elapsed_time s =
     (let s = on_settings reset_online s;
          timeout = (if quick then 3000 else CONNECT_TIMEOUT)
      in (if \<not> MANUAL_RESTARTED s then
            (if elapsed_time < timeout then (timeout - elapsed_time) div 1000 * 1000 else 0)
          else 33, s))"

section \<open>Requests for connections\<close>

definition get_relay_server :: "rz_env \<Rightarrow> RendezvousMediator \<Rightarrow> settings \<Rightarrow> string \<Rightarrow> string" where
  "get_relay_server e rz st provided_by_rendezvous_server =
     (let relay_server = get_option st ''relay-server'';
          relay_server = (if relay_server = '''' then provided_by_rendezvous_server else relay_server)
      in if relay_server = '''' then increase_port (rz_match e) (rz_host rz) 1 else relay_server)"

definition create_relay ::
    "rz_env \<Rightarrow> RendezvousMediator \<Rightarrow> bytes \<Rightarrow> string \<Rightarrow> string \<Rightarrow> bool \<Rightarrow> bool \<Rightarrow> bytes \<Rightarrow> u64 option \<Rightarrow> mediator_state
      \<Rightarrow> (string + unit) \<times> mediator_state" where
  "create_relay e rz socket_addr relay_server relay_id secure initiate socket_addr_v6 control_permissions s =
     (let peer_addr = mangle_decode socket_addr in
      case tcp_to_host e of
        Inl err \<Rightarrow> (Inl err, s)
      | Inr _ \<Rightarrow>
          (let (initiated, st) = (if initiate then (let (i, st) = get_id (rz_machine e) (med_settings s)
                                                   in (Some (relay_id, relay_server, i), st))
                                  else (None, med_settings s));
               s = s\<lparr>med_settings := st\<rparr>
           in (case rz_send_error e of
                 Some err \<Rightarrow> (Inl err, s)
               | None \<Rightarrow>
                   (Inr (),
                    effect (RelayConnection relay_server relay_id peer_addr secure (is_ipv4 (rz_addr rz)) control_permissions)
                      (effect (Sent (rz_host rz) (RelayResponse socket_addr socket_addr_v6 initiated)) s)))))"

text \<open>\<open>last.0 == addr && last.1.elapsed().as_millis() < 100\<close>\<close>

definition is_duplicate :: "rz_env \<Rightarrow> SocketAddr \<times> nat \<Rightarrow> SocketAddr \<Rightarrow> bool" where
  "is_duplicate e last_msg addr \<longleftrightarrow> fst last_msg = addr \<and> (now e - snd last_msg) div 1000 < 100"

definition handle_request_relay :: "rz_env \<Rightarrow> RendezvousMediator \<Rightarrow> RequestRelay \<Rightarrow> mediator_state \<Rightarrow> (string + unit) \<times> mediator_state" where
  "handle_request_relay e rz rr s =
     (let addr = mangle_decode (rr_socket_addr rr);
          last_msg = LAST_RELAY_MSG s;
          s = s\<lparr>LAST_RELAY_MSG := (addr, now e)\<rparr>
      in if is_duplicate e last_msg addr then (Inr (), s)
         else create_relay e rz (rr_socket_addr rr) (rr_relay_server rr) (rr_uuid rr) (rr_secure rr) False []
                (rr_control_permissions rr) s)"

definition start_ipv6 :: "rz_env \<Rightarrow> SocketAddr \<Rightarrow> SocketAddr \<Rightarrow> u64 option \<Rightarrow> mediator_state \<Rightarrow> bytes \<times> mediator_state" where
  "start_ipv6 e peer_addr_v6 peer_addr_v4 control_permissions s =
     (case ipv6_socket e of
        Some local_addr_v6 \<Rightarrow> (local_addr_v6, effect (UdpNatListen peer_addr_v6 peer_addr_v4 control_permissions) s)
      | None \<Rightarrow> ([], s))"

text \<open>An IPv6 address printed without brackets does not parse, so only an IPv4 local address gets through.\<close>

definition handle_intranet_inner ::
    "rz_env \<Rightarrow> RendezvousMediator \<Rightarrow> FetchLocalAddr \<Rightarrow> string \<Rightarrow> bytes \<Rightarrow> mediator_state \<Rightarrow> (string + unit) \<times> mediator_state" where
  "handle_intranet_inner e rz fla relay_server socket_addr_v6 s =
     (let peer_addr = mangle_decode (fla_socket_addr fla) in
      case tcp_to_host e of
        Inl err \<Rightarrow> (Inl err, s)
      | Inr (V6 _ _ _ _) \<Rightarrow> (Inl ''invalid socket address syntax'', s)
      | Inr (V4 ip port) \<Rightarrow>
          (let (i, st) = get_id (rz_machine e) (med_settings s);
               s = s\<lparr>med_settings := st\<rparr>
           in (case rz_send_error e of
                 Some err \<Rightarrow> (Inl err, s)
               | None \<Rightarrow>
                   (Inr (),
                    effect (AcceptConnection peer_addr True (fla_control_permissions fla))
                      (effect (Sent (rz_host rz) (LocalAddr i (mangle_encode (mangle_time e) peer_addr)
                          (mangle_encode (mangle_time e) (V4 ip port)) relay_server socket_addr_v6)) s)))))"

definition handle_intranet :: "rz_env \<Rightarrow> RendezvousMediator \<Rightarrow> FetchLocalAddr \<Rightarrow> mediator_state \<Rightarrow> (string + unit) \<times> mediator_state" where
  "handle_intranet e rz fla s =
     (let addr = mangle_decode (fla_socket_addr fla);
          last_msg = LAST_MSG s;
          s = s\<lparr>LAST_MSG := (addr, now e)\<rparr>
      in if is_duplicate e last_msg addr then (Inr (), s)
         else
           let peer_addr_v6 = mangle_decode (fla_socket_addr_v6 fla);
               relay_server = get_relay_server e rz (med_settings s) (fla_relay_server fla);
               relay = use_ws (med_settings s) \<or> is_proxy (med_settings s);
               (socket_addr_v6, s) =
                 (if addr_port peer_addr_v6 > 0 \<and> \<not> relay
                  then start_ipv6 e peer_addr_v6 addr (fla_control_permissions fla) s else ([], s));
               (failed, s) =
                 (if is_ipv4 (rz_addr rz) \<and> \<not> relay \<and> \<not> is_disable_tcp_listen (med_settings s)
                  then (let (r, s) = handle_intranet_inner e rz fla relay_server socket_addr_v6 s in (isl r, s))
                  else (True, s))
           in if \<not> failed then (Inr (), s)
              else create_relay e rz (fla_socket_addr fla) relay_server (new_uuid e) True True socket_addr_v6
                     (fla_control_permissions fla) s)"

definition SYMMETRIC :: int where "SYMMETRIC = 2"

definition set_port :: "u16 \<Rightarrow> SocketAddr \<Rightarrow> SocketAddr" where
  "set_port p a = (case a of V4 ip _ \<Rightarrow> V4 ip p | V6 ip _ f sc \<Rightarrow> V6 ip p f sc)"

definition udp_nat_listen :: "rz_env \<Rightarrow> SocketAddr \<Rightarrow> SocketAddr \<Rightarrow> u64 option \<Rightarrow> mediator_state \<Rightarrow> (string + unit) \<times> mediator_state" where
  "udp_nat_listen e peer_addr peer_addr_v4 control_permissions s =
     (let s = effect (UdpNatListen peer_addr peer_addr_v4 control_permissions) s
      in (case nat_listen_error e of Some err \<Rightarrow> (Inl err, s) | None \<Rightarrow> (Inr (), s)))"

text \<open>The first copy of the message must be sent; the errors of the two that follow are ignored.\<close>

definition punch_udp_hole ::
    "rz_env \<Rightarrow> RendezvousMediator \<Rightarrow> SocketAddr \<Rightarrow> rz_out \<Rightarrow> u64 option \<Rightarrow> mediator_state \<Rightarrow> (string + unit) \<times> mediator_state" where
  "punch_udp_hole e rz peer_addr msg_punch control_permissions s =
     (case udp_to_host e of
        Inl err \<Rightarrow> (Inl err, s)
      | Inr _ \<Rightarrow>
          (case rz_send_error e of
             Some err \<Rightarrow> (Inl err, s)
           | None \<Rightarrow> udp_nat_listen e peer_addr peer_addr control_permissions (effect (Sent (rz_host rz) msg_punch) s)))"

definition relays :: "settings \<Rightarrow> PunchHole \<Rightarrow> bool" where
  "relays st ph \<longleftrightarrow> ph_nat_type ph = SYMMETRIC \<or> get_nat_type st = SYMMETRIC
     \<or> use_ws st \<or> is_proxy st \<or> ph_force_relay ph \<or> (is_disable_tcp_listen st \<and> ph_udp_port ph \<le> 0)"

definition handle_punch_hole :: "rz_env \<Rightarrow> RendezvousMediator \<Rightarrow> PunchHole \<Rightarrow> mediator_state \<Rightarrow> (string + unit) \<times> mediator_state" where
  "handle_punch_hole e rz ph s =
     (let peer_addr = mangle_decode (ph_socket_addr ph);
          last_msg = LAST_MSG s;
          s = s\<lparr>LAST_MSG := (peer_addr, now e)\<rparr>
      in if is_duplicate e last_msg peer_addr then (Inr (), s)
         else
           let peer_addr_v6 = mangle_decode (ph_socket_addr_v6 ph);
               relay = use_ws (med_settings s) \<or> is_proxy (med_settings s) \<or> ph_force_relay ph;
               control_permissions = ph_control_permissions ph;
               (socket_addr_v6, s) =
                 (if addr_port peer_addr_v6 > 0 \<and> \<not> relay
                  then start_ipv6 e peer_addr_v6 peer_addr control_permissions s else ([], s));
               relay_server = get_relay_server e rz (med_settings s) (ph_relay_server ph)
           in if relays (med_settings s) ph
              then create_relay e rz (ph_socket_addr ph) relay_server (new_uuid e) True True socket_addr_v6 control_permissions s
              else
                let nat_type = (if get_nat_type (med_settings s) \<in> {0, 1, 2} then get_nat_type (med_settings s) else 0);
                    (i, st) = get_id (rz_machine e) (med_settings s);
                    s = s\<lparr>med_settings := st\<rparr>;
                    msg_punch = PunchHoleSent (ph_socket_addr ph) i relay_server nat_type socket_addr_v6
                in if ph_udp_port ph > 0
                   then punch_udp_hole e rz (set_port (of_int (ph_udp_port ph)) peer_addr) msg_punch control_permissions s
                   else (case tcp_to_host e of
                     Inl err \<Rightarrow> (Inl err, s)
                   | Inr _ \<Rightarrow>
                       let s = effect (PunchTcp peer_addr) s
                       in (case rz_send_error e of
                             Some err \<Rightarrow> (Inl err, s)
                           | None \<Rightarrow>
                               (Inr (), effect (AcceptConnection peer_addr True control_permissions)
                                  (effect (Sent (rz_host rz) msg_punch) s)))))"

definition run_task :: "rz_env \<Rightarrow> rz_task \<Rightarrow> mediator_state \<Rightarrow> (string + unit) \<times> mediator_state" where
  "run_task e t s =
     (case t of
        HandlePunchHole rz ph \<Rightarrow> handle_punch_hole e rz ph s
      | HandleRequestRelay rz rr \<Rightarrow> handle_request_relay e rz rr s
      | HandleIntranet rz fla \<Rightarrow> handle_intranet e rz fla s)"

section \<open>Direct access\<close>

definition get_direct_port :: "settings \<Rightarrow> int" where
  "get_direct_port st =
     (let port = (case parse_i32 (get_option st ''direct-access-port'') of Some p \<Rightarrow> p | None \<Rightarrow> 0)
      in if port \<le> 0 then RENDEZVOUS_PORT + 2 else port)"

text \<open>
  The loop of \<open>direct_server\<close>: the port it listens on, if it does; the variable \<open>port\<close>; and whether it waits,
  after a failed listen, for the port to be changed.  \<open>listens\<close> says which ports can be listened on (after the cast to
  \<open>u16\<close>), \<open>incoming\<close> is the connection accepted within the second, if any.
\<close>

record direct_state =
  listener :: "u16 option"
  direct_port :: int
  port_wait :: bool

definition direct_disabled :: "settings \<Rightarrow> bool" where
  "direct_disabled st \<longleftrightarrow> \<not> option2bool ''direct-server'' (get_option st ''direct-server'')
     \<or> option2bool ''stop-service'' (get_option st ''stop-service'')"

definition direct_turn :: "(u16 \<Rightarrow> bool) \<Rightarrow> SocketAddr option \<Rightarrow> direct_state \<Rightarrow> mediator_state \<Rightarrow> direct_state \<times> mediator_state" where
  "direct_turn listens incoming d s =
     (let st = med_settings s in
      if port_wait d then
        (if direct_port d \<noteq> get_direct_port st then (d\<lparr>port_wait := False\<rparr>, s) else (d, s))
      else
        let disabled = direct_disabled st;
            d = (if \<not> disabled \<and> listener d = None then
                   let p = get_direct_port st
                   in if listens (of_int p) then d\<lparr>direct_port := p, listener := Some (of_int p)\<rparr>
                      else d\<lparr>direct_port := p, port_wait := True\<rparr>
                 else d)
        in if listener d \<noteq> None then
             (if disabled \<or> direct_port d \<noteq> get_direct_port st then (d\<lparr>listener := None\<rparr>, s)
              else (case incoming of Some addr \<Rightarrow> (d, effect (DirectConnection addr) s) | None \<Rightarrow> (d, s)))
           else (d, s))"

section \<open>Runs of several loops\<close>

datatype loop_event = Packet rz_recv | Tick

fun loop_turn :: "rz_env \<Rightarrow> loop_event \<Rightarrow> med_loop \<Rightarrow> mediator_state \<Rightarrow> turn \<times> med_loop \<times> mediator_state" where
  "loop_turn e (Packet p) (UdpLoop rz l) s = (let (t, rz, l, s) = udp_packet e p rz l s in (t, UdpLoop rz l, s))"
| "loop_turn e Tick (UdpLoop rz l) s = (let (t, rz, l, s) = udp_tick e rz l s in (t, UdpLoop rz l, s))"
| "loop_turn e (Packet p) (TcpLoop rz l) s = (let (t, rz, l, s) = tcp_packet e p rz l s in (t, TcpLoop rz l, s))"
| "loop_turn e Tick (TcpLoop rz l) s = (let (t, rz, l, s) = tcp_tick e rz l s in (t, TcpLoop rz l, s))"

text \<open>
  The loops of all servers share the state.  A step is a turn of one loop, a spawned task, or one of the two ways in which
  other parts of the program take the confirmation of the key back: the handshake of a connection, and a changed key.
\<close>

datatype med_step = LoopStep nat rz_env loop_event | TaskStep rz_env rz_task | KeyUnconfirmed | ResendCheck "bytes option"

fun med_apply :: "med_step \<Rightarrow> med_loop list \<times> mediator_state \<Rightarrow> med_loop list \<times> mediator_state" where
  "med_apply (LoopStep i e ev) (ls, s) =
     (if i < length ls then let (t, l, s) = loop_turn e ev (ls ! i) s in (ls[i := l], s) else (ls, s))"
| "med_apply (TaskStep e t) (ls, s) = (ls, snd (run_task e t s))"
| "med_apply KeyUnconfirmed (ls, s) = (ls, on_settings (set_key_confirmed False) s)"
| "med_apply (ResendCheck pk) (ls, s) = (ls, CheckIfResendPk_drop pk s)"

definition med_run :: "med_step list \<Rightarrow> med_loop list \<times> mediator_state \<Rightarrow> med_loop list \<times> mediator_state" where
  "med_run steps st = fold med_apply steps st"

end
