(* ===== verification/Registration.thy ===== *)
theory Registration
  imports Rendezvous
begin

text \<open>
  Properties of the rendezvous mediator: a machine registers only where its key is confirmed, one server at a time solves a
  mismatch of the identity, the back-off of the registration stays in bounds, a server that does not answer is noticed, and the
  requests the servers pass on open secure connections.
\<close>

section \<open>What tasks do to the state\<close>

text \<open>Whether an effect opens a connection, if it is asked to be secure, and with which permissions.\<close>

fun opens :: "rz_effect \<Rightarrow> (bool \<times> u64 option) option" where
  "opens (Sent _ _) = None"
| "opens (RelayConnection _ _ _ secure _ perms) = Some (secure, perms)"
| "opens (AcceptConnection _ secure perms) = Some (secure, perms)"
| "opens (UdpNatListen _ _ perms) = Some (True, perms)"
| "opens (PunchTcp _) = None"
| "opens (DirectConnection _) = Some (False, None)"

fun task_perms :: "rz_task \<Rightarrow> u64 option" where
  "task_perms (HandlePunchHole _ ph) = ph_control_permissions ph"
| "task_perms (HandleRequestRelay _ rr) = rr_control_permissions rr"
| "task_perms (HandleIntranet _ fla) = fla_control_permissions fla"

fun asks_clear :: "rz_task \<Rightarrow> bool" where
  "asks_clear (HandleRequestRelay _ rr) = (\<not> rr_secure rr)"
| "asks_clear _ = False"

text \<open>Which way a request to punch a hole goes: relays only where it must, punches only where it may.\<close>

fun routed :: "mediator_state \<Rightarrow> rz_task \<Rightarrow> rz_effect \<Rightarrow> bool" where
  "routed s (HandlePunchHole _ ph) (RelayConnection _ _ _ _ _ _) = relays (med_settings s) ph"
| "routed s (HandlePunchHole _ ph) (AcceptConnection _ _ _) = (\<not> relays (med_settings s) ph \<and> ph_udp_port ph \<le> 0)"
| "routed s (HandleRequestRelay _ _) (AcceptConnection _ _ _) = False"
| "routed s (HandleIntranet _ _) (AcceptConnection _ _ _) = (\<not> use_ws (med_settings s) \<and> \<not> is_proxy (med_settings s))"
| "routed s _ _ = True"

fun task_message :: "rz_out \<Rightarrow> bool" where
  "task_message (RelayResponse _ _ _) = True"
| "task_message (LocalAddr _ _ _ _ _) = True"
| "task_message (PunchHoleSent _ _ _ _ _) = True"
| "task_message _ = False"

text \<open>The effects a task may have.\<close>

definition fine :: "mediator_state \<Rightarrow> rz_task \<Rightarrow> rz_effect \<Rightarrow> bool" where
  "fine s t x \<longleftrightarrow> (case opens x of Some (secure, perms) \<Rightarrow> perms = task_perms t \<and> (secure \<or> asks_clear t) | None \<Rightarrow> True)
     \<and> routed s t x \<and> (case x of Sent _ m \<Rightarrow> task_message m | _ \<Rightarrow> True)"

lemma fine_simps [simp]:
  "fine s t (Sent h m) \<longleftrightarrow> task_message m" "fine s t (PunchTcp a)" "fine s t (UdpNatListen a b (task_perms t))"
  by (cases t; simp add: fine_def)+

text \<open>
  A relation between the states before and after that every elementary change of a task respects: it
  then holds for whole tasks, if it admits their effects.
\<close>

locale task_order =
  fixes R :: "mediator_state \<Rightarrow> mediator_state \<Rightarrow> bool" and Ok :: "rz_effect \<Rightarrow> bool"
  assumes R_refl: "R s s"
    and R_trans: "R s s' \<Longrightarrow> R s' s'' \<Longrightarrow> R s s''"
    and R_effect: "Ok x \<Longrightarrow> R s (effect x s)"
    and R_id: "R s (s\<lparr>med_settings := snd (get_id m (med_settings s))\<rparr>)"
    and R_last: "R s (s\<lparr>LAST_MSG := l\<rparr>)" "R s (s\<lparr>LAST_RELAY_MSG := l\<rparr>)"
begin

lemma then_effect: "R s s' \<Longrightarrow> Ok x \<Longrightarrow> R s (effect x s')"
  by (blast intro: R_trans R_effect)

lemma then_id: "R s s' \<Longrightarrow> R s (s'\<lparr>med_settings := snd (get_id m (med_settings s'))\<rparr>)"
  by (blast intro: R_trans R_id)

lemma relay_step:
  assumes "R s0 s" "\<And>h m. task_message m \<Longrightarrow> Ok (Sent h m)" "\<And>a b. Ok (RelayConnection relay u a secure b cp)"
  shows "R s0 (snd (create_relay e rz sa relay u secure initiate v6 cp s))"
  using assms(1) then_id [OF assms(1)] by (auto simp: create_relay_def Let_def case_prod_unfold intro!: then_effect assms(2,3) split: sum.splits option.splits)

lemma ipv6_step:
  assumes "(if c then start_ipv6 e a b cp s else ([], s)) = (v6, s')" "R s0 s" "Ok (UdpNatListen a b cp)"
  shows "R s0 s' \<and> med_settings s' = med_settings s"
  using assms then_effect [OF assms(2,3)] by (auto simp: start_ipv6_def effect_def split: option.splits if_splits)

lemma inner_step:
  assumes "R s0 s" "\<And>h m. task_message m \<Longrightarrow> Ok (Sent h m)" "\<And>a. Ok (AcceptConnection a True (fla_control_permissions fla))"
  shows "R s0 (snd (handle_intranet_inner e rz fla relay v6 s))"
  using assms(1) then_id [OF assms(1)]
  by (auto simp: handle_intranet_inner_def Let_def case_prod_unfold intro!: then_effect assms(2,3) split: sum.splits SocketAddr.splits option.splits)

lemma udp_step:
  assumes "R s0 s" "\<And>h. Ok (Sent h m)" "\<And>a b. Ok (UdpNatListen a b cp)"
  shows "R s0 (snd (punch_udp_hole e rz a m cp s))"
  using assms by (auto simp: punch_udp_hole_def udp_nat_listen_def Let_def intro!: then_effect split: sum.splits option.splits)

lemma task_step:
  assumes "\<And>x. fine s t x \<Longrightarrow> Ok x"
  shows "R s (snd (run_task e t s))"
proof (cases t)
  case (HandleRequestRelay rz rr)
  show ?thesis
    unfolding run_task_def HandleRequestRelay rz_task.case handle_request_relay_def Let_def
    using R_last(2) by (auto intro!: relay_step assms simp: HandleRequestRelay fine_def)
next
  case (HandleIntranet rz fla)
  let ?s = "s\<lparr>LAST_MSG := (mangle_decode (fla_socket_addr fla), now e)\<rparr>" and ?cp = "fla_control_permissions fla"
  obtain v6 s1 where 1: "(if addr_port (mangle_decode (fla_socket_addr_v6 fla)) > 0 \<and> \<not> (use_ws (med_settings ?s) \<or> is_proxy (med_settings ?s))
      then start_ipv6 e (mangle_decode (fla_socket_addr_v6 fla)) (mangle_decode (fla_socket_addr fla)) ?cp ?s
      else ([], ?s)) = (v6, s1)" by (metis surj_pair)
  have "Ok (UdpNatListen a b ?cp)" for a b using fine_simps(3) [of s t] by (intro assms) (simp add: HandleIntranet)
  then have s1: "R s s1" using ipv6_step [OF 1 R_last(1)] by blast
  have inner: "R s (snd (handle_intranet_inner e rz fla relay v6 s1))" if "\<not> (use_ws (med_settings s) \<or> is_proxy (med_settings s))" for relay
    using that s1 by (intro inner_step assms) (simp_all add: HandleIntranet fine_def)
  have relay: "R s (snd (create_relay e rz sa relay u True True v6 ?cp s2))" if "R s s2" for sa relay u s2
    using that by (intro relay_step assms) (simp_all add: HandleIntranet fine_def)
  show ?thesis
    using R_last(1) [of s] s1 inner relay [OF s1] relay [OF inner]
    unfolding run_task_def HandleIntranet rz_task.case handle_intranet_def Let_def 1 prod.case
    by (simp add: case_prod_unfold)
next
  case (HandlePunchHole rz ph)
  let ?s = "s\<lparr>LAST_MSG := (mangle_decode (ph_socket_addr ph), now e)\<rparr>" and ?cp = "ph_control_permissions ph"
  obtain v6 s1 where 1: "(if addr_port (mangle_decode (ph_socket_addr_v6 ph)) > 0
        \<and> \<not> (use_ws (med_settings ?s) \<or> is_proxy (med_settings ?s) \<or> ph_force_relay ph)
      then start_ipv6 e (mangle_decode (ph_socket_addr_v6 ph)) (mangle_decode (ph_socket_addr ph)) ?cp ?s
      else ([], ?s)) = (v6, s1)" by (metis surj_pair)
  have udpOk: "Ok (UdpNatListen a b ?cp)" for a b using fine_simps(3) [of s t] by (intro assms) (simp add: HandlePunchHole)
  then have s1: "R s s1" "med_settings s1 = med_settings s" using ipv6_step [OF 1 R_last(1)] by simp_all
  let ?s2 = "s1\<lparr>med_settings := snd (get_id (rz_machine e) (med_settings s1))\<rparr>"
  have s2: "R s ?s2" using s1(1) by (rule then_id)
  have relay: "R s (snd (create_relay e rz sa relay u True True v6 ?cp s1))" if "relays (med_settings s) ph" for sa relay u
    using that s1(1) by (intro relay_step assms) (simp_all add: HandlePunchHole fine_def)
  have udp: "R s (snd (punch_udp_hole e rz a (PunchHoleSent b c d f g) ?cp ?s2))" for a b c d f g
    using s2 by (intro udp_step assms udpOk) simp_all
  have acc: "Ok (AcceptConnection a True ?cp)" if "\<not> relays (med_settings s) ph" "\<not> 0 < ph_udp_port ph" for a
    using that by (intro assms) (simp add: fine_def HandlePunchHole)
  have "Ok (PunchTcp a)" "Ok (Sent h (PunchHoleSent b c d f g))" for a h b c d f g by (intro assms; simp)+
  then show ?thesis
    using R_last(1) [of s] relay udp acc s2 s1(2)
    unfolding run_task_def HandlePunchHole rz_task.case handle_punch_hole_def Let_def 1 prod.case
    by (auto simp: case_prod_unfold intro!: then_effect split: sum.splits option.splits)
qed

end

section \<open>Who may register\<close>

named_theorems keys_kept \<open>operations that leave the confirmed keys alone\<close>

lemma keys_kept_ops [keys_kept]:
  "keys_confirmed (CONFIG (set_option k v st)) = keys_confirmed (CONFIG st)"
  "keys_confirmed (CONFIG (set_id i st)) = keys_confirmed (CONFIG st)"
  "keys_confirmed (CONFIG (snd (get_id m st))) = keys_confirmed (CONFIG st)"
  "keys_confirmed (CONFIG (update_id m r st)) = keys_confirmed (CONFIG st)"
  "keys_confirmed (CONFIG (snd (get_key_pair fresh st))) = keys_confirmed (CONFIG st)"
  "keys_confirmed (CONFIG (set_serial n st)) = keys_confirmed (CONFIG st)"
  "keys_confirmed (CONFIG (update_latency h l st)) = keys_confirmed (CONFIG st)"
  by (simp_all add: set_option_def set_id_def get_id_def update_id_def get_key_pair_def set_serial_def update_latency_def
      Let_def case_prod_unfold split: option.splits)

definition confirmed :: "mediator_state \<Rightarrow> string set" where
  "confirmed s = {p. get_host_key_confirmed (med_settings s) p}"

definition registered :: "mediator_state \<Rightarrow> string set" where
  "registered s = {h. \<exists>i n. Sent h (RegisterPeer i n) \<in> set (effects s)}"

text \<open>A step between two states that confirms at most the prefixes of \<open>C\<close> and registers at most with the hosts of \<open>H\<close>.\<close>

definition adds :: "string set \<Rightarrow> string set \<Rightarrow> mediator_state \<Rightarrow> mediator_state \<Rightarrow> bool" where
  "adds C H s s' \<longleftrightarrow> confirmed s' \<subseteq> confirmed s \<union> C \<and> registered s' \<subseteq> registered s \<union> H"

lemma adds_refl [simp, intro]: "adds C H s s"
  by (simp add: adds_def)

lemma adds_trans: "adds C H s s' \<Longrightarrow> adds C H s' s'' \<Longrightarrow> adds C H s s''"
  by (auto simp: adds_def)

lemma adds_mono: "adds C H s s' \<Longrightarrow> C \<subseteq> C' \<Longrightarrow> H \<subseteq> H' \<Longrightarrow> adds C' H' s s'"
  by (auto simp: adds_def)

lemma adds_effect: "(\<And>h i n. x = Sent h (RegisterPeer i n) \<Longrightarrow> h \<in> H) \<Longrightarrow> adds C H s (effect x s)"
  by (auto simp: adds_def effect_def confirmed_def registered_def)

lemma adds_same: "keys_confirmed (CONFIG (med_settings s')) = keys_confirmed (CONFIG (med_settings s)) \<Longrightarrow> effects s' = effects s
  \<Longrightarrow> adds C H s s'"
  by (simp add: adds_def confirmed_def registered_def get_host_key_confirmed_def)

lemma adds_on_settings:
  "(\<And>st. keys_confirmed (CONFIG (f st)) = keys_confirmed (CONFIG st)) \<Longrightarrow> adds C H s (on_settings f s)"
  by (rule adds_same) (simp_all add: on_settings_def)

lemma set_key_confirmed_host: "get_host_key_confirmed (set_key_confirmed b st) p \<Longrightarrow> get_host_key_confirmed st p"
  by (auto simp: set_key_confirmed_def get_host_key_confirmed_def Let_def split: if_splits)

lemma adds_unconfirm: "adds C H s (on_settings (set_key_confirmed b) s)"
  using set_key_confirmed_host by (auto simp: adds_def confirmed_def registered_def on_settings_def)

lemma adds_confirm: "adds {p} H s (on_settings (set_host_key_confirmed p True \<circ> set_key_confirmed True) s)"
proof -
  have "get_host_key_confirmed (set_host_key_confirmed p True st) q \<Longrightarrow> q = p \<or> get_host_key_confirmed st q" for q st
    by (auto simp: set_host_key_confirmed_def get_host_key_confirmed_def split: if_splits)
  then show ?thesis using set_key_confirmed_host
    by (fastforce simp: adds_def confirmed_def registered_def on_settings_def)
qed

lemma adds_fields [simp]:
  "adds C H s (s'\<lparr>SOLVING_PK_MISMATCH := h\<rparr>) \<longleftrightarrow> adds C H s s'"
  "adds C H s (s'\<lparr>SENT_REGISTER_PK := b\<rparr>) \<longleftrightarrow> adds C H s s'"
  "adds C H s (s'\<lparr>tasks := ts\<rparr>) \<longleftrightarrow> adds C H s s'"
  "adds C H s (restart s') \<longleftrightarrow> adds C H s s'"
  by (simp_all add: adds_def confirmed_def registered_def restart_def)

lemma adds_other_effect [simp]:
  "(\<And>h i n. x \<noteq> Sent h (RegisterPeer i n)) \<Longrightarrow> adds C H s (effect x s') \<longleftrightarrow> adds C H s s'"
proof -
  assume "\<And>h i n. x \<noteq> Sent h (RegisterPeer i n)"
  then have "registered (effect x s') = registered s'" by (simp add: registered_def effect_def) metis
  then show ?thesis by (simp add: adds_def confirmed_def effect_def)
qed

lemma register_pk_adds:
  assumes "register_pk e rz s = (r, s')"
  shows "adds C H s s'"
proof -
  have "adds C H s (s\<lparr>med_settings := snd (get_id (rz_machine e) (snd (get_key_pair (rz_fresh_pair e) (med_settings s))))\<rparr>)"
    by (rule adds_same) (simp_all add: keys_kept)
  with assms show ?thesis by (auto simp: register_pk_def Let_def case_prod_unfold split: option.splits)
qed

lemma register_peer_adds:
  assumes "register_peer e rz s = (r, s')"
  shows "adds {} (if rz_host_prefix rz \<in> confirmed s then {rz_host rz} else {}) s s'"
proof (cases "register_pk e rz s = (r, s') \<or> s' = s")
  case True
  then show ?thesis using register_pk_adds by auto
next
  case False
  let ?s = "s\<lparr>med_settings := snd (get_id (rz_machine e) (med_settings s))\<rparr>"
  have 1: "adds {} {rz_host rz} s ?s" by (rule adds_same) (simp_all add: keys_kept)
  have "adds {} {rz_host rz} ?s (effect (Sent (rz_host rz) (RegisterPeer i n)) ?s)" for i n
    by (rule adds_effect) simp
  with False assms 1 adds_trans [OF 1] show ?thesis
    by (auto simp: register_peer_def Let_def case_prod_unfold confirmed_def split: if_splits option.splits)
qed

lemma handle_uuid_mismatch_adds:
  assumes "handle_uuid_mismatch e rz s = (r, s')"
  shows "adds C H s s'"
proof -
  let ?s = "(on_settings (update_id (rz_machine e) (rz_random_id e) \<circ> set_key_confirmed False) s)\<lparr>SOLVING_PK_MISMATCH := rz_host rz\<rparr>"
  have "adds C H s (on_settings (set_key_confirmed False) s)" by (rule adds_unconfirm)
  moreover have "adds C H (on_settings (set_key_confirmed False) s) ?s"
    by (rule adds_same) (simp_all add: on_settings_def keys_kept)
  ultimately have "adds C H s ?s" by (rule adds_trans)
  then have "register_pk e rz ?s = (r, s') \<Longrightarrow> ?thesis" by (blast intro: adds_trans register_pk_adds)
  with assms show ?thesis by (simp add: handle_uuid_mismatch_def Let_def split: if_splits)
qed

definition is_ok :: "rz_recv \<Rightarrow> bool" where
  "is_ok p \<longleftrightarrow> (\<exists>k. p = Msg (RegisterPkResponse PkOK k))"

lemma same_host_keep_alive [simp]:
  "rz_host (if b then rz\<lparr>rz_keep_alive := k\<rparr> else rz) = rz_host rz"
  "rz_host_prefix (if b then rz\<lparr>rz_keep_alive := k\<rparr> else rz) = rz_host_prefix rz"
  by auto

lemma handle_resp_adds:
  assumes "handle_resp e upd msg rz l s = (r, rz', l', s')"
    and upd: "\<And>C H l s. adds C H s (snd (upd (l, s)))"
  shows "adds (if is_ok (Msg msg) then {rz_host_prefix rz} else {}) {} s s' \<and> rz_host rz' = rz_host rz \<and> rz_host_prefix rz' = rz_host_prefix rz"
proof (cases msg)
  case (RegisterPeerResponse b)
  obtain l1 s1 where u: "upd (l, s) = (l1, s1)" by (cases "upd (l, s)")
  have "adds {} {} s s1" using upd [where l = l and s = s] by (simp add: u)
  with assms(1) RegisterPeerResponse show ?thesis
    by (auto simp: handle_resp_def is_ok_def u Let_def split: if_splits prod.splits intro: adds_trans register_pk_adds)
next
  case (RegisterPkResponse result k)
  obtain l1 s1 where u: "upd (l, s) = (l1, s1)" by (cases "upd (l, s)")
  have 1: "adds C H s s1" for C H using upd [where l = l and s = s] by (simp add: u)
  show ?thesis
  proof (cases result)
    case PkOK
    with assms(1) RegisterPkResponse show ?thesis
      using adds_trans [OF 1 adds_confirm] by (auto simp: handle_resp_def is_ok_def u Let_def)
  next
    case UUID_MISMATCH
    then show ?thesis using assms(1) RegisterPkResponse adds_trans [OF 1 handle_uuid_mismatch_adds]
      by (auto simp: handle_resp_def is_ok_def u Let_def split: prod.splits sum.splits)
  next
    case PkOther
    then show ?thesis using assms(1) RegisterPkResponse 1
      by (auto simp: handle_resp_def is_ok_def u Let_def)
  qed
next
  case (ConfigureUpdate n servers)
  have "adds {} {} s (on_settings (set_serial n \<circ> set_option ''rendezvous-servers'' (join_str '','' servers)) s)"
    by (rule adds_on_settings) (simp add: keys_kept)
  with assms(1) ConfigureUpdate show ?thesis by (auto simp: handle_resp_def is_ok_def Let_def)
qed (use assms(1) in \<open>auto simp: handle_resp_def is_ok_def\<close>)

lemma note_timeout_adds:
  assumes "note_timeout e rz l s = (r, rz', l', s')"
  shows "adds {} {} s s' \<and> confirmed s' = confirmed s \<and> rz_host rz' = rz_host rz \<and> rz_host_prefix rz' = rz_host_prefix rz"
proof -
  have "confirmed (on_settings (update_latency h n) s) = confirmed s" for h n
    by (simp add: confirmed_def on_settings_def get_host_key_confirmed_def keys_kept)
  moreover have "adds {} {} s (on_settings (update_latency h n) s)" for h n
    by (rule adds_on_settings) (simp add: keys_kept)
  ultimately show ?thesis using assms
    by (auto simp: note_timeout_def Let_def split: if_splits sum.splits option.splits)
qed

text \<open>One turn of a loop: the mediator keeps its host, only an OK confirms, and only a confirmed host is registered with.\<close>

definition turn_adds :: "bool \<Rightarrow> RendezvousMediator \<Rightarrow> mediator_state \<Rightarrow> RendezvousMediator \<Rightarrow> mediator_state \<Rightarrow> bool" where
  "turn_adds ok rz s rz' s' \<longleftrightarrow>
     adds (if ok then {rz_host_prefix rz} else {}) (if rz_host_prefix rz \<in> confirmed s then {rz_host rz} else {}) s s'
   \<and> rz_host rz' = rz_host rz \<and> rz_host_prefix rz' = rz_host_prefix rz"

lemma turn_addsI: "adds {} {} s s' \<Longrightarrow> rz_host rz' = rz_host rz \<Longrightarrow> rz_host_prefix rz' = rz_host_prefix rz \<Longrightarrow> turn_adds ok rz s rz' s'"
  by (auto simp: turn_adds_def intro: adds_mono)

lemma send_again_adds:
  assumes "send_again e timeout rz l s = (t, rz', l', s')"
  shows "turn_adds False rz s rz' s'"
proof -
  obtain r rz1 l1 s1 where n: "(if timeout then note_timeout e rz l s else (Inr (), rz, l, s)) = (r, rz1, l1, s1)"
    by (metis prod_cases4)
  then have 1: "adds {} {} s s1" "confirmed s1 = confirmed s" "rz_host rz1 = rz_host rz" "rz_host_prefix rz1 = rz_host_prefix rz"
    using note_timeout_adds [of e rz l s r rz1 l1 s1] by (auto split: if_splits)
  obtain q s2 where reg: "register_peer e rz1 s1 = (q, s2)" by (cases "register_peer e rz1 s1")
  have "turn_adds False rz s rz1 s2"
    using register_peer_adds [OF reg] adds_trans [OF adds_mono [OF 1(1)]] 1(2-4) by (auto simp: turn_adds_def)
  with 1 assms show ?thesis
    by (auto simp: send_again_def n reg intro: turn_addsI split: sum.splits)
qed

lemma udp_tick_adds: "udp_tick e rz l s = (t, rz', l', s') \<Longrightarrow> turn_adds False rz s rz' s'"
  unfolding udp_tick_def Let_def by (auto intro: turn_addsI dest: send_again_adds split: if_splits)

lemma update_latency_udp_adds: "adds C H s (snd (update_latency_udp e h (l, s)))"
proof -
  have "adds C H s (on_settings (update_latency h n) s)" for n by (rule adds_on_settings) (simp add: keys_kept)
  then show ?thesis by (simp add: update_latency_udp_def Let_def)
qed

lemma update_latency_tcp_adds: "adds C H s (snd (update_latency_tcp e h (l, s)))"
  unfolding update_latency_tcp_def by (auto simp: Let_def keys_kept intro!: adds_on_settings)

lemma resp_turn_adds:
  assumes "handle_resp e upd msg rz l s = (r, rz', l', s')" "\<And>C H l s. adds C H s (snd (upd (l, s)))"
  shows "turn_adds (is_ok (Msg msg)) rz s rz' s'"
  using handle_resp_adds [OF assms] by (auto simp: turn_adds_def intro: adds_mono)

lemma udp_packet_adds: "udp_packet e p rz l s = (t, rz', l', s') \<Longrightarrow> turn_adds (is_ok p) rz s rz' s'"
  by (auto simp: udp_packet_def split: rz_recv.splits prod.splits intro: turn_addsI resp_turn_adds update_latency_udp_adds)

lemma tcp_packet_adds: "tcp_packet e p rz l s = (t, rz', l', s') \<Longrightarrow> turn_adds (is_ok p) rz s rz' s'"
  by (auto simp: tcp_packet_def Let_def split: rz_recv.splits prod.splits option.splits
      intro!: turn_addsI resp_turn_adds [OF _ update_latency_tcp_adds])

lemma tcp_tick_adds: "tcp_tick e rz l s = (t, rz', l', s') \<Longrightarrow> turn_adds False rz s rz' s'"
  by (auto simp: tcp_tick_def split: if_splits prod.splits sum.splits intro!: turn_addsI dest: register_pk_adds)

definition ok_event :: "loop_event \<Rightarrow> bool" where
  "ok_event ev = (case ev of Packet p \<Rightarrow> is_ok p | Tick \<Rightarrow> False)"

lemma loop_turn_adds:
  assumes "loop_turn e ev l s = (t, l', s')"
  shows "turn_adds (ok_event ev) (loop_rz l) s (loop_rz l') s'"
  using assms
  by (cases l; cases ev)
     (auto simp: ok_event_def split: prod.splits dest: udp_packet_adds udp_tick_adds tcp_packet_adds tcp_tick_adds)

lemma adds_last [simp]:
  "adds C H s (s'\<lparr>LAST_MSG := m\<rparr>) \<longleftrightarrow> adds C H s s'" "adds C H s (s'\<lparr>LAST_RELAY_MSG := m\<rparr>) \<longleftrightarrow> adds C H s s'"
  by (simp_all add: adds_def confirmed_def registered_def)

interpretation nothing_added: task_order "adds {} {}" "\<lambda>x. \<forall>h i n. x \<noteq> Sent h (RegisterPeer i n)"
proof unfold_locales
  fix s and m
  show "adds {} {} s (s\<lparr>med_settings := snd (get_id m (med_settings s))\<rparr>)"
    by (rule adds_same) (simp_all add: keys_kept)
qed (auto intro: adds_trans)

lemma run_task_adds: "run_task e t s = (r, s') \<Longrightarrow> adds {} {} s s'"
proof -
  have "fine s t x \<Longrightarrow> \<forall>h i n. x \<noteq> Sent h (RegisterPeer i n)" for x by (auto simp: fine_def)
  from nothing_added.task_step [OF this] show "run_task e t s = (r, s') \<Longrightarrow> adds {} {} s s'" by (metis snd_conv)
qed

definition step_ok :: "med_loop list \<Rightarrow> med_step \<Rightarrow> string set" where
  "step_ok ls st = (case st of
     LoopStep i e ev \<Rightarrow> if i < length ls \<and> ok_event ev then {rz_host_prefix (loop_rz (ls ! i))} else {}
   | _ \<Rightarrow> {})"

definition names :: "med_loop list \<Rightarrow> (string \<times> string) list" where
  "names ls = map (\<lambda>l. (rz_host (loop_rz l), rz_host_prefix (loop_rz l))) ls"

lemma med_apply_adds:
  assumes "med_apply step (ls, s) = (ls', s')"
  shows "names ls' = names ls
    \<and> adds (step_ok ls step) {h. \<exists>p. (h, p) \<in> set (names ls) \<and> p \<in> confirmed s} s s'"
proof (cases step)
  case (LoopStep i e ev)
  show ?thesis
  proof (cases "i < length ls")
    case True
    obtain t l s1 where l: "loop_turn e ev (ls ! i) s = (t, l, s1)" by (metis prod_cases3)
    with assms LoopStep True have r: "ls' = ls[i := l]" "s' = s1" by auto
    note ta = loop_turn_adds [OF l, unfolded turn_adds_def]
    have "names ls' = names ls"
      using ta True by (intro nth_equalityI) (auto simp: r names_def nth_list_update)
    moreover have "(rz_host (loop_rz (ls ! i)), rz_host_prefix (loop_rz (ls ! i))) \<in> set (names ls)"
      using True by (auto simp: names_def)
    then have "adds (step_ok ls step) {h. \<exists>p. (h, p) \<in> set (names ls) \<and> p \<in> confirmed s} s s'"
      unfolding r using True LoopStep by (intro adds_mono [OF conjunct1 [OF ta]]) (auto simp: step_ok_def)
    ultimately show ?thesis by blast
  next
    case False
    with assms LoopStep show ?thesis by simp
  qed
next
  case (TaskStep e t)
  with assms show ?thesis
    using run_task_adds [of e t s] by (cases "run_task e t s") (auto intro: adds_mono)
next
  case KeyUnconfirmed
  with assms show ?thesis by (auto intro: adds_unconfirm)
next
  case (ResendCheck pk)
  with assms show ?thesis by (auto simp: CheckIfResendPk_drop_def intro: adds_unconfirm)
qed

lemma step_ok_names: "names ls' = names ls \<Longrightarrow> step_ok ls' st = step_ok ls st"
proof -
  assume n: "names ls' = names ls"
  then have len: "length ls' = length ls" by (metis length_map names_def)
  have "i < length ls \<Longrightarrow> names ls' ! i = names ls ! i" for i using n by simp
  then have "i < length ls \<Longrightarrow> rz_host_prefix (loop_rz (ls' ! i)) = rz_host_prefix (loop_rz (ls ! i))" for i
    by (simp add: names_def len)
  then show ?thesis by (auto simp: step_ok_def len split: med_step.splits)
qed

text \<open>
  C15. A machine announces itself to a rendezvous server only after that server has accepted its key: however the packets and
  timers of the loops of all servers, the tasks they spawn and the withdrawals of the confirmation are
  mixed, starting without any confirmed key, a \<open>RegisterPeer\<close> message is sent to a host only if an OK response to
  \<open>RegisterPk\<close> has reached a loop with the name under which that host's confirmation is kept.
\<close>

theorem registers_only_with_confirmed_key:
  assumes "med_run steps (ls, s) = (ls', s')" "confirmed s = {}" "registered s = {}"
  shows "confirmed s' \<subseteq> (\<Union>st\<in>set steps. step_ok ls st)
    \<and> (\<forall>h\<in>registered s'. \<exists>p. (h, p) \<in> set (names ls) \<and> p \<in> (\<Union>st\<in>set steps. step_ok ls st))"
proof -
  have "names ls' = names ls \<and> confirmed s' \<subseteq> confirmed s \<union> (\<Union>st\<in>set steps. step_ok ls st)
    \<and> (\<forall>h\<in>registered s'. h \<in> registered s \<or> (\<exists>p. (h, p) \<in> set (names ls) \<and> p \<in> confirmed s \<union> (\<Union>st\<in>set steps. step_ok ls st)))"
    using assms(1)
  proof (induction steps arbitrary: ls s)
    case (Cons st steps)
    obtain ls1 s1 where 1: "med_apply st (ls, s) = (ls1, s1)" by (cases "med_apply st (ls, s)")
    note a = med_apply_adds [OF 1]
    have "med_run steps (ls1, s1) = (ls', s')" using Cons.prems 1 by (simp add: med_run_def)
    from Cons.IH [OF this] a step_ok_names [of ls1 ls] show ?case
      unfolding adds_def by fastforce
  qed (auto simp: med_run_def)
  with assms(2,3) show ?thesis by auto
qed

section \<open>The back-off of the registration\<close>

definition udp_ok :: "udp_locals \<Rightarrow> bool" where
  "udp_ok l \<longleftrightarrow> MIN_REG_TIMEOUT \<le> reg_timeout l \<and> reg_timeout l \<le> MAX_REG_TIMEOUT \<and> MIN_REG_TIMEOUT dvd reg_timeout l
     \<and> 0 \<le> fails l \<and> 0 \<le> ema_latency l \<and> ema_latency l \<le> 1000000 \<and> 0 \<le> old_latency l \<and> old_latency l \<le> 1000000"

lemmas reg_consts = MIN_REG_TIMEOUT_def MAX_REG_TIMEOUT_def MAX_FAILS1_def MAX_FAILS2_def

lemma udp_ok_new: "udp_ok (udp_locals_new e)"
  by (simp add: udp_ok_def udp_locals_new_def reg_consts)

lemma udp_ok_fields [simp]:
  "udp_ok (l\<lparr>last_register_sent := a\<rparr>) \<longleftrightarrow> udp_ok l" "udp_ok (l\<lparr>last_dns_check := d\<rparr>) \<longleftrightarrow> udp_ok l"
  by (simp_all add: udp_ok_def)

lemma udp_ok_note_timeout: "note_timeout e rz l s = (r, rz', l', s') \<Longrightarrow> udp_ok l \<Longrightarrow> udp_ok l'"
  by (auto simp: note_timeout_def udp_ok_def Let_def split: if_splits sum.splits option.splits)

lemma udp_ok_send_again: "send_again e b rz l s = (t, rz', l', s') \<Longrightarrow> udp_ok l \<Longrightarrow> udp_ok l'"
  by (cases "note_timeout e rz l s")
     (auto simp: send_again_def split: if_splits sum.splits prod.splits dest: udp_ok_note_timeout)

lemma udp_ok_longer: "udp_ok l \<Longrightarrow> reg_timeout l < MAX_REG_TIMEOUT \<Longrightarrow> udp_ok (l\<lparr>reg_timeout := reg_timeout l + MIN_REG_TIMEOUT\<rparr>)"
  by (auto simp: udp_ok_def reg_consts elim!: dvdE)

lemma udp_ok_tick:
  assumes "udp_tick e rz l s = (t, rz', l', s')" "udp_ok l"
  shows "udp_ok l'"
  using assms udp_ok_send_again udp_ok_longer unfolding udp_tick_def Let_def
  by (fastforce split: if_splits)

lemma smooth_bounds:
  fixes a b :: int
  assumes "0 \<le> a" "a \<le> 1000000" "0 \<le> b" "b \<le> 1000000"
  shows "0 \<le> a div 30 + b * 29 div 30" "a div 30 + b * 29 div 30 \<le> 1000000"
proof -
  show "0 \<le> a div 30 + b * 29 div 30" using assms by (intro add_nonneg_nonneg) simp_all
  have "a div 30 \<le> 1000000 div 30" "b * 29 div 30 \<le> 1000000 * 29 div 30"
    by (rule zdiv_mono1; use assms in simp)+
  then show "a div 30 + b * 29 div 30 \<le> 1000000" by simp
qed

lemma udp_ok_update_latency:
  assumes "udp_ok l"
  shows "udp_ok (fst (update_latency_udp e h (l, s)))"
proof -
  define lat where "lat = (case last_register_sent l of Some t \<Rightarrow> elapsed_us e t | None \<Rightarrow> 0)"
  have "0 \<le> lat div 30 + ema_latency l * 29 div 30 \<and> lat div 30 + ema_latency l * 29 div 30 \<le> 1000000" if "\<not> lat < 0" "\<not> 1000000 < lat"
    using that assms smooth_bounds [of lat "ema_latency l"] by (simp add: udp_ok_def)
  with assms show ?thesis
    by (simp add: update_latency_udp_def udp_ok_def reg_consts Let_def flip: lat_def)
qed

lemma udp_ok_packet:
  assumes "udp_packet e p rz l s = (t, rz', l', s')" "udp_ok l"
  shows "udp_ok l'"
proof -
  have "l' = l \<or> l' = fst (update_latency_udp e (rz_host rz) (l, s))"
    using assms(1)
    by (auto simp: udp_packet_def handle_resp_def Let_def case_prod_unfold split: rz_recv.splits rz_in.splits if_splits sum.splits)
  with assms(2) udp_ok_update_latency show ?thesis by auto
qed

text \<open>A run of one loop over UDP: each event with the environment of its turn.\<close>

definition udp_run :: "(rz_env \<times> loop_event) list \<Rightarrow> RendezvousMediator \<times> udp_locals \<times> mediator_state \<Rightarrow> RendezvousMediator \<times> udp_locals \<times> mediator_state" where
  "udp_run evs = fold (\<lambda>(e, ev) (rz, l, s).
     snd (case ev of Packet p \<Rightarrow> udp_packet e p rz l s | Tick \<Rightarrow> udp_tick e rz l s)) evs"

lemma udp_run_simps [simp]:
  "udp_run [] x = x"
  "udp_run ((e, Tick) # evs) (rz, l, s) = udp_run evs (snd (udp_tick e rz l s))"
  "udp_run ((e, Packet p) # evs) (rz, l, s) = udp_run evs (snd (udp_packet e p rz l s))"
  by (simp_all add: udp_run_def)

text \<open>
  C31. The back-off stays in bounds: whatever packets and ticks a loop over UDP handles from its start, the time it waits for an
  answer is a multiple of three seconds between 3 and 30 seconds, the count of failures is not negative, and
  both latencies it keeps lie between 0 and one second, so none of its sums and products leaves the range of
  \<open>i64\<close>.
\<close>

theorem backoff_in_bounds: "udp_ok (fst (snd (udp_run evs (rz, udp_locals_new e, s))))"
proof -
  have "udp_ok l \<Longrightarrow> udp_ok (fst (snd (udp_run evs (rz, l, s))))" for l
  proof (induction evs arbitrary: rz l s)
    case (Cons x evs)
    obtain e ev where x: "x = (e, ev)" by (cases x)
    show ?case
    proof (cases ev)
      case (Packet p)
      obtain t rz1 l1 s1 where 1: "udp_packet e p rz l s = (t, rz1, l1, s1)" by (metis prod_cases4)
      from Cons.IH [OF udp_ok_packet [OF 1 Cons.prems]] show ?thesis by (simp add: x Packet 1)
    next
      case Tick
      obtain t rz1 l1 s1 where 1: "udp_tick e rz l s = (t, rz1, l1, s1)" by (metis prod_cases4)
      from Cons.IH [OF udp_ok_tick [OF 1 Cons.prems]] show ?thesis by (simp add: x Tick 1)
    qed
  qed simp
  then show ?thesis using udp_ok_new by blast
qed

section \<open>A silent server is noticed\<close>

lemma online_update [simp]: "hm_get (ONLINE (update_latency h n st)) k = (if k = h then Some n else hm_get (ONLINE st) k)"
  by (simp add: update_latency_def Let_def case_prod_unfold)

lemma online_kept [simp]:
  "ONLINE (snd (get_id m st)) = ONLINE st" "ONLINE (snd (get_key_pair f st)) = ONLINE st"
  by (simp_all add: get_id_def get_key_pair_def set_id_def Let_def split: option.splits)

lemma register_peer_quiet:
  assumes "register_peer e rz s = (r, s')" "rz_sink_error e = None"
  shows "r = Inr () \<and> ONLINE (med_settings s') = ONLINE (med_settings s) \<and> SHOULD_EXIT s' = SHOULD_EXIT s"
  using assms by (auto simp: register_peer_def register_pk_def effect_def Let_def case_prod_unfold split: if_splits)

lemma note_timeout_counts:
  assumes "note_timeout e rz l s = (r, rz', l', s')"
  shows "rz_host rz' = rz_host rz \<and> SHOULD_EXIT s' = SHOULD_EXIT s \<and> fails l' = fails l + 1 \<and> reg_timeout l' = reg_timeout l
    \<and> last_register_sent l' = last_register_sent l
    \<and> (fails l + 1 < 4 \<longrightarrow> r = Inr ())
    \<and> (fails l + 1 \<ge> 4 \<longrightarrow> hm_get (ONLINE (med_settings s')) (rz_host rz) = Some (-1))"
  using assms by (auto simp: note_timeout_def Let_def reg_consts on_settings_def split: if_splits sum.splits option.splits)

text \<open>
  The state between two ticks while no packet arrives: either the server is known to be offline, or the
  last registration is younger than the timeout and was sent at most 32 seconds per failure after the first.
\<close>

definition silent :: "nat \<Rightarrow> string \<Rightarrow> nat \<Rightarrow> RendezvousMediator \<times> udp_locals \<times> mediator_state \<Rightarrow> bool" where
  "silent t0 h tau = (\<lambda>(rz, l, s). rz_host rz = h \<and> \<not> SHOULD_EXIT s \<and> udp_ok l \<and>
     (\<exists>t. last_register_sent l = Some t \<and> t \<le> tau \<and>
        (if fails l \<ge> 4 then hm_get (ONLINE (med_settings s)) h = Some (-1)
         else int ((tau - t) div 1000) < reg_timeout l \<and> int t \<le> int t0 + fails l * 32000000)))"

lemma send_again_silent:
  assumes "send_again e True rz l s = (t, rz', l', s')" "rz_sink_error e = None" "udp_ok l" "\<not> SHOULD_EXIT s"
    and "last_register_sent l = Some t1" "t1 \<le> now e"
    and "fails l < 4 \<Longrightarrow> int (now e) \<le> int t0 + (fails l + 1) * 32000000"
  shows "silent t0 (rz_host rz) (now e) (rz', l', s')"
proof -
  obtain r rz1 l1 s1 where n: "note_timeout e rz l s = (r, rz1, l1, s1)" by (metis prod_cases4)
  note c = note_timeout_counts [OF n] and ok = udp_ok_note_timeout [OF n assms(3)]
  obtain q s2 where g: "register_peer e rz1 s1 = (q, s2)" by (cases "register_peer e rz1 s1")
  note u = register_peer_quiet [OF g assms(2)]
  show ?thesis
  proof (cases r)
    case (Inl err)
    with assms(1) n have "rz' = rz1" "l' = l1" "s' = s1" by (auto simp: send_again_def)
    with Inl c ok assms(4-6) show ?thesis by (auto simp: silent_def)
  next
    case (Inr x)
    with assms(1) n g u have "rz' = rz1" "l' = l1\<lparr>last_register_sent := Some (now e)\<rparr>" "s' = s2"
      by (auto simp: send_again_def)
    moreover have "0 < reg_timeout l1" using ok by (simp add: udp_ok_def reg_consts)
    ultimately show ?thesis using c ok u assms(4,7) by (auto simp: silent_def)
  qed
qed

lemma tick_silent:
  assumes "silent t0 h tau (rz, l, s)" "rz_sink_error e = None" "tau \<le> now e" "now e \<le> tau + 2000000"
  shows "silent t0 h (now e) (snd (udp_tick e rz l s))"
proof -
  from assms(1) obtain t where st: "rz_host rz = h" "\<not> SHOULD_EXIT s" "udp_ok l" "last_register_sent l = Some t" "t \<le> tau"
    and f: "if fails l \<ge> 4 then hm_get (ONLINE (med_settings s)) h = Some (-1)
      else int ((tau - t) div 1000) < reg_timeout l \<and> int t \<le> int t0 + fails l * 32000000"
    by (auto simp: silent_def)
  let ?late = "elapsed_ms e t \<ge> reg_timeout l"
  let ?l = "if using_public_server (med_settings s) \<and> ?late \<and> reg_timeout l < MAX_REG_TIMEOUT
            then l\<lparr>reg_timeout := reg_timeout l + MIN_REG_TIMEOUT\<rparr> else l"
  have l: "udp_ok ?l" "last_register_sent ?l = Some t" "fails ?l = fails l"
    using st(3,4) udp_ok_longer by auto
  have max: "reg_timeout l \<le> 30000" using st(3) by (simp add: udp_ok_def reg_consts)
  have young: "int (now e) \<le> int t0 + (fails l + 1) * 32000000 \<and> elapsed_ms e t = int ((now e - t) div 1000)" if "fails l < 4"
  proof -
    have a: "int ((tau - t) div 1000) < 30000" "int t \<le> int t0 + fails l * 32000000" using f that max by auto
    then have b: "now e - t < 32000000" using st(5) assms(3,4) by linarith
    then have "int (now e) < int t + 32000000" using st(5) assms(3) by linarith
    moreover have "elapsed_ms e t = int ((now e - t) div 1000)" unfolding elapsed_ms_def
      by (rule u64_as_i64_small) (use b in simp)
    ultimately show ?thesis using a(2) by (simp add: algebra_simps)
  qed
  show ?thesis
  proof (cases ?late)
    case True
    then have "udp_tick e rz l s = send_again e True rz ?l s" using st(2,4) by (simp add: udp_tick_def Let_def)
    moreover obtain tu rz1 l1 s1 where g: "send_again e True rz ?l s = (tu, rz1, l1, s1)" by (metis prod_cases4)
    moreover have "silent t0 (rz_host rz) (now e) (rz1, l1, s1)"
      by (rule send_again_silent [OF g assms(2) l(1) st(2) l(2)]) (use st(5) assms(3) young l(3) in auto)
    ultimately show ?thesis using st(1) by simp
  next
    case False
    then have "snd (udp_tick e rz l s) = (rz, l, s)" using st(2,4) by (simp add: udp_tick_def Let_def)
    with False st f young assms(3) show ?thesis by (auto simp: silent_def)
  qed
qed

lemma first_tick_silent:
  assumes "rz_sink_error e = None" "\<not> SHOULD_EXIT s"
  shows "silent (now e) (rz_host rz) (now e) (snd (udp_tick e rz (udp_locals_new e0) s))"
proof -
  obtain q s2 where g: "register_peer e rz s = (q, s2)" by (cases "register_peer e rz s")
  from register_peer_quiet [OF g assms(1)] assms(2) udp_ok_new [of e0] show ?thesis
    by (auto simp: udp_tick_def send_again_def silent_def udp_locals_new_def g reg_consts udp_ok_def Let_def)
qed

text \<open>Ticks at most two seconds apart on which nothing goes wrong at the sink.\<close>

fun ticking :: "nat \<Rightarrow> rz_env list \<Rightarrow> bool" where
  "ticking tau [] \<longleftrightarrow> True"
| "ticking tau (e # es) \<longleftrightarrow> rz_sink_error e = None \<and> tau \<le> now e \<and> now e \<le> tau + 2000000 \<and> ticking (now e) es"

lemma ticks_silent:
  assumes "silent t0 h tau x" "ticking tau es"
  shows "silent t0 h (now (last (e0\<lparr>now := tau\<rparr> # es))) (udp_run (map (\<lambda>e. (e, Tick)) es) x)"
  using assms
proof (induction es arbitrary: tau x e0)
  case (Cons e es)
  obtain rz l s where x: "x = (rz, l, s)" by (cases x)
  have "silent t0 h (now e) (snd (udp_tick e rz l s))"
    using tick_silent [of t0 h tau rz l s e] Cons.prems by (simp add: x)
  from Cons.IH [OF this, of e] Cons.prems(2) show ?case by (simp add: x)
qed simp


section \<open>A mismatch of the identity\<close>

text \<open>
  While a host solves a mismatch, nothing that happens elsewhere changes the id or the host that solves it,
  or sends \<open>RegisterPeer\<close>.
\<close>

definition frozen :: "mediator_state \<Rightarrow> mediator_state \<Rightarrow> bool" where
  "frozen s s' \<longleftrightarrow> cfg_id (CONFIG (med_settings s')) = cfg_id (CONFIG (med_settings s))
     \<and> SOLVING_PK_MISMATCH s' = SOLVING_PK_MISMATCH s \<and> registered s' \<subseteq> registered s"

definition busy :: "string \<Rightarrow> mediator_state \<Rightarrow> bool" where
  "busy h s \<longleftrightarrow> h \<noteq> '''' \<and> SOLVING_PK_MISMATCH s = h \<and> cfg_id (CONFIG (med_settings s)) \<noteq> ''''"

lemma frozen_refl [simp, intro]: "frozen s s"
  by (simp add: frozen_def)

lemma frozen_trans: "frozen s s' \<Longrightarrow> frozen s' s'' \<Longrightarrow> frozen s s''"
  by (auto simp: frozen_def)

lemma busy_frozen: "busy h s \<Longrightarrow> frozen s s' \<Longrightarrow> busy h s'"
  by (simp add: busy_def frozen_def)

lemma cfg_id_kept [simp]:
  "cfg_id (CONFIG (set_option k v st)) = cfg_id (CONFIG st)" "cfg_id (CONFIG (set_key_confirmed b st)) = cfg_id (CONFIG st)"
  "cfg_id (CONFIG (snd (get_key_pair f st))) = cfg_id (CONFIG st)" "cfg_id (CONFIG (set_serial n st)) = cfg_id (CONFIG st)"
  "cfg_id (CONFIG (update_latency h l st)) = cfg_id (CONFIG st)"
  by (simp_all add: set_option_def set_key_confirmed_def get_key_pair_def set_serial_def update_latency_def Let_def
      case_prod_unfold split: option.splits)

lemma registered_fields [simp]:
  "registered (s\<lparr>med_settings := st\<rparr>) = registered s" "registered (s\<lparr>SENT_REGISTER_PK := b\<rparr>) = registered s"
  "registered (s\<lparr>tasks := ts\<rparr>) = registered s" "registered (s\<lparr>LAST_MSG := m\<rparr>) = registered s"
  "registered (s\<lparr>LAST_RELAY_MSG := m\<rparr>) = registered s" "registered (restart s) = registered s"
  "registered (on_settings f s) = registered s"
  by (simp_all add: registered_def restart_def on_settings_def)

lemma registered_other [simp]:
  "(\<And>h i n. x \<noteq> Sent h (RegisterPeer i n)) \<Longrightarrow> registered (effect x s) = registered s"
  by (simp add: registered_def effect_def) metis

lemma effect_fields [simp]:
  "med_settings (effect x s) = med_settings s" "SOLVING_PK_MISMATCH (effect x s) = SOLVING_PK_MISMATCH s"
  "med_settings (on_settings f s) = f (med_settings s)" "SOLVING_PK_MISMATCH (on_settings f s) = SOLVING_PK_MISMATCH s"
  "med_settings (restart s) = med_settings s" "SOLVING_PK_MISMATCH (restart s) = SOLVING_PK_MISMATCH s"
  by (simp_all add: effect_def on_settings_def restart_def)

lemma get_id_busy: "busy h s \<Longrightarrow> get_id m (med_settings s) = (cfg_id (CONFIG (med_settings s)), med_settings s)"
  by (simp add: busy_def get_id_known)

lemma register_pk_frozen: "register_pk e rz s = (r, s') \<Longrightarrow> busy h s \<Longrightarrow> frozen s s'"
  by (auto simp: register_pk_def busy_def get_id_known frozen_def Let_def case_prod_unfold split: option.splits)

lemma register_peer_frozen: "register_peer e rz s = (r, s') \<Longrightarrow> busy h s \<Longrightarrow> rz_host rz \<noteq> h \<Longrightarrow> frozen s s'"
  by (auto simp: register_peer_def busy_def Let_def split: if_splits)

lemma handle_resp_frozen:
  assumes "handle_resp e upd msg rz l s = (r, rz', l', s')" "busy h s" "rz_host rz \<noteq> h" "\<not> is_ok (Msg msg)"
    and upd: "frozen s (snd (upd (l, s)))"
  shows "frozen s s'"
proof -
  obtain l1 s1 where u: "upd (l, s) = (l1, s1)" by (cases "upd (l, s)")
  with upd have 1: "frozen s s1" by simp
  note b1 = busy_frozen [OF assms(2) 1]
  have mis: "handle_uuid_mismatch e rz s1 = (Inr (), s1)" using b1 assms(3) by (auto simp: busy_def handle_uuid_mismatch_def)
  show ?thesis
    using assms(1,4) 1 frozen_trans [OF 1 register_pk_frozen [OF _ b1]]
    by (auto simp: handle_resp_def is_ok_def u mis Let_def frozen_def split: rz_in.splits pk_result.splits prod.splits if_splits)
qed

lemma note_timeout_frozen: "note_timeout e rz l s = (r, rz', l', s') \<Longrightarrow> frozen s s'"
  by (auto simp: note_timeout_def frozen_def Let_def split: if_splits sum.splits option.splits)

lemma send_again_frozen:
  assumes "send_again e b rz l s = (t, rz', l', s')" "busy h s" "rz_host rz \<noteq> h"
  shows "frozen s s'"
proof -
  obtain r rz1 l1 s1 where n: "(if b then note_timeout e rz l s else (Inr (), rz, l, s)) = (r, rz1, l1, s1)"
    by (metis prod_cases4)
  have 1: "frozen s s1" using n note_timeout_frozen [of e rz l s] by (auto split: if_splits)
  have "rz_host rz1 = rz_host rz" using n note_timeout_adds [of e rz l s] by (auto split: if_splits)
  then have "frozen s1 s2" if "register_peer e rz1 s1 = (q, s2)" for q s2
    using register_peer_frozen [OF that busy_frozen [OF assms(2) 1]] assms(3) by simp
  with assms(1) 1 show ?thesis
    by (auto simp: send_again_def n split: sum.splits prod.splits intro: frozen_trans)
qed

lemma latency_frozen:
  "frozen s (snd (update_latency_udp e h (l, s)))" "frozen s (snd (update_latency_tcp e h (l', s)))"
  by (simp_all add: update_latency_udp_def update_latency_tcp_def frozen_def Let_def)

lemma loop_turn_frozen:
  assumes "loop_turn e ev l s = (t, l', s')" "busy h s" "rz_host (loop_rz l) \<noteq> h" "\<not> ok_event ev"
  shows "frozen s s'"
proof (cases l)
  case (UdpLoop rz lo)
  show ?thesis
  proof (cases ev)
    case (Packet p)
    with assms UdpLoop handle_resp_frozen [where upd = "update_latency_udp e (rz_host rz)" and s = s and h = h, OF _ assms(2) _ _ latency_frozen(1)] show ?thesis
      by (auto simp: udp_packet_def ok_event_def split: rz_recv.splits prod.splits)
  next
    case Tick
    with assms UdpLoop send_again_frozen [OF _ assms(2)] show ?thesis
      by (auto simp: udp_tick_def Let_def split: prod.splits if_splits)
  qed
next
  case (TcpLoop rz lo)
  show ?thesis
  proof (cases ev)
    case (Packet p)
    with assms TcpLoop handle_resp_frozen [where upd = "update_latency_tcp e (rz_host rz)" and s = s and h = h, OF _ assms(2) _ _ latency_frozen(2)] show ?thesis
      by (auto simp: tcp_packet_def ok_event_def frozen_def Let_def split: rz_recv.splits prod.splits option.splits)
  next
    case Tick
    with assms TcpLoop register_pk_frozen [OF _ assms(2)] show ?thesis
      by (auto simp: tcp_tick_def split: prod.splits if_splits sum.splits)
  qed
qed

text \<open>Where the id is known, tasks leave the settings and the mismatch alone.\<close>

definition settled :: "mediator_state \<Rightarrow> mediator_state \<Rightarrow> bool" where
  "settled s s' \<longleftrightarrow> med_settings s' = med_settings s \<and> SOLVING_PK_MISMATCH s' = SOLVING_PK_MISMATCH s"

interpretation calm: task_order "\<lambda>s s'. cfg_id (CONFIG (med_settings s)) \<noteq> '''' \<longrightarrow> settled s s'" "\<lambda>_. True"
  by unfold_locales (auto simp: settled_def get_id_known effect_def)

lemmas settled_tasks = calm.task_step [rule_format, OF TrueI]

lemma run_task_frozen: "busy h s \<Longrightarrow> frozen s (snd (run_task e t s))"
  using run_task_adds [of e t s "fst (run_task e t s)" "snd (run_task e t s)"] settled_tasks [of s e t]
  by (simp add: frozen_def settled_def busy_def adds_def)

definition elsewhere :: "string \<Rightarrow> med_loop list \<Rightarrow> med_step \<Rightarrow> bool" where
  "elsewhere h ls st = (case st of
     LoopStep i e ev \<Rightarrow> i < length ls \<longrightarrow> rz_host (loop_rz (ls ! i)) \<noteq> h \<and> \<not> ok_event ev
   | _ \<Rightarrow> True)"

lemma elsewhere_names: "names ls' = names ls \<Longrightarrow> elsewhere h ls' st \<longleftrightarrow> elsewhere h ls st"
proof -
  assume n: "names ls' = names ls"
  then have len: "length ls' = length ls" by (metis length_map names_def)
  have "i < length ls \<Longrightarrow> names ls' ! i = names ls ! i" for i using n by simp
  then have "i < length ls \<Longrightarrow> rz_host (loop_rz (ls' ! i)) = rz_host (loop_rz (ls ! i))" for i
    by (simp add: names_def len)
  then show ?thesis by (auto simp: elsewhere_def len split: med_step.splits)
qed

lemma med_apply_frozen:
  assumes "med_apply st (ls, s) = (ls', s')" "busy h s" "elsewhere h ls st"
  shows "frozen s s'"
proof (cases st)
  case (LoopStep i e ev)
  with assms loop_turn_frozen [OF _ assms(2)] show ?thesis
    by (auto simp: elsewhere_def split: if_splits prod.splits)
next
  case (TaskStep e t)
  with assms run_task_frozen show ?thesis by auto
next
  case KeyUnconfirmed
  with assms show ?thesis by (auto simp: frozen_def)
next
  case (ResendCheck pk)
  with assms show ?thesis by (auto simp: frozen_def CheckIfResendPk_drop_def split: if_splits)
qed


section \<open>The connections that requests open\<close>

fun repeated :: "rz_env \<Rightarrow> rz_task \<Rightarrow> mediator_state \<Rightarrow> bool" where
  "repeated e (HandlePunchHole _ ph) s = is_duplicate e (LAST_MSG s) (mangle_decode (ph_socket_addr ph))"
| "repeated e (HandleRequestRelay _ rr) s = is_duplicate e (LAST_RELAY_MSG s) (mangle_decode (rr_socket_addr rr))"
| "repeated e (HandleIntranet _ fla) s = is_duplicate e (LAST_MSG s) (mangle_decode (fla_socket_addr fla))"

definition emits :: "(rz_effect \<Rightarrow> bool) \<Rightarrow> mediator_state \<Rightarrow> mediator_state \<Rightarrow> bool" where
  "emits P s s' \<longleftrightarrow> (\<exists>new. effects s' = effects s @ new \<and> list_all P new)"

lemma emits_refl [simp]: "effects s' = effects s \<Longrightarrow> emits P s s'"
  by (simp add: emits_def)

lemma emits_trans: "emits P s s' \<Longrightarrow> emits P s' s'' \<Longrightarrow> emits P s s''"
  by (auto simp: emits_def)

lemma emits_effect [simp]: "P x \<Longrightarrow> emits P s s' \<Longrightarrow> emits P s (effect x s')"
  by (auto simp: emits_def effect_def)

interpretation emitted: task_order "emits P" P for P
  by unfold_locales (auto intro: emits_trans)


section \<open>Direct access\<close>

definition direct_ok :: "direct_state \<Rightarrow> bool" where
  "direct_ok d \<longleftrightarrow> (\<forall>p. listener d = Some p \<longrightarrow> p = of_int (direct_port d) \<and> \<not> port_wait d)"

lemma direct_access_only_when_enabled:
  assumes "direct_ok d" "direct_turn listens incoming d s = (d', s')"
  shows "direct_ok d' \<and> (direct_disabled (med_settings s) \<longrightarrow> listener d' = None)
    \<and> (effects s' \<noteq> effects s \<longrightarrow> \<not> direct_disabled (med_settings s) \<and> listener d' = Some (of_int (get_direct_port (med_settings s))))"
  using assms
  by (auto simp: direct_turn_def direct_ok_def effect_def Let_def split: if_splits option.splits)

section \<open>Examples\<close>

definition example_rz_env :: rz_env where
  "example_rz_env =
     \<lparr>now = 0, rz_machine = \<lparr>hostname = None, mac_address = None\<rparr>, rz_fresh_pair = ([1], [2]), rz_machine_uuid = [],
      rz_random_id = 1000000000, rz_sink_error = None, resolved = Inl '''', tcp_to_host = Inr (V4 [10, 0, 0, 1] 5),
      rz_send_error = None, ipv6_socket = None, udp_to_host = Inr (), nat_listen_error = None, mangle_time = 0,
      new_uuid = ''u'', rz_match = \<lambda>_ _. False\<rparr>"

definition example_rz :: "string \<Rightarrow> RendezvousMediator" where
  "example_rz h = mediator_new (\<lambda>_ _. False) h (TargetDomain h)"

definition example_med :: mediator_state where
  "example_med =
     \<lparr>med_settings = example_settings, SOLVING_PK_MISMATCH = '''', LAST_MSG = (V4 [0, 0, 0, 0] 0, 0),
      LAST_RELAY_MSG = (V4 [0, 0, 0, 0] 0, 0), SHOULD_EXIT = False, MANUAL_RESTARTED = False, SENT_REGISTER_PK = False,
      effects = [], tasks = []\<rparr>"

definition example_steps :: "med_step list" where
  "example_steps =
     [LoopStep 0 example_rz_env Tick, LoopStep 0 example_rz_env (Packet (Msg (RegisterPkResponse PkOK 0))),
      LoopStep 0 (example_rz_env\<lparr>now := 16000000\<rparr>) Tick]"

definition example_loops :: "med_loop list" where
  "example_loops = [UdpLoop (example_rz ''a.b'') (udp_locals_new example_rz_env), UdpLoop (example_rz ''c.d'') (udp_locals_new example_rz_env)]"

theorem registers_only_with_confirmed_key_witness:
  "''a.b:21116'' \<in> registered (snd (med_run example_steps (example_loops, example_med)))
    \<and> (\<exists>p. (''a.b:21116'', p) \<in> set (names example_loops) \<and> p \<in> (\<Union>st\<in>set example_steps. step_ok example_loops st))"
proof -
  let ?run = "med_run example_steps (example_loops, example_med)"
  have run: "?run = (fst ?run, snd ?run)" by simp
  have none: "confirmed example_med = {}" "registered example_med = {}"
    by (simp_all add: confirmed_def registered_def example_med_def example_settings_def get_host_key_confirmed_def Let_def)
  have "Sent ''a.b:21116'' (RegisterPeer ''123'' 3) \<in> set (effects (snd ?run))" by code_simp
  then have "''a.b:21116'' \<in> registered (snd ?run)" by (auto simp: registered_def)
  with registers_only_with_confirmed_key [OF run none] show ?thesis by blast
qed




end
